theory Spec2Isabelle
  imports Main "HOL-Library.Word"
begin

section \<open>Numeric representations and machine arithmetic\<close>

text \<open>
  The driver's \<^verbatim>\<open>int\<close> and \<^verbatim>\<open>epicsInt32\<close> values are 32-bit two's complement
  words; comparisons on them are the signed ones.
\<close>

type_synonym epicsInt32 = "32 word"

text \<open>The enumeration \<^verbatim>\<open>NDDataType_t\<close>, in the order of its declaration.\<close>

datatype NDDataType =
  NDInt8 | NDUInt8 | NDInt16 | NDUInt16 | NDInt32 | NDUInt32 | NDFloat32 | NDFloat64

definition NDDataType_of :: "epicsInt32 \<Rightarrow> NDDataType option" where
  "NDDataType_of v =
     (if v = 0 then Some NDInt8 else if v = 1 then Some NDUInt8
      else if v = 2 then Some NDInt16 else if v = 3 then Some NDUInt16
      else if v = 4 then Some NDInt32 else if v = 5 then Some NDUInt32
      else if v = 6 then Some NDFloat32 else if v = 7 then Some NDFloat64
      else None)"

fun bytesPerElement :: "NDDataType \<Rightarrow> nat" where
  "bytesPerElement NDInt8 = 1"
| "bytesPerElement NDUInt8 = 1"
| "bytesPerElement NDInt16 = 2"
| "bytesPerElement NDUInt16 = 2"
| "bytesPerElement NDInt32 = 4"
| "bytesPerElement NDUInt32 = 4"
| "bytesPerElement NDFloat32 = 4"
| "bytesPerElement NDFloat64 = 8"

text \<open>
  The content of a block of memory, seen at the element type it was last written with.
  Signed and unsigned integers of one width share their bit patterns. \<open>Uninit n\<close> is a
  block of \<open>n\<close> bytes fresh from \<^verbatim>\<open>malloc\<close>.
\<close>

datatype ('d, 'f) raw_data =
  Cells8 "8 word list"
| Cells16 "16 word list"
| Cells32 "32 word list"
| CellsF32 "'f list"
| CellsF64 "'d list"
| Uninit nat

text \<open>
  The arithmetic of the machine the driver runs on is a parameter of the model:
  \<open>'d\<close> is the type of \<^verbatim>\<open>double\<close> values and \<open>'f\<close> the type of
  \<^verbatim>\<open>epicsFloat32\<close> values. The record holds the operations the source applies to
  them: double addition, subtraction, multiplication and comparison, the literals
  \<^verbatim>\<open>0.\<close> and \<^verbatim>\<open>1000.\<close>, the conversions \<^verbatim>\<open>(epicsType)x\<close> from double to
  each element type, the promotions of each element type to double, single-precision
  addition, and what a pointer cast \<^verbatim>\<open>(epicsType *)pData\<close> shows of a block that was
  last written at another element type.
\<close>

record ('d, 'f) machine =
  dadd :: "'d \<Rightarrow> 'd \<Rightarrow> 'd"
  dsub :: "'d \<Rightarrow> 'd \<Rightarrow> 'd"
  dmul :: "'d \<Rightarrow> 'd \<Rightarrow> 'd"
  dge :: "'d \<Rightarrow> 'd \<Rightarrow> bool"
  dzero :: 'd
  d1000 :: 'd
  fadd :: "'f \<Rightarrow> 'f \<Rightarrow> 'f"
  to_int8 :: "'d \<Rightarrow> 8 word"
  to_uint8 :: "'d \<Rightarrow> 8 word"
  to_int16 :: "'d \<Rightarrow> 16 word"
  to_uint16 :: "'d \<Rightarrow> 16 word"
  to_int32 :: "'d \<Rightarrow> 32 word"
  to_uint32 :: "'d \<Rightarrow> 32 word"
  to_float32 :: "'d \<Rightarrow> 'f"
  of_int8 :: "8 word \<Rightarrow> 'd"
  of_uint8 :: "8 word \<Rightarrow> 'd"
  of_int16 :: "16 word \<Rightarrow> 'd"
  of_uint16 :: "16 word \<Rightarrow> 'd"
  of_int32 :: "32 word \<Rightarrow> 'd"
  of_uint32 :: "32 word \<Rightarrow> 'd"
  of_float32 :: "'f \<Rightarrow> 'd"
  view8 :: "('d, 'f) raw_data \<Rightarrow> 8 word list"
  view16 :: "('d, 'f) raw_data \<Rightarrow> 16 word list"
  view32 :: "('d, 'f) raw_data \<Rightarrow> 32 word list"
  viewF32 :: "('d, 'f) raw_data \<Rightarrow> 'f list"
  viewF64 :: "('d, 'f) raw_data \<Rightarrow> 'd list"

text \<open>
  One instantiation of the template parameter \<^verbatim>\<open>epicsType\<close>: the conversion from
  double, the promotion to double, the addition \<^verbatim>\<open>+=\<close> on the element type, what
  the pointer cast \<^verbatim>\<open>(epicsType *)pData\<close> shows of a block, and a block holding
  given cells of this type.
\<close>

record ('d, 'f, 'a) epicsType =
  fromDouble :: "'d \<Rightarrow> 'a"
  toDouble :: "'a \<Rightarrow> 'd"
  plusAssign :: "'a \<Rightarrow> 'a \<Rightarrow> 'a"
  cells :: "('d, 'f) raw_data \<Rightarrow> 'a list"
  block :: "'a list \<Rightarrow> ('d, 'f) raw_data"

definition cells8 :: "('d, 'f) machine \<Rightarrow> ('d, 'f) raw_data \<Rightarrow> 8 word list" where
  "cells8 m d = (case d of Cells8 xs \<Rightarrow> xs | _ \<Rightarrow> view8 m d)"

definition cells16 :: "('d, 'f) machine \<Rightarrow> ('d, 'f) raw_data \<Rightarrow> 16 word list" where
  "cells16 m d = (case d of Cells16 xs \<Rightarrow> xs | _ \<Rightarrow> view16 m d)"

definition cells32 :: "('d, 'f) machine \<Rightarrow> ('d, 'f) raw_data \<Rightarrow> 32 word list" where
  "cells32 m d = (case d of Cells32 xs \<Rightarrow> xs | _ \<Rightarrow> view32 m d)"

definition cellsF32 :: "('d, 'f) machine \<Rightarrow> ('d, 'f) raw_data \<Rightarrow> 'f list" where
  "cellsF32 m d = (case d of CellsF32 xs \<Rightarrow> xs | _ \<Rightarrow> viewF32 m d)"

definition cellsF64 :: "('d, 'f) machine \<Rightarrow> ('d, 'f) raw_data \<Rightarrow> 'd list" where
  "cellsF64 m d = (case d of CellsF64 xs \<Rightarrow> xs | _ \<Rightarrow> viewF64 m d)"

definition epicsInt8 :: "('d, 'f) machine \<Rightarrow> ('d, 'f, 8 word) epicsType" where
  "epicsInt8 m = \<lparr>fromDouble = to_int8 m, toDouble = of_int8 m, plusAssign = (+),
                   cells = cells8 m, block = Cells8\<rparr>"

definition epicsUInt8 :: "('d, 'f) machine \<Rightarrow> ('d, 'f, 8 word) epicsType" where
  "epicsUInt8 m = \<lparr>fromDouble = to_uint8 m, toDouble = of_uint8 m, plusAssign = (+),
                    cells = cells8 m, block = Cells8\<rparr>"

definition epicsInt16 :: "('d, 'f) machine \<Rightarrow> ('d, 'f, 16 word) epicsType" where
  "epicsInt16 m = \<lparr>fromDouble = to_int16 m, toDouble = of_int16 m, plusAssign = (+),
                    cells = cells16 m, block = Cells16\<rparr>"

definition epicsUInt16 :: "('d, 'f) machine \<Rightarrow> ('d, 'f, 16 word) epicsType" where
  "epicsUInt16 m = \<lparr>fromDouble = to_uint16 m, toDouble = of_uint16 m, plusAssign = (+),
                     cells = cells16 m, block = Cells16\<rparr>"

definition epicsInt32 :: "('d, 'f) machine \<Rightarrow> ('d, 'f, 32 word) epicsType" where
  "epicsInt32 m = \<lparr>fromDouble = to_int32 m, toDouble = of_int32 m, plusAssign = (+),
                    cells = cells32 m, block = Cells32\<rparr>"

definition epicsUInt32 :: "('d, 'f) machine \<Rightarrow> ('d, 'f, 32 word) epicsType" where
  "epicsUInt32 m = \<lparr>fromDouble = to_uint32 m, toDouble = of_uint32 m, plusAssign = (+),
                     cells = cells32 m, block = Cells32\<rparr>"

definition epicsFloat32 :: "('d, 'f) machine \<Rightarrow> ('d, 'f, 'f) epicsType" where
  "epicsFloat32 m = \<lparr>fromDouble = to_float32 m, toDouble = of_float32 m, plusAssign = fadd m,
                      cells = cellsF32 m, block = CellsF32\<rparr>"

definition epicsFloat64 :: "('d, 'f) machine \<Rightarrow> ('d, 'f, 'd) epicsType" where
  "epicsFloat64 m = \<lparr>fromDouble = (\<lambda>x. x), toDouble = (\<lambda>x. x), plusAssign = dadd m,
                      cells = cellsF64 m, block = CellsF64\<rparr>"

section \<open>Driver state\<close>

text \<open>
  Modelled from the spec: the parameter library (\<^verbatim>\<open>getIntegerParam\<close>,
  \<^verbatim>\<open>setIntegerParam\<close>, \<^verbatim>\<open>getDoubleParam\<close>, \<^verbatim>\<open>setDoubleParam\<close>,
  \<^verbatim>\<open>callParamCallbacks\<close>) belongs to the base driver and is not part of the
  sources. Following the description of the parameter surface, it is a store of named
  integer and floating parameters: a read returns the value last written and succeeds,
  and a notification shows the observers the store as it is at that moment.
\<close>

datatype param =
  ADBinX | ADBinY | ADMinX | ADMinY | ADSizeX | ADSizeY | ADReverseX | ADReverseY
| ADMaxSizeX | ADMaxSizeY | ADDataType | ADImageSize | ADImageSizeX | ADImageSizeY
| ADImageMode | ADNumImages | ADAcquire | ADStatus | ADImageCounter | ADAutoSave
| ADAcquireTime | ADAcquirePeriod | ADGain | SimGainX | SimGainY | SimResetImage
| OtherParam nat

text \<open>
  The values of the enumerations \<^verbatim>\<open>asynStatus\<close>, \<^verbatim>\<open>ADStatus_t\<close> and
  \<^verbatim>\<open>ADImageMode_t\<close>, whose declarations are in headers outside the sources; each
  starts counting at zero.
\<close>

definition asynSuccess :: epicsInt32 where "asynSuccess = 0"
definition asynError :: epicsInt32 where "asynError = 3"

definition ADStatusIdle :: epicsInt32 where "ADStatusIdle = 0"
definition ADStatusAcquire :: epicsInt32 where "ADStatusAcquire = 1"
definition ADStatusReadout :: epicsInt32 where "ADStatusReadout = 2"

definition ADImageSingle :: epicsInt32 where "ADImageSingle = 0"
definition ADImageMultiple :: epicsInt32 where "ADImageMultiple = 1"
definition ADImageContinuous :: epicsInt32 where "ADImageContinuous = 2"

text \<open>One dimension of an output frame, as \<^verbatim>\<open>computeImage\<close> fills it in.\<close>

record NDDimension =
  dimSize :: epicsInt32
  dimOffset :: epicsInt32
  dimBinning :: epicsInt32
  dimReverse :: epicsInt32

record ('d, 'f) NDArray =
  dataType :: epicsInt32
  dims :: "nat \<times> nat"
  dataSize :: nat
  pData :: "('d, 'f) raw_data option"
  uniqueId :: epicsInt32
  timeStamp :: 'd

text \<open>The program counter of the production thread (see \<open>simTask\<close> below).\<close>

datatype location = LoopTop | WaitStart | Exposure | Build | Deliver | Account | Readout | Crashed

datatype fault = NullPointerWrite | BufferOverrun

record ('d, 'f) driver =
  ints :: "param \<Rightarrow> epicsInt32"
  doubles :: "param \<Rightarrow> 'd"
  notified :: "((param \<Rightarrow> epicsInt32) \<times> (param \<Rightarrow> 'd)) list"
  imagesRemaining :: epicsInt32
  startEventId :: bool
  stopEventId :: bool
  pRaw :: "('d, 'f) NDArray"
  pArrays :: "('d, 'f) NDArray option"
  delivered :: "('d, 'f) NDArray list"
  errlog :: "string list"
  mutexTaken :: bool
  pc :: location
  acquiring :: epicsInt32
  acquireTime :: 'd
  acquirePeriod :: 'd
  startTime :: 'd
  elapsedTime :: 'd

definition getIntegerParam :: "('d, 'f) driver \<Rightarrow> param \<Rightarrow> epicsInt32" where
  "getIntegerParam s p = ints s p"

definition setIntegerParam :: "param \<Rightarrow> epicsInt32 \<Rightarrow> ('d, 'f) driver \<Rightarrow> ('d, 'f) driver" where
  "setIntegerParam p v s = s\<lparr>ints := (ints s)(p := v)\<rparr>"

definition getDoubleParam :: "('d, 'f) driver \<Rightarrow> param \<Rightarrow> 'd" where
  "getDoubleParam s p = doubles s p"

definition setDoubleParam :: "param \<Rightarrow> 'd \<Rightarrow> ('d, 'f) driver \<Rightarrow> ('d, 'f) driver" where
  "setDoubleParam p v s = s\<lparr>doubles := (doubles s)(p := v)\<rparr>"

definition callParamCallbacks :: "('d, 'f) driver \<Rightarrow> ('d, 'f) driver" where
  "callParamCallbacks s = s\<lparr>notified := notified s @ [(ints s, doubles s)]\<rparr>"

definition asynPrint :: "string \<Rightarrow> ('d, 'f) driver \<Rightarrow> ('d, 'f) driver" where
  "asynPrint msg s = s\<lparr>errlog := errlog s @ [msg]\<rparr>"

section \<open>The pixel synthesizer: \<^verbatim>\<open>computeArray\<close>\<close>

text \<open>
  The inner loop of the reset branch over the columns still to write, with the running
  sum \<open>scaleX\<close>; it yields the samples written, in the order of \<^verbatim>\<open>*pData++\<close>.
\<close>

primrec resetRow ::
  "('d, 'f) machine \<Rightarrow> ('d, 'f, 'a) epicsType \<Rightarrow> 'd \<Rightarrow> 'a \<Rightarrow> 'd \<Rightarrow> nat \<Rightarrow> 'd \<Rightarrow> 'a list" where
  "resetRow m T gainX inc scaleY 0 scaleX = []"
| "resetRow m T gainX inc scaleY (Suc n) scaleX =
     fromDouble T (dadd m (dadd m scaleX scaleY) (toDouble T inc))
       # resetRow m T gainX inc scaleY n (dadd m scaleX gainX)"

text \<open>The outer loop over the rows still to write, with the running sum \<open>scaleY\<close>.\<close>

primrec resetRows ::
  "('d, 'f) machine \<Rightarrow> ('d, 'f, 'a) epicsType \<Rightarrow> 'd \<Rightarrow> 'd \<Rightarrow> 'a \<Rightarrow> nat \<Rightarrow> nat \<Rightarrow> 'd \<Rightarrow> 'a list" where
  "resetRows m T gainX gainY inc nx 0 scaleY = []"
| "resetRows m T gainX gainY inc nx (Suc n) scaleY =
     resetRow m T gainX inc scaleY nx (dzero m)
       @ resetRows m T gainX gainY inc nx n (dadd m scaleY gainY)"

text \<open>The iteration count of \<^verbatim>\<open>for (i=0; i<n; i++)\<close> for an \<^verbatim>\<open>int\<close> bound.\<close>

definition loopCount :: "epicsInt32 \<Rightarrow> nat" where
  "loopCount n = nat (sint n)"

text \<open>The increment \<^verbatim>\<open>inc = (epicsType) (gain * exposureTime * 1000.)\<close>.\<close>

definition increment :: "('d, 'f) machine \<Rightarrow> ('d, 'f, 'a) epicsType \<Rightarrow> ('d, 'f) driver \<Rightarrow> 'a" where
  "increment m T s =
     fromDouble T (dmul m (dmul m (getDoubleParam s ADGain) (getDoubleParam s ADAcquireTime)) (d1000 m))"

text \<open>
  \<^verbatim>\<open>computeArray<epicsType>(maxSizeX, maxSizeY)\<close>. The block that
  \<^verbatim>\<open>this->pRaw->pData\<close> points to is seen as a sequence of \<open>epicsType\<close> cells.
  Writing through a null pointer or past the end of the block is a fault; with no cell
  to write the pointer is never dereferenced. The function returns the status of its
  last parameter read, which is success.
\<close>

definition computeArray ::
  "('d, 'f) machine \<Rightarrow> ('d, 'f, 'a) epicsType \<Rightarrow> epicsInt32 \<Rightarrow> epicsInt32 \<Rightarrow> ('d, 'f) driver
     \<Rightarrow> fault + ('d, 'f) driver" where
  "computeArray m T maxSizeX maxSizeY s =
     (let gainX = getDoubleParam s SimGainX;
          gainY = getDoubleParam s SimGainY;
          resetImage = getIntegerParam s SimResetImage;
          inc = increment m T s;
          n = loopCount maxSizeY * loopCount maxSizeX
      in if n = 0 then Inr s
         else case pData (pRaw s) of
           None \<Rightarrow> Inl NullPointerWrite
         | Some d \<Rightarrow>
             if length (cells T d) < n then Inl BufferOverrun
             else if resetImage \<noteq> 0 then
               Inr (s\<lparr>pRaw := (pRaw s)\<lparr>pData := Some (block T
                     (resetRows m T gainX gainY inc (loopCount maxSizeX) (loopCount maxSizeY) (dzero m)
                        @ drop n (cells T d)))\<rparr>\<rparr>)
             else
               Inr (s\<lparr>pRaw := (pRaw s)\<lparr>pData := Some (block T
                     (map (\<lambda>x. plusAssign T x inc) (take n (cells T d)) @ drop n (cells T d)))\<rparr>\<rparr>))"

section \<open>Surroundings\<close>

text \<open>
  Modelled from the spec: the pool's \<^verbatim>\<open>convert\<close> and \<^verbatim>\<open>release\<close> are not part
  of the sources. The conversion extracts the output frame from the raw buffer (binning,
  offset and reversal per axis, in the same numeric representation) or fails; here its
  result is an input, a function of the raw array, the representation and the two output
  dimensions. Reference counts are not modelled.

  The record holds what one step of the driver takes from its surroundings: whether
  \<^verbatim>\<open>malloc\<close> returns a block, the content of an \<^verbatim>\<open>NDArrayInfo_t\<close> left unwritten,
  the result of the pool's conversion, the scheduler's sleep quantum, the clock at the
  start of the iteration (as the time stamp computed from it) and the time elapsed
  since then.
\<close>

record ('d, 'f) surroundings =
  mallocSucceeds :: bool
  unwrittenTotalBytes :: nat
  convert :: "('d, 'f) NDArray \<Rightarrow> epicsInt32 \<Rightarrow> NDDimension \<times> NDDimension \<Rightarrow> ('d, 'f) NDArray option"
  epicsThreadSleepQuantum :: 'd
  epicsTimeGetCurrent :: 'd
  epicsTimeDiffInSeconds :: 'd

section \<open>The buffer manager: \<^verbatim>\<open>allocateBuffer\<close>\<close>

text \<open>
  Modelled from the spec: \<^verbatim>\<open>NDArray::getInfo\<close> is not part of the sources. The
  byte count of an array is the number of its samples times the sample size of its
  numeric representation; for a representation outside the eight kinds no size is
  given, and the byte count is whatever the caller's structure held.
\<close>

definition getInfo_totalBytes :: "('d, 'f) surroundings \<Rightarrow> ('d, 'f) NDArray \<Rightarrow> nat" where
  "getInfo_totalBytes env a =
     (case NDDataType_of (dataType a) of
        Some t \<Rightarrow> fst (dims a) * snd (dims a) * bytesPerElement t
      | None \<Rightarrow> unwrittenTotalBytes env)"

definition allocateBuffer ::
  "('d, 'f) surroundings \<Rightarrow> ('d, 'f) driver \<Rightarrow> epicsInt32 \<times> ('d, 'f) driver" where
  "allocateBuffer env s =
     (let totalBytes = getInfo_totalBytes env (pRaw s)
      in if dataSize (pRaw s) < totalBytes then
           (if mallocSucceeds env
            then (asynSuccess,
                  s\<lparr>pRaw := (pRaw s)\<lparr>pData := Some (Uninit totalBytes), dataSize := totalBytes\<rparr>\<rparr>)
            else (asynError,
                  s\<lparr>pRaw := (pRaw s)\<lparr>pData := None, dataSize := totalBytes\<rparr>\<rparr>))
         else (asynSuccess, s))"

section \<open>The frame builder: \<^verbatim>\<open>computeImage\<close>\<close>

text \<open>
  The block "Make sure parameters are consistent, fix them if they are not". Each local
  variable is read from the store once and every correction is written to both, so the
  local and the stored value agree throughout and the model reads the store.
\<close>

definition fixParameters :: "('d, 'f) driver \<Rightarrow> ('d, 'f) driver" where
  "fixParameters s0 =
     (let s1 = (if getIntegerParam s0 ADBinX <s 1 then setIntegerParam ADBinX 1 s0 else s0);
          s2 = (if getIntegerParam s1 ADBinY <s 1 then setIntegerParam ADBinY 1 s1 else s1);
          s3 = (if getIntegerParam s2 ADMinX <s 0 then setIntegerParam ADMinX 0 s2 else s2);
          s4 = (if getIntegerParam s3 ADMinY <s 0 then setIntegerParam ADMinY 0 s3 else s3);
          s5 = (if getIntegerParam s4 ADMaxSizeX - 1 <s getIntegerParam s4 ADMinX
                then setIntegerParam ADMinX (getIntegerParam s4 ADMaxSizeX - 1) s4 else s4);
          s6 = (if getIntegerParam s5 ADMaxSizeY - 1 <s getIntegerParam s5 ADMinY
                then setIntegerParam ADMinY (getIntegerParam s5 ADMaxSizeY - 1) s5 else s5);
          s7 = (if getIntegerParam s6 ADMaxSizeX <s getIntegerParam s6 ADMinX + getIntegerParam s6 ADSizeX
                then setIntegerParam ADSizeX (getIntegerParam s6 ADMaxSizeX - getIntegerParam s6 ADMinX) s6
                else s6);
          s8 = (if getIntegerParam s7 ADMaxSizeY <s getIntegerParam s7 ADMinY + getIntegerParam s7 ADSizeY
                then setIntegerParam ADSizeY (getIntegerParam s7 ADMaxSizeY - getIntegerParam s7 ADMinY) s7
                else s7)
      in s8)"

text \<open>The \<^verbatim>\<open>switch (dataType)\<close>, which has no default case.\<close>

definition synthesize ::
  "('d, 'f) machine \<Rightarrow> epicsInt32 \<Rightarrow> epicsInt32 \<Rightarrow> epicsInt32 \<Rightarrow> ('d, 'f) driver
     \<Rightarrow> fault + ('d, 'f) driver" where
  "synthesize m dtype maxSizeX maxSizeY s =
     (case NDDataType_of dtype of
        Some NDInt8 \<Rightarrow> computeArray m (epicsInt8 m) maxSizeX maxSizeY s
      | Some NDUInt8 \<Rightarrow> computeArray m (epicsUInt8 m) maxSizeX maxSizeY s
      | Some NDInt16 \<Rightarrow> computeArray m (epicsInt16 m) maxSizeX maxSizeY s
      | Some NDUInt16 \<Rightarrow> computeArray m (epicsUInt16 m) maxSizeX maxSizeY s
      | Some NDInt32 \<Rightarrow> computeArray m (epicsInt32 m) maxSizeX maxSizeY s
      | Some NDUInt32 \<Rightarrow> computeArray m (epicsUInt32 m) maxSizeX maxSizeY s
      | Some NDFloat32 \<Rightarrow> computeArray m (epicsFloat32 m) maxSizeX maxSizeY s
      | Some NDFloat64 \<Rightarrow> computeArray m (epicsFloat64 m) maxSizeX maxSizeY s
      | None \<Rightarrow> Inr s)"

text \<open>The two output dimensions \<^verbatim>\<open>dimsOut\<close> built from the corrected geometry.\<close>

definition dimsOut :: "('d, 'f) driver \<Rightarrow> NDDimension \<times> NDDimension" where
  "dimsOut s =
     (\<lparr>dimSize = getIntegerParam s ADSizeX, dimOffset = getIntegerParam s ADMinX,
       dimBinning = getIntegerParam s ADBinX, dimReverse = getIntegerParam s ADReverseX\<rparr>,
      \<lparr>dimSize = getIntegerParam s ADSizeY, dimOffset = getIntegerParam s ADMinY,
       dimBinning = getIntegerParam s ADBinY, dimReverse = getIntegerParam s ADReverseY\<rparr>)"

text \<open>
  \<^verbatim>\<open>computeImage\<close>: correct the geometry, set the raw buffer's representation, make
  sure the buffer is large enough (returning the error after a log entry if it is not),
  synthesize, convert, publish, and update the size parameters and the reset flag. The
  reads and writes of parameters succeed, so the two log entries for a failed parameter
  access never occur. A failed conversion is reported with a nonzero status and leaves
  no current output frame.
\<close>

definition computeImage ::
  "('d, 'f) machine \<Rightarrow> ('d, 'f) surroundings \<Rightarrow> ('d, 'f) driver
     \<Rightarrow> fault + epicsInt32 \<times> ('d, 'f) driver" where
  "computeImage m env s0 =
     (let s1 = fixParameters s0;
          dataType = getIntegerParam s1 ADDataType;
          maxSizeX = getIntegerParam s1 ADMaxSizeX;
          maxSizeY = getIntegerParam s1 ADMaxSizeY;
          s2 = s1\<lparr>pRaw := (pRaw s1)\<lparr>dataType := dataType\<rparr>\<rparr>;
          (status, s3) = allocateBuffer env s2
      in if status \<noteq> 0 then Inr (status, asynPrint ''error allocating raw buffer'' s3)
         else case synthesize m dataType maxSizeX maxSizeY s3 of
           Inl f \<Rightarrow> Inl f
         | Inr s4 \<Rightarrow>
             (case convert env (pRaw s4) dataType (dimsOut s4) of
                None \<Rightarrow>
                  Inr (asynError,
                       asynPrint ''error allocating buffer in convert()'' (s4\<lparr>pArrays := None\<rparr>))
              | Some pImage \<Rightarrow>
                  Inr (asynSuccess,
                       setIntegerParam SimResetImage 0
                         (setIntegerParam ADImageSizeY (of_nat (snd (dims pImage)))
                            (setIntegerParam ADImageSizeX (of_nat (fst (dims pImage)))
                               (setIntegerParam ADImageSize (of_nat (getInfo_totalBytes env pImage))
                                  (s4\<lparr>pArrays := Some pImage\<rparr>)))))))"

section \<open>The acquisition controller: \<^verbatim>\<open>simTask\<close>\<close>

text \<open>
  The production thread is a loop that never ends; it is modelled as a step function.
  All shared data is read and written with the mutex held, so a step is the code the
  thread runs from one point where the mutex is free (or the thread waits) to the next.
  The locations are: \<open>LoopTop\<close>, before the mutex is taken at the top of the loop;
  \<open>WaitStart\<close>, in \<^verbatim>\<open>epicsEventWait(startEventId)\<close>; \<open>Exposure\<close>, at the test
  of the exposure time against the sleep quantum (the mutex is free there exactly when
  the thread will wait for the stop event); \<open>Build\<close>, before \<^verbatim>\<open>computeImage\<close>;
  \<open>Deliver\<close>, at the call of the downstream callbacks with the mutex released;
  \<open>Account\<close>, the completion accounting; \<open>Readout\<close>, the period delay; and
  \<open>Crashed\<close> after a memory fault. An event is a flag: signalling sets it, a wait
  that finds it set clears it, and a timed wait that does not find it set times out.
\<close>

text \<open>From "We are acquiring" to the test of the exposure time.\<close>

definition beginExposure ::
  "('d, 'f) machine \<Rightarrow> ('d, 'f) surroundings \<Rightarrow> ('d, 'f) driver \<Rightarrow> ('d, 'f) driver" where
  "beginExposure m env s =
     (let s1 = s\<lparr>startTime := epicsTimeGetCurrent env,
                 acquireTime := getDoubleParam s ADAcquireTime,
                 acquirePeriod := getDoubleParam s ADAcquirePeriod,
                 acquiring := ADStatusAcquire\<rparr>;
          s2 = callParamCallbacks (setIntegerParam ADStatus ADStatusAcquire s1)
      in s2\<lparr>mutexTaken := \<not> dge m (acquireTime s2) (epicsThreadSleepQuantum env), pc := Exposure\<rparr>)"

text \<open>From a successful \<^verbatim>\<open>computeImage\<close> to the release of the mutex before the callbacks.\<close>

definition stampImage :: "('d, 'f) surroundings \<Rightarrow> ('d, 'f) driver \<Rightarrow> ('d, 'f) driver" where
  "stampImage env s =
     (case pArrays s of
        None \<Rightarrow> s\<lparr>pc := Crashed\<rparr>
      | Some pImage \<Rightarrow>
          (let imageCounter = getIntegerParam s ADImageCounter + 1;
               s1 = setIntegerParam ADImageCounter imageCounter
                      (s\<lparr>elapsedTime := epicsTimeDiffInSeconds env\<rparr>)
           in s1\<lparr>pArrays := Some (pImage\<lparr>uniqueId := imageCounter, timeStamp := startTime s1\<rparr>),
                 mutexTaken := False, pc := Deliver\<rparr>))"

text \<open>"See if acquisition is done", up to the release of the mutex.\<close>

definition accountImage :: "('d, 'f) driver \<Rightarrow> ('d, 'f) driver" where
  "accountImage s =
     (let s1 = (if 0 <s imagesRemaining s then s\<lparr>imagesRemaining := imagesRemaining s - 1\<rparr> else s);
          s2 = (if imagesRemaining s1 = 0
                then setIntegerParam ADAcquire ADStatusIdle (s1\<lparr>acquiring := ADStatusIdle\<rparr>)
                else s1);
          s3 = callParamCallbacks s2
      in if acquiring s3 \<noteq> 0
         then (callParamCallbacks (setIntegerParam ADStatus ADStatusReadout s3))
                \<lparr>mutexTaken := False, pc := Readout\<rparr>
         else s3\<lparr>mutexTaken := False, pc := LoopTop\<rparr>)"

definition simTask_step ::
  "('d, 'f) machine \<Rightarrow> ('d, 'f) surroundings \<Rightarrow> ('d, 'f) driver \<Rightarrow> ('d, 'f) driver" where
  "simTask_step m env s =
     (case pc s of
        LoopTop \<Rightarrow>
          if getIntegerParam s ADAcquire = 0
          then (callParamCallbacks (setIntegerParam ADStatus ADStatusIdle s))
                 \<lparr>mutexTaken := False, pc := WaitStart\<rparr>
          else beginExposure m env (s\<lparr>mutexTaken := True\<rparr>)
      | WaitStart \<Rightarrow>
          if startEventId s
          then beginExposure m env (s\<lparr>startEventId := False, mutexTaken := True\<rparr>)
          else s
      | Exposure \<Rightarrow>
          (if mutexTaken s then s else s\<lparr>stopEventId := False\<rparr>)\<lparr>mutexTaken := True, pc := Build\<rparr>
      | Build \<Rightarrow>
          (case computeImage m env s of
             Inl f \<Rightarrow> s\<lparr>pc := Crashed\<rparr>
           | Inr (status, s') \<Rightarrow>
               if status \<noteq> 0 then s'\<lparr>mutexTaken := False, pc := LoopTop\<rparr>
               else stampImage env s')
      | Deliver \<Rightarrow>
          (case pArrays s of
             None \<Rightarrow> s\<lparr>pc := Crashed\<rparr>
           | Some pImage \<Rightarrow> s\<lparr>delivered := delivered s @ [pImage], mutexTaken := True, pc := Account\<rparr>)
      | Account \<Rightarrow> accountImage s
      | Readout \<Rightarrow>
          (if dge m (dsub m (acquirePeriod s) (elapsedTime s)) (epicsThreadSleepQuantum env)
           then s\<lparr>stopEventId := False\<rparr> else s)\<lparr>pc := LoopTop\<rparr>
      | Crashed \<Rightarrow> s)"

text \<open>The thread running on its own for as many steps as surroundings are given.\<close>

definition simTask :: "('d, 'f) machine \<Rightarrow> ('d, 'f) surroundings list \<Rightarrow> ('d, 'f) driver \<Rightarrow> ('d, 'f) driver" where
  "simTask m envs s = foldl (\<lambda>s' env. simTask_step m env s') s envs"

section \<open>The control interface: \<^verbatim>\<open>writeInt32\<close> and \<^verbatim>\<open>writeFloat64\<close>\<close>

text \<open>The \<^verbatim>\<open>switch\<close> on the image mode that sets the number of images remaining.\<close>

definition setImagesRemaining :: "epicsInt32 \<Rightarrow> ('d, 'f) driver \<Rightarrow> ('d, 'f) driver" where
  "setImagesRemaining imageMode s =
     (if imageMode = ADImageSingle then s\<lparr>imagesRemaining := 1\<rparr>
      else if imageMode = ADImageMultiple then s\<lparr>imagesRemaining := getIntegerParam s ADNumImages\<rparr>
      else if imageMode = ADImageContinuous then s\<lparr>imagesRemaining := - 1\<rparr>
      else s)"

definition writeInt32 :: "param \<Rightarrow> epicsInt32 \<Rightarrow> ('d, 'f) driver \<Rightarrow> epicsInt32 \<times> ('d, 'f) driver" where
  "writeInt32 function value s =
     (let s1 = setIntegerParam function value s;
          s2 = (case function of
                  ADAcquire \<Rightarrow>
                    (let adstatus = getIntegerParam s1 ADStatus;
                         sa = (if value \<noteq> 0 \<and> adstatus = ADStatusIdle
                               then (setImagesRemaining (getIntegerParam s1 ADImageMode) s1)
                                      \<lparr>startEventId := True\<rparr>
                               else s1)
                     in if value = 0 \<and> adstatus \<noteq> ADStatusIdle then sa\<lparr>stopEventId := True\<rparr> else sa)
                | ADBinX \<Rightarrow> setIntegerParam SimResetImage 1 s1
                | ADBinY \<Rightarrow> setIntegerParam SimResetImage 1 s1
                | ADMinX \<Rightarrow> setIntegerParam SimResetImage 1 s1
                | ADMinY \<Rightarrow> setIntegerParam SimResetImage 1 s1
                | ADSizeX \<Rightarrow> setIntegerParam SimResetImage 1 s1
                | ADSizeY \<Rightarrow> setIntegerParam SimResetImage 1 s1
                | ADDataType \<Rightarrow> setIntegerParam SimResetImage 1 s1
                | ADImageMode \<Rightarrow> setImagesRemaining value s1
                | _ \<Rightarrow> s1)
      in (asynSuccess, callParamCallbacks s2))"

definition writeFloat64 :: "param \<Rightarrow> 'd \<Rightarrow> ('d, 'f) driver \<Rightarrow> epicsInt32 \<times> ('d, 'f) driver" where
  "writeFloat64 function value s =
     (let s1 = setDoubleParam function value s;
          s2 = (case function of
                  ADAcquireTime \<Rightarrow> setIntegerParam SimResetImage 1 s1
                | ADGain \<Rightarrow> setIntegerParam SimResetImage 1 s1
                | SimGainX \<Rightarrow> setIntegerParam SimResetImage 1 s1
                | SimGainY \<Rightarrow> setIntegerParam SimResetImage 1 s1
                | _ \<Rightarrow> s1)
      in (asynSuccess, callParamCallbacks s2))"

section \<open>Construction\<close>

text \<open>
  Modelled from the spec: the base class constructor and the pool's \<^verbatim>\<open>alloc\<close> are
  not part of the sources. \<open>blank\<close> is the driver as the base class leaves it, every
  parameter zero and no array; the raw buffer is a fresh block sized to hold
  \<open>maxSizeX \<times> maxSizeY\<close> samples of the numeric representation.
\<close>

definition blank :: "'d \<Rightarrow> ('d, 'f) driver" where
  "blank z =
     \<lparr>ints = (\<lambda>p. 0), doubles = (\<lambda>p. z), notified = [], imagesRemaining = 0,
      startEventId = False, stopEventId = False,
      pRaw = \<lparr>dataType = 0, dims = (0, 0), dataSize = 0, pData = None, uniqueId = 0, timeStamp = z\<rparr>,
      pArrays = None, delivered = [], errlog = [], mutexTaken = False, pc = LoopTop,
      acquiring = 0, acquireTime = z, acquirePeriod = z, startTime = z, elapsedTime = z\<rparr>"

definition poolAlloc :: "epicsInt32 \<Rightarrow> epicsInt32 \<Rightarrow> epicsInt32 \<Rightarrow> 'd \<Rightarrow> ('d, 'f) NDArray" where
  "poolAlloc sizeX sizeY dtype z =
     (let a = \<lparr>dataType = dtype, dims = (loopCount sizeX, loopCount sizeY), dataSize = 0,
               pData = None, uniqueId = 0, timeStamp = z\<rparr>;
          n = getInfo_totalBytes
                \<lparr>mallocSucceeds = True, unwrittenTotalBytes = 0, convert = (\<lambda>a t d. None),
                 epicsThreadSleepQuantum = z, epicsTimeGetCurrent = z, epicsTimeDiffInSeconds = z\<rparr> a
      in a\<lparr>dataSize := n, pData := Some (Uninit n)\<rparr>)"

text \<open>
  The constructor \<^verbatim>\<open>simDetector::simDetector\<close>, with the values of the literals
  \<^verbatim>\<open>.001\<close>, \<^verbatim>\<open>.005\<close> and \<^verbatim>\<open>1\<close> as doubles given; the production thread
  starts at the top of its loop. The two string parameters, which the driver never
  reads, are left out.
\<close>

definition simDetector ::
  "'d \<Rightarrow> 'd \<Rightarrow> 'd \<Rightarrow> 'd \<Rightarrow> epicsInt32 \<Rightarrow> epicsInt32 \<Rightarrow> epicsInt32 \<Rightarrow> ('d, 'f) driver" where
  "simDetector z milli fiveMilli one maxSizeX maxSizeY dtype =
     (setDoubleParam SimGainY one
     (setDoubleParam SimGainX one
     (setIntegerParam SimResetImage 1
     (setIntegerParam ADNumImages 100
     (setDoubleParam ADAcquirePeriod fiveMilli
     (setDoubleParam ADAcquireTime milli
     (setIntegerParam ADImageMode ADImageContinuous
     (setIntegerParam ADDataType dtype
     (setIntegerParam ADImageSize 0
     (setIntegerParam ADImageSizeY maxSizeY
     (setIntegerParam ADImageSizeX maxSizeX
     (setIntegerParam ADSizeY maxSizeY
     (setIntegerParam ADSizeX maxSizeX
     (setIntegerParam ADSizeX maxSizeX
     (setIntegerParam ADMaxSizeY maxSizeY
     (setIntegerParam ADMaxSizeX maxSizeX
       ((blank z)\<lparr>imagesRemaining := 0,
                  pRaw := poolAlloc maxSizeX maxSizeY dtype z\<rparr>)))))))))))))))))"

section \<open>A concrete machine\<close>

text \<open>
  To run the model on concrete inputs: binary floating point \<open>mantissa \<times> 2^exponent\<close>
  with round-to-nearest, ties to even, at 53 bits (double) and 24 bits (single) of
  precision. Only finite values are represented and the exponent is unbounded, so
  overflow to infinity, subnormal numbers and NaN do not arise. A nonzero value is kept
  with its mantissa at full precision, zero as \<open>BinFloat 0 0\<close>, so that equal values are
  equal terms.
\<close>

datatype binfloat = BinFloat int int

function bitLength :: "int \<Rightarrow> nat" where
  "bitLength a = (if a \<le> 0 then 0 else Suc (bitLength (a div 2)))"
  by pat_completeness auto
termination
  by (relation "measure nat") auto

definition roundTo :: "nat \<Rightarrow> int \<Rightarrow> int \<Rightarrow> binfloat" where
  "roundTo p mant ex =
     (if mant = 0 then BinFloat 0 0
      else let a = \<bar>mant\<bar>; k = bitLength a
           in if k \<le> p then BinFloat (mant * 2 ^ (p - k)) (ex - int (p - k))
              else let sh = k - p; q = a div 2 ^ sh; r = a mod 2 ^ sh; half = 2 ^ (sh - 1);
                       q' = (if half < r \<or> (r = half \<and> odd q) then q + 1 else q)
                   in if q' = 2 ^ p then BinFloat (sgn mant * 2 ^ (p - 1)) (ex + int sh + 1)
                      else BinFloat (sgn mant * q') (ex + int sh))"

fun binAdd :: "nat \<Rightarrow> binfloat \<Rightarrow> binfloat \<Rightarrow> binfloat" where
  "binAdd p (BinFloat m1 e1) (BinFloat m2 e2) =
     (let e = min e1 e2 in roundTo p (m1 * 2 ^ nat (e1 - e) + m2 * 2 ^ nat (e2 - e)) e)"

fun binMul :: "nat \<Rightarrow> binfloat \<Rightarrow> binfloat \<Rightarrow> binfloat" where
  "binMul p (BinFloat m1 e1) (BinFloat m2 e2) = roundTo p (m1 * m2) (e1 + e2)"

fun binNeg :: "binfloat \<Rightarrow> binfloat" where
  "binNeg (BinFloat m e) = BinFloat (- m) e"

fun binGe :: "binfloat \<Rightarrow> binfloat \<Rightarrow> bool" where
  "binGe (BinFloat m1 e1) (BinFloat m2 e2) =
     (let e = min e1 e2 in m2 * 2 ^ nat (e2 - e) \<le> m1 * 2 ^ nat (e1 - e))"

text \<open>Conversion to an integer discards the fraction (rounds toward zero).\<close>

fun binTrunc :: "binfloat \<Rightarrow> int" where
  "binTrunc (BinFloat m e) = (if 0 \<le> e then m * 2 ^ nat e else sgn m * (\<bar>m\<bar> div 2 ^ nat (- e)))"

fun binRound :: "nat \<Rightarrow> binfloat \<Rightarrow> binfloat" where
  "binRound p (BinFloat m e) = roundTo p m e"

text \<open>
  The conversions from double to the integer types are those of an x86-64 processor,
  for which the casts are compiled to the instruction \<^verbatim>\<open>cvttsd2si\<close>: the value is
  truncated toward zero to a 32-bit integer (to a 64-bit integer for the unsigned
  32-bit kind); where the truncated value does not fit, the result is the most negative
  integer of that width. A narrower element type takes the low-order bits.
\<close>

definition cvttsd2si32 :: "binfloat \<Rightarrow> 32 word" where
  "cvttsd2si32 x =
     (let n = binTrunc x
      in if - 2147483648 \<le> n \<and> n < 2147483648 then word_of_int n else 0x80000000)"

definition cvttsd2si64 :: "binfloat \<Rightarrow> 64 word" where
  "cvttsd2si64 x =
     (let n = binTrunc x
      in if - 9223372036854775808 \<le> n \<and> n < 9223372036854775808 then word_of_int n
         else 0x8000000000000000)"

text \<open>
  What a pointer cast shows in this machine: a fresh block of \<open>n\<close> bytes reads as zero
  cells, and a block last written at another element type is not interpreted (it has
  no cells, so every access through the cast is out of range).
\<close>

definition freshCells :: "nat \<Rightarrow> 'a \<Rightarrow> (binfloat, binfloat) raw_data \<Rightarrow> 'a list" where
  "freshCells width z d = (case d of Uninit n \<Rightarrow> replicate (n div width) z | _ \<Rightarrow> [])"

definition ieee :: "(binfloat, binfloat) machine" where
  "ieee =
     \<lparr>dadd = binAdd 53, dsub = (\<lambda>x y. binAdd 53 x (binNeg y)), dmul = binMul 53, dge = binGe,
      dzero = BinFloat 0 0, d1000 = roundTo 53 1000 0, fadd = binAdd 24,
      to_int8 = (\<lambda>x. ucast (cvttsd2si32 x)), to_uint8 = (\<lambda>x. ucast (cvttsd2si32 x)),
      to_int16 = (\<lambda>x. ucast (cvttsd2si32 x)), to_uint16 = (\<lambda>x. ucast (cvttsd2si32 x)),
      to_int32 = cvttsd2si32, to_uint32 = (\<lambda>x. ucast (cvttsd2si64 x)),
      to_float32 = binRound 24,
      of_int8 = (\<lambda>w. roundTo 53 (sint w) 0), of_uint8 = (\<lambda>w. roundTo 53 (uint w) 0),
      of_int16 = (\<lambda>w. roundTo 53 (sint w) 0), of_uint16 = (\<lambda>w. roundTo 53 (uint w) 0),
      of_int32 = (\<lambda>w. roundTo 53 (sint w) 0), of_uint32 = (\<lambda>w. roundTo 53 (uint w) 0),
      of_float32 = binRound 53,
      view8 = freshCells 1 0, view16 = freshCells 2 0, view32 = freshCells 4 0,
      viewF32 = freshCells 4 (BinFloat 0 0), viewF64 = freshCells 8 (BinFloat 0 0)\<rparr>"

text \<open>The doubles nearest to 0.1, 0.001 and 0.005, and the double 1.\<close>

definition tenth :: binfloat where "tenth = BinFloat 7205759403792794 (- 56)"
definition milli :: binfloat where "milli = BinFloat 4611686018427388 (- 62)"
definition fiveMilli :: binfloat where "fiveMilli = BinFloat 5764607523034235 (- 60)"
definition one :: binfloat where "one = BinFloat 4503599627370496 (- 52)"

text \<open>
  Surroundings in which every allocation succeeds and the conversion returns a copy of
  the raw array, as it does for the full frame without binning; the sleep quantum is
  0.001 s, the clock reads 0 and 0.001 s have elapsed.
\<close>

definition calm :: "(binfloat, binfloat) surroundings" where
  "calm = \<lparr>mallocSucceeds = True, unwrittenTotalBytes = 0, convert = (\<lambda>a t d. Some a),
           epicsThreadSleepQuantum = milli, epicsTimeGetCurrent = BinFloat 0 0,
           epicsTimeDiffInSeconds = milli\<rparr>"

text \<open>The same surroundings with no memory left for \<^verbatim>\<open>malloc\<close>.\<close>

definition exhausted :: "(binfloat, binfloat) surroundings" where
  "exhausted = calm\<lparr>mallocSucceeds := False\<rparr>"

text \<open>A detector as \<^verbatim>\<open>simDetectorConfig\<close> constructs it.\<close>

definition detector :: "epicsInt32 \<Rightarrow> epicsInt32 \<Rightarrow> epicsInt32 \<Rightarrow> (binfloat, binfloat) driver" where
  "detector maxSizeX maxSizeY dtype = simDetector (BinFloat 0 0) milli fiveMilli one maxSizeX maxSizeY dtype"

section \<open>Notions used in the statements\<close>

text \<open>A raw-buffer sample together with the numeric representation it is read at.\<close>

datatype ('d, 'f) sample =
  Int8 "8 word" | UInt8 "8 word" | Int16 "16 word" | UInt16 "16 word"
| Int32 "32 word" | UInt32 "32 word" | Float32 'f | Float64 'd

text \<open>The cells of the raw buffer at an element type; none behind a null pointer.\<close>

definition rawCells :: "('d, 'f, 'a) epicsType \<Rightarrow> ('d, 'f) driver \<Rightarrow> 'a list" where
  "rawCells T s = (case pData (pRaw s) of None \<Rightarrow> [] | Some d \<Rightarrow> cells T d)"

definition cellAt :: "'a list \<Rightarrow> nat \<Rightarrow> 'a option" where
  "cellAt xs k = (if k < length xs then Some (xs ! k) else None)"

text \<open>The raw-buffer sample at index \<open>k\<close>, read at representation \<open>t\<close>.\<close>

fun rawSample :: "('d, 'f) machine \<Rightarrow> NDDataType \<Rightarrow> ('d, 'f) driver \<Rightarrow> nat \<Rightarrow> ('d, 'f) sample option" where
  "rawSample m NDInt8 s k = map_option Int8 (cellAt (rawCells (epicsInt8 m) s) k)"
| "rawSample m NDUInt8 s k = map_option UInt8 (cellAt (rawCells (epicsUInt8 m) s) k)"
| "rawSample m NDInt16 s k = map_option Int16 (cellAt (rawCells (epicsInt16 m) s) k)"
| "rawSample m NDUInt16 s k = map_option UInt16 (cellAt (rawCells (epicsUInt16 m) s) k)"
| "rawSample m NDInt32 s k = map_option Int32 (cellAt (rawCells (epicsInt32 m) s) k)"
| "rawSample m NDUInt32 s k = map_option UInt32 (cellAt (rawCells (epicsUInt32 m) s) k)"
| "rawSample m NDFloat32 s k = map_option Float32 (cellAt (rawCells (epicsFloat32 m) s) k)"
| "rawSample m NDFloat64 s k = map_option Float64 (cellAt (rawCells (epicsFloat64 m) s) k)"

text \<open>The double reached by adding \<open>g\<close> to \<^verbatim>\<open>0.\<close> \<open>k\<close> times in succession.\<close>

definition runningSum :: "('d, 'f) machine \<Rightarrow> 'd \<Rightarrow> nat \<Rightarrow> 'd" where
  "runningSum m g k = ((\<lambda>x. dadd m x g) ^^ k) (dzero m)"

text \<open>
  The value \<^verbatim>\<open>(epicsType)(scaleX + scaleY + inc)\<close> for the running sums of column
  \<open>j\<close> and row \<open>i\<close>, at one element type and as a sample of representation \<open>t\<close>.
\<close>

definition summedPixel :: "('d, 'f) machine \<Rightarrow> ('d, 'f, 'a) epicsType \<Rightarrow> ('d, 'f) driver \<Rightarrow> nat \<Rightarrow> nat \<Rightarrow> 'a" where
  "summedPixel m T s i j =
     fromDouble T (dadd m (dadd m (runningSum m (getDoubleParam s SimGainX) j)
                                  (runningSum m (getDoubleParam s SimGainY) i))
                          (toDouble T (increment m T s)))"

fun summedSample :: "('d, 'f) machine \<Rightarrow> NDDataType \<Rightarrow> ('d, 'f) driver \<Rightarrow> nat \<Rightarrow> nat \<Rightarrow> ('d, 'f) sample" where
  "summedSample m NDInt8 s i j = Int8 (summedPixel m (epicsInt8 m) s i j)"
| "summedSample m NDUInt8 s i j = UInt8 (summedPixel m (epicsUInt8 m) s i j)"
| "summedSample m NDInt16 s i j = Int16 (summedPixel m (epicsInt16 m) s i j)"
| "summedSample m NDUInt16 s i j = UInt16 (summedPixel m (epicsUInt16 m) s i j)"
| "summedSample m NDInt32 s i j = Int32 (summedPixel m (epicsInt32 m) s i j)"
| "summedSample m NDUInt32 s i j = UInt32 (summedPixel m (epicsUInt32 m) s i j)"
| "summedSample m NDFloat32 s i j = Float32 (summedPixel m (epicsFloat32 m) s i j)"
| "summedSample m NDFloat64 s i j = Float64 (summedPixel m (epicsFloat64 m) s i j)"

text \<open>
  The product form of the specification, \<open>numeric_cast(j \<times> gainX + i \<times> gainY + inc)\<close>,
  with the indices converted to double and the products and sums taken in double
  arithmetic.
\<close>

definition productPixel :: "('d, 'f) machine \<Rightarrow> ('d, 'f, 'a) epicsType \<Rightarrow> ('d, 'f) driver \<Rightarrow> nat \<Rightarrow> nat \<Rightarrow> 'a" where
  "productPixel m T s i j =
     fromDouble T (dadd m (dadd m (dmul m (of_int32 m (of_nat j)) (getDoubleParam s SimGainX))
                                  (dmul m (of_int32 m (of_nat i)) (getDoubleParam s SimGainY)))
                          (toDouble T (increment m T s)))"

fun productSample :: "('d, 'f) machine \<Rightarrow> NDDataType \<Rightarrow> ('d, 'f) driver \<Rightarrow> nat \<Rightarrow> nat \<Rightarrow> ('d, 'f) sample" where
  "productSample m NDInt8 s i j = Int8 (productPixel m (epicsInt8 m) s i j)"
| "productSample m NDUInt8 s i j = UInt8 (productPixel m (epicsUInt8 m) s i j)"
| "productSample m NDInt16 s i j = Int16 (productPixel m (epicsInt16 m) s i j)"
| "productSample m NDUInt16 s i j = UInt16 (productPixel m (epicsUInt16 m) s i j)"
| "productSample m NDInt32 s i j = Int32 (productPixel m (epicsInt32 m) s i j)"
| "productSample m NDUInt32 s i j = UInt32 (productPixel m (epicsUInt32 m) s i j)"
| "productSample m NDFloat32 s i j = Float32 (productPixel m (epicsFloat32 m) s i j)"
| "productSample m NDFloat64 s i j = Float64 (productPixel m (epicsFloat64 m) s i j)"

text \<open>
  A sample with the increment of the state added in its own representation: word
  addition for the six integer kinds, the machine's single and double addition for the
  two floating kinds.
\<close>

fun accumulated :: "('d, 'f) machine \<Rightarrow> ('d, 'f) driver \<Rightarrow> ('d, 'f) sample \<Rightarrow> ('d, 'f) sample" where
  "accumulated m s (Int8 x) = Int8 (x + increment m (epicsInt8 m) s)"
| "accumulated m s (UInt8 x) = UInt8 (x + increment m (epicsUInt8 m) s)"
| "accumulated m s (Int16 x) = Int16 (x + increment m (epicsInt16 m) s)"
| "accumulated m s (UInt16 x) = UInt16 (x + increment m (epicsUInt16 m) s)"
| "accumulated m s (Int32 x) = Int32 (x + increment m (epicsInt32 m) s)"
| "accumulated m s (UInt32 x) = UInt32 (x + increment m (epicsUInt32 m) s)"
| "accumulated m s (Float32 x) = Float32 (fadd m x (increment m (epicsFloat32 m) s))"
| "accumulated m s (Float64 x) = Float64 (dadd m x (increment m (epicsFloat64 m) s))"

text \<open>The number of samples \<^verbatim>\<open>computeArray\<close> writes: \<open>maxSizeY\<close> rows of \<open>maxSizeX\<close>.\<close>

definition frameCells :: "('d, 'f) driver \<Rightarrow> nat" where
  "frameCells s = loopCount (getIntegerParam s ADMaxSizeY) * loopCount (getIntegerParam s ADMaxSizeX)"

text \<open>The number of cells a block shows at a representation.\<close>

fun cellCount :: "('d, 'f) machine \<Rightarrow> NDDataType \<Rightarrow> ('d, 'f) raw_data \<Rightarrow> nat" where
  "cellCount m NDInt8 d = length (cells8 m d)"
| "cellCount m NDUInt8 d = length (cells8 m d)"
| "cellCount m NDInt16 d = length (cells16 m d)"
| "cellCount m NDUInt16 d = length (cells16 m d)"
| "cellCount m NDInt32 d = length (cells32 m d)"
| "cellCount m NDUInt32 d = length (cells32 m d)"
| "cellCount m NDFloat32 d = length (cellsF32 m d)"
| "cellCount m NDFloat64 d = length (cellsF64 m d)"

text \<open>
  The raw buffer is ready for a frame: the numeric representation is one of the eight
  kinds, the buffer's capacity covers its byte count (it need not grow), and its block
  shows at least the cells of a frame.
\<close>

definition rawReady :: "('d, 'f) machine \<Rightarrow> ('d, 'f) driver \<Rightarrow> bool" where
  "rawReady m s =
     (case NDDataType_of (getIntegerParam s ADDataType) of
        None \<Rightarrow> False
      | Some t \<Rightarrow>
          fst (dims (pRaw s)) * snd (dims (pRaw s)) * bytesPerElement t \<le> dataSize (pRaw s) \<and>
          (case pData (pRaw s) of None \<Rightarrow> False | Some d \<Rightarrow> frameCells s \<le> cellCount m t d))"

text \<open>The pool's conversion yields a frame whatever it is asked for.\<close>

definition convertSucceeds :: "('d, 'f) surroundings \<Rightarrow> bool" where
  "convertSucceeds env = (\<forall>a t d. convert env a t d \<noteq> None)"

text \<open>The geometry invariants of the data model, on the stored parameters.\<close>

definition geometryInvariants :: "('d, 'f) driver \<Rightarrow> bool" where
  "geometryInvariants s =
     (1 \<le> sint (getIntegerParam s ADBinX) \<and> 1 \<le> sint (getIntegerParam s ADBinY) \<and>
      0 \<le> sint (getIntegerParam s ADMinX) \<and> 0 \<le> sint (getIntegerParam s ADMinY) \<and>
      sint (getIntegerParam s ADMinX) + sint (getIntegerParam s ADSizeX)
        \<le> sint (getIntegerParam s ADMaxSizeX) \<and>
      sint (getIntegerParam s ADMinY) + sint (getIntegerParam s ADSizeY)
        \<le> sint (getIntegerParam s ADMaxSizeY))"

text \<open>
  The thread waits for a start signal and none is pending: the state in which the
  status parameter reads Idle and a write of the acquire flag starts an acquisition.
\<close>

definition idle :: "('d, 'f) driver \<Rightarrow> bool" where
  "idle s = (pc s = WaitStart \<and> \<not> startEventId s \<and> \<not> mutexTaken s \<and>
             getIntegerParam s ADStatus = ADStatusIdle)"

text \<open>
  The three shapes of correction in \<open>fixParameters\<close>: a lower bound, the upper bound
  \<open>max - 1\<close> on an offset, and the shrinking of a size.
\<close>

definition fixLower :: "param \<Rightarrow> epicsInt32 \<Rightarrow> ('d, 'f) driver \<Rightarrow> ('d, 'f) driver" where
  "fixLower p lo s = (if getIntegerParam s p <s lo then setIntegerParam p lo s else s)"

definition fixUpper :: "param \<Rightarrow> param \<Rightarrow> ('d, 'f) driver \<Rightarrow> ('d, 'f) driver" where
  "fixUpper pMin pMax s =
     (if getIntegerParam s pMax - 1 <s getIntegerParam s pMin
      then setIntegerParam pMin (getIntegerParam s pMax - 1) s else s)"

definition fixSize :: "param \<Rightarrow> param \<Rightarrow> param \<Rightarrow> ('d, 'f) driver \<Rightarrow> ('d, 'f) driver" where
  "fixSize pMin pSize pMax s =
     (if getIntegerParam s pMax <s getIntegerParam s pMin + getIntegerParam s pSize
      then setIntegerParam pSize (getIntegerParam s pMax - getIntegerParam s pMin) s else s)"

section \<open>Example states\<close>

text \<open>
  A detector of 11 by 1 samples of 32-bit integers with \<open>gainX\<close> written as 0.1; one of
  10 by 10 unsigned bytes with gain 1; one of 2 by 2 unsigned bytes with gain 200, and
  the latter in a continuous acquisition just before its second frame is built.
\<close>

definition tenthDetector :: "(binfloat, binfloat) driver" where
  "tenthDetector = snd (writeFloat64 SimGainX tenth (detector 11 1 4))"

definition unitGainDetector :: "(binfloat, binfloat) driver" where
  "unitGainDetector = snd (writeFloat64 ADGain one (detector 10 10 1))"

definition brightDetector :: "(binfloat, binfloat) driver" where
  "brightDetector = snd (writeFloat64 ADGain (BinFloat 7036874417766400 (- 45)) (detector 2 2 1))"

definition secondExposure :: "(binfloat, binfloat) driver" where
  "secondExposure =
     simTask ieee (replicate 8 calm) (snd (writeInt32 ADAcquire 1 (simTask ieee [calm] brightDetector)))"

text \<open>
  A detector of 10 by 10 unsigned bytes with the offsets and sizes written out of range
  (\<open>minX\<close> = -3, \<open>sizeX\<close> = 50, \<open>minY\<close> = 20, \<open>sizeY\<close> = 5, binning still 0), and
  one with \<open>minX\<close> = 5 and the largest \<^verbatim>\<open>int\<close> as \<open>sizeX\<close>.
\<close>

definition outOfRangeDetector :: "(binfloat, binfloat) driver" where
  "outOfRangeDetector =
     snd (writeInt32 ADSizeY 5 (snd (writeInt32 ADMinY 20
       (snd (writeInt32 ADSizeX 50 (snd (writeInt32 ADMinX (- 3) (detector 10 10 1))))))))"

definition hugeSizeDetector :: "(binfloat, binfloat) driver" where
  "hugeSizeDetector =
     snd (writeInt32 ADSizeX 2147483647 (snd (writeInt32 ADMinX 5 (detector 10 10 1))))"

text \<open>
  A detector of 2 by 2 unsigned bytes after the first frame of a continuous acquisition;
  the same with the numeric representation then written as 64-bit float, at the point
  where the next frame is built, and the state \<open>computeImage\<close> hands to
  \<open>allocateBuffer\<close> there; and with the representation written as 8, which is none of
  the eight kinds.
\<close>

definition firstFrame :: "(binfloat, binfloat) driver" where
  "firstFrame = simTask ieee (replicate 6 calm) (snd (writeInt32 ADAcquire 1 (simTask ieee [calm] (detector 2 2 1))))"

definition widened :: "(binfloat, binfloat) driver" where
  "widened = simTask ieee [calm, calm] (snd (writeInt32 ADDataType 7 firstFrame))"

definition widenedRaw :: "(binfloat, binfloat) driver" where
  "widenedRaw = widened\<lparr>pRaw := (pRaw widened)\<lparr>dataType := getIntegerParam widened ADDataType\<rparr>\<rparr>"

definition unsupported :: "(binfloat, binfloat) driver" where
  "unsupported = simTask ieee [calm, calm] (snd (writeInt32 ADDataType 8 firstFrame))"

text \<open>
  The thread is about to produce a frame: the acquire flag is set and the thread is at
  the top of its loop, or it waits for the start signal and the signal is pending.
\<close>

definition producing :: "('d, 'f) driver \<Rightarrow> bool" where
  "producing s =
     (getIntegerParam s ADAcquire \<noteq> 0 \<and>
      ((pc s = LoopTop \<and> \<not> startEventId s) \<or> (pc s = WaitStart \<and> startEventId s)))"

text \<open>The number of images remaining after the accounting for one frame.\<close>

definition countedDown :: "epicsInt32 \<Rightarrow> epicsInt32" where
  "countedDown r = (if 0 <s r then r - 1 else r)"

text \<open>
  Idle detectors of 2 by 2 unsigned bytes: in mode Multiple with a given number of
  images, in mode Continuous (the mode the constructor sets), and in mode Single.
\<close>

definition multipleMode :: "epicsInt32 \<Rightarrow> (binfloat, binfloat) driver" where
  "multipleMode n =
     simTask ieee [calm] (snd (writeInt32 ADNumImages n (snd (writeInt32 ADImageMode 1 (detector 2 2 1)))))"

definition continuousMode :: "(binfloat, binfloat) driver" where
  "continuousMode = simTask ieee [calm] (detector 2 2 1)"

definition singleMode :: "(binfloat, binfloat) driver" where
  "singleMode = simTask ieee [calm] (snd (writeInt32 ADImageMode 0 (detector 2 2 1)))"



text \<open>
  A detector of 2 by 2 unsigned bytes with gain 1 after the first frame of a continuous
  acquisition, and the same at the point where the next frame is built, after the
  numeric representation was written as 64-bit float and the reset flag was then
  written as 0.
\<close>

definition unitGainFrame :: "(binfloat, binfloat) driver" where
  "unitGainFrame =
     simTask ieee (replicate 6 calm)
       (snd (writeInt32 ADAcquire 1 (simTask ieee [calm] (snd (writeFloat64 ADGain one (detector 2 2 1))))))"

definition regrowing :: "(binfloat, binfloat) driver" where
  "regrowing =
     simTask ieee [calm, calm]
       (snd (writeInt32 SimResetImage 0 (snd (writeInt32 ADDataType 7 unitGainFrame))))"

text \<open>
  A detector of 2 by 2 unsigned 16-bit samples with gain 3000000 and an exposure time
  of 1 s, in a continuous acquisition just before its second frame is built.
\<close>

definition overflowing :: "(binfloat, binfloat) driver" where
  "overflowing =
     simTask ieee (replicate 8 calm)
       (snd (writeInt32 ADAcquire 1 (simTask ieee [calm]
          (snd (writeFloat64 ADAcquireTime one
             (snd (writeFloat64 ADGain (BinFloat 6442450944000000 (- 31)) (detector 2 2 3))))))))"

text \<open>
  Surroundings whose conversion is known for one request only, the full frame of 2 by 2
  samples without binning or reversal, where it is an exact copy of the raw array; and
  surroundings in which an \<^verbatim>\<open>NDArrayInfo_t\<close> left unwritten holds a byte count of
  1000.
\<close>

definition fullFrame :: "(binfloat, binfloat) surroundings" where
  "fullFrame =
     calm\<lparr>convert := (\<lambda>a t d.
            if d = (\<lparr>dimSize = 2, dimOffset = 0, dimBinning = 1, dimReverse = 0\<rparr>,
                    \<lparr>dimSize = 2, dimOffset = 0, dimBinning = 1, dimReverse = 0\<rparr>)
            then Some a else None)\<rparr>"

definition garbage :: "(binfloat, binfloat) surroundings" where
  "garbage = calm\<lparr>unwrittenTotalBytes := 1000\<rparr>"

section \<open>Properties of the pixel synthesizer\<close>

subsection \<open>The loops of the reset branch\<close>

lemma funpow_dadd:
  "((\<lambda>x. dadd m x g) ^^ n) (dadd m x g) = dadd m (((\<lambda>x. dadd m x g) ^^ n) x) g"
  using funpow_swap1 [of "\<lambda>x. dadd m x g" n x] by simp

lemma length_resetRow: "length (resetRow m T gainX inc scaleY n scaleX) = n"
  by (induction n arbitrary: scaleX) simp_all

lemma nth_resetRow:
  "j < n \<Longrightarrow> resetRow m T gainX inc scaleY n scaleX ! j =
     fromDouble T (dadd m (dadd m (((\<lambda>x. dadd m x gainX) ^^ j) scaleX) scaleY) (toDouble T inc))"
proof (induction n arbitrary: scaleX j)
  case 0
  then show ?case by simp
next
  case (Suc n)
  show ?case
  proof (cases j)
    case 0
    then show ?thesis by simp
  next
    case (Suc j')
    with Suc.prems have "j' < n" by simp
    from Suc.IH [OF this] Suc show ?thesis by (simp add: funpow_dadd)
  qed
qed

lemma length_resetRows: "length (resetRows m T gainX gainY inc nx ny scaleY) = ny * nx"
  by (induction ny arbitrary: scaleY) (simp_all add: length_resetRow)

lemma nth_resetRows:
  "i < ny \<Longrightarrow> j < nx \<Longrightarrow>
   resetRows m T gainX gainY inc nx ny scaleY ! (i * nx + j) =
     fromDouble T (dadd m (dadd m (runningSum m gainX j) (((\<lambda>y. dadd m y gainY) ^^ i) scaleY))
                          (toDouble T inc))"
proof (induction ny arbitrary: scaleY i)
  case 0
  then show ?case by simp
next
  case (Suc ny)
  show ?case
  proof (cases i)
    case 0
    with Suc.prems show ?thesis
      by (simp add: nth_append length_resetRow nth_resetRow runningSum_def)
  next
    case (Suc i')
    with Suc.prems have i': "i' < ny" by simp
    have "resetRows m T gainX gainY inc nx (Suc ny) scaleY ! (i * nx + j)
            = resetRows m T gainX gainY inc nx ny (dadd m scaleY gainY) ! (i' * nx + j)"
      using Suc by (simp add: nth_append length_resetRow)
    also note Suc.IH [OF i' Suc.prems(2)]
    finally show ?thesis using Suc by (simp add: funpow_dadd)
  qed
qed

lemma index_in_frame: "i < ny \<Longrightarrow> j < nx \<Longrightarrow> i * nx + j < ny * (nx::nat)"
proof -
  assume a: "i < ny" "j < nx"
  then have "i * nx + j < i * nx + nx" by simp
  also have "\<dots> = Suc i * nx" by simp
  also have "\<dots> \<le> ny * nx" using a(1) by (intro mult_le_mono1) simp
  finally show ?thesis .
qed


subsection \<open>Parameter store\<close>

lemma fixParameters_steps:
  "fixParameters s =
     fixSize ADMinY ADSizeY ADMaxSizeY (fixSize ADMinX ADSizeX ADMaxSizeX
       (fixUpper ADMinY ADMaxSizeY (fixUpper ADMinX ADMaxSizeX
         (fixLower ADMinY 0 (fixLower ADMinX 0 (fixLower ADBinY 1 (fixLower ADBinX 1 s)))))))"
  unfolding fixParameters_def fixLower_def [symmetric] fixUpper_def [symmetric]
    fixSize_def [symmetric]
  by (simp only: Let_def)

lemma fixLower_ints: "fixLower p lo s = s\<lparr>ints := ints (fixLower p lo s)\<rparr>"
  by (simp add: fixLower_def setIntegerParam_def)

lemma fixUpper_ints: "fixUpper p q s = s\<lparr>ints := ints (fixUpper p q s)\<rparr>"
  by (simp add: fixUpper_def setIntegerParam_def)

lemma fixSize_ints: "fixSize p q r s = s\<lparr>ints := ints (fixSize p q r s)\<rparr>"
  by (simp add: fixSize_def setIntegerParam_def)

lemma fixLower_other: "q \<noteq> p \<Longrightarrow> ints (fixLower p lo s) q = ints s q"
  by (simp add: fixLower_def setIntegerParam_def)

lemma fixUpper_other: "q \<noteq> p \<Longrightarrow> ints (fixUpper p r s) q = ints s q"
  by (simp add: fixUpper_def setIntegerParam_def)

lemma fixSize_other: "q \<noteq> p \<Longrightarrow> ints (fixSize r p t s) q = ints s q"
  by (simp add: fixSize_def setIntegerParam_def)

lemma ints_only_trans:
  "t = s\<lparr>ints := a\<rparr> \<Longrightarrow> u = t\<lparr>ints := b\<rparr> \<Longrightarrow> u = s\<lparr>ints := b\<rparr>"
  by simp

lemma self_ints: "s = s\<lparr>ints := ints s\<rparr>"
  by simp

lemma fixParameters_ints: "fixParameters s = s\<lparr>ints := ints (fixParameters s)\<rparr>"
  unfolding fixParameters_steps
  by (rule ints_only_trans [OF _ fixSize_ints] ints_only_trans [OF _ fixUpper_ints]
        ints_only_trans [OF _ fixLower_ints])+ (rule self_ints)

lemma fixParameters_other:
  "p \<notin> {ADBinX, ADBinY, ADMinX, ADMinY, ADSizeX, ADSizeY} \<Longrightarrow> ints (fixParameters s) p = ints s p"
  by (simp add: fixParameters_steps fixLower_other fixUpper_other fixSize_other)

lemma allocateBuffer_pRaw: "allocateBuffer env s = (st, s') \<Longrightarrow> s' = s\<lparr>pRaw := pRaw s'\<rparr>"
  by (auto simp: allocateBuffer_def Let_def split: if_splits)

lemma allocateBuffer_no_grow:
  "getInfo_totalBytes env (pRaw s) \<le> dataSize (pRaw s) \<Longrightarrow> allocateBuffer env s = (asynSuccess, s)"
  by (simp add: allocateBuffer_def Let_def)


subsection \<open>Frame builder\<close>

lemma asynError_neq: "asynError \<noteq> (0::epicsInt32)" "asynSuccess = (0::epicsInt32)"
  by (simp_all add: asynError_def asynSuccess_def)

text \<open>The state handed to \<open>allocateBuffer\<close>.\<close>

lemma computeImage_success:
  assumes "computeImage m env s = Inr (asynSuccess, s')"
  obtains s3 s4 pImage where
    "allocateBuffer env ((fixParameters s)\<lparr>pRaw := (pRaw (fixParameters s))
        \<lparr>dataType := getIntegerParam s ADDataType\<rparr>\<rparr>) = (asynSuccess, s3)"
    "synthesize m (getIntegerParam s ADDataType) (getIntegerParam s ADMaxSizeX)
        (getIntegerParam s ADMaxSizeY) s3 = Inr s4"
    "convert env (pRaw s4) (getIntegerParam s ADDataType) (dimsOut s4) = Some pImage"
    "pRaw s' = pRaw s4"
proof -
  let ?s2 = "(fixParameters s)\<lparr>pRaw := (pRaw (fixParameters s))
        \<lparr>dataType := getIntegerParam s ADDataType\<rparr>\<rparr>"
  have par: "getIntegerParam (fixParameters s) ADDataType = getIntegerParam s ADDataType"
    "getIntegerParam (fixParameters s) ADMaxSizeX = getIntegerParam s ADMaxSizeX"
    "getIntegerParam (fixParameters s) ADMaxSizeY = getIntegerParam s ADMaxSizeY"
    by (simp_all add: getIntegerParam_def fixParameters_other)
  obtain st s3 where al: "allocateBuffer env ?s2 = (st, s3)" by (cases "allocateBuffer env ?s2")
  from assms al have st: "st = 0"
    by (auto simp: computeImage_def Let_def par asynError_neq split: if_splits)
  with assms al obtain s4 where sy: "synthesize m (getIntegerParam s ADDataType)
        (getIntegerParam s ADMaxSizeX) (getIntegerParam s ADMaxSizeY) s3 = Inr s4"
    by (auto simp: computeImage_def Let_def par split: sum.splits)
  with assms al st obtain pImage where
    cv: "convert env (pRaw s4) (getIntegerParam s ADDataType) (dimsOut s4) = Some pImage"
    by (auto simp: computeImage_def Let_def par asynError_neq split: option.splits)
  with assms al st sy have "pRaw s' = pRaw s4"
    by (auto simp: computeImage_def Let_def par setIntegerParam_def)
  with al st sy cv show thesis using that by (simp add: asynError_neq)
qed


subsection \<open>Synthesizer\<close>

lemma computeArray_reset:
  assumes run: "computeArray m T mx my s = Inr s'"
    and reset: "getIntegerParam s SimResetImage \<noteq> 0"
    and i: "i < loopCount my" and j: "j < loopCount mx"
    and ct: "\<And>xs. cells T (block T xs) = xs"
  shows "cellAt (rawCells T s') (i * loopCount mx + j) = Some (summedPixel m T s i j)"
proof -
  let ?n = "loopCount my * loopCount mx"
  from i j have k: "i * loopCount mx + j < ?n" by (rule index_in_frame)
  then have n: "?n \<noteq> 0" by (metis not_less0)
  from run n obtain d where d: "pData (pRaw s) = Some d"
    by (cases "pData (pRaw s)") (auto simp: computeArray_def Let_def)
  from run n d reset have
    "rawCells T s' = resetRows m T (getDoubleParam s SimGainX) (getDoubleParam s SimGainY)
        (increment m T s) (loopCount mx) (loopCount my) (dzero m) @ drop ?n (cells T d)"
    by (auto simp: computeArray_def Let_def rawCells_def ct split: if_splits)
  with k i j show ?thesis
    by (simp add: cellAt_def nth_append length_resetRows nth_resetRows summedPixel_def
          runningSum_def)
qed

lemma computeArray_accumulate:
  assumes run: "computeArray m T mx my s = Inr s'"
    and reset: "getIntegerParam s SimResetImage = 0"
    and k: "k < loopCount my * loopCount mx"
    and ct: "\<And>xs. cells T (block T xs) = xs"
  shows "\<exists>old. cellAt (rawCells T s) k = Some old \<and>
           cellAt (rawCells T s') k = Some (plusAssign T old (increment m T s))"
proof -
  let ?n = "loopCount my * loopCount mx"
  from k have n: "?n \<noteq> 0" by (metis not_less0)
  from run n obtain d where d: "pData (pRaw s) = Some d"
    by (cases "pData (pRaw s)") (auto simp: computeArray_def Let_def)
  from run n d have len: "?n \<le> length (cells T d)"
    by (auto simp: computeArray_def Let_def split: if_splits)
  from run n d reset len have
    "rawCells T s' = map (\<lambda>x. plusAssign T x (increment m T s)) (take ?n (cells T d))
        @ drop ?n (cells T d)"
    by (auto simp: computeArray_def Let_def rawCells_def ct split: if_splits)
  with k len d show ?thesis
    by (simp add: cellAt_def nth_append rawCells_def)
qed

lemma cells_block:
  "cells (epicsInt8 m) (block (epicsInt8 m) xs8) = xs8"
  "cells (epicsUInt8 m) (block (epicsUInt8 m) xs8) = xs8"
  "cells (epicsInt16 m) (block (epicsInt16 m) xs16) = xs16"
  "cells (epicsUInt16 m) (block (epicsUInt16 m) xs16) = xs16"
  "cells (epicsInt32 m) (block (epicsInt32 m) xs32) = xs32"
  "cells (epicsUInt32 m) (block (epicsUInt32 m) xs32) = xs32"
  "cells (epicsFloat32 m) (block (epicsFloat32 m) xsf) = xsf"
  "cells (epicsFloat64 m) (block (epicsFloat64 m) xsd) = xsd"
  by (simp_all add: epicsInt8_def epicsUInt8_def epicsInt16_def epicsUInt16_def epicsInt32_def
        epicsUInt32_def epicsFloat32_def epicsFloat64_def cells8_def cells16_def cells32_def
        cellsF32_def cellsF64_def)

lemma summedPixel_cong:
  "doubles s' = doubles s \<Longrightarrow> summedPixel m T s' i j = summedPixel m T s i j"
  by (simp add: summedPixel_def increment_def getDoubleParam_def)

lemma increment_cong: "doubles s' = doubles s \<Longrightarrow> increment m T s' = increment m T s"
  by (simp add: increment_def getDoubleParam_def)

lemma synthesize_reset:
  assumes run: "synthesize m dt mx my s = Inr s'"
    and t: "NDDataType_of dt = Some t"
    and reset: "getIntegerParam s SimResetImage \<noteq> 0"
    and i: "i < loopCount my" and j: "j < loopCount mx"
  shows "rawSample m t s' (i * loopCount mx + j) = Some (summedSample m t s i j)"
  using run t
  by (cases t)
    (simp_all add: synthesize_def computeArray_reset [OF _ reset i j] cells_block)

lemma plusAssign_simps:
  "plusAssign (epicsInt8 m) = (+)" "plusAssign (epicsUInt8 m) = (+)"
  "plusAssign (epicsInt16 m) = (+)" "plusAssign (epicsUInt16 m) = (+)"
  "plusAssign (epicsInt32 m) = (+)" "plusAssign (epicsUInt32 m) = (+)"
  "plusAssign (epicsFloat32 m) = fadd m" "plusAssign (epicsFloat64 m) = dadd m"
  by (simp_all add: epicsInt8_def epicsUInt8_def epicsInt16_def epicsUInt16_def epicsInt32_def
        epicsUInt32_def epicsFloat32_def epicsFloat64_def)

lemma synthesize_accumulate:
  assumes run: "synthesize m dt mx my s = Inr s'"
    and t: "NDDataType_of dt = Some t"
    and reset: "getIntegerParam s SimResetImage = 0"
    and k: "k < loopCount my * loopCount mx"
  shows "\<exists>old. rawSample m t s k = Some old \<and> rawSample m t s' k = Some (accumulated m s old)"
proof (cases t)
  case NDInt8
  with run t computeArray_accumulate [OF _ reset k cells_block(1), of m m s'] show ?thesis
    by (auto simp: synthesize_def plusAssign_simps)
next
  case NDUInt8
  with run t computeArray_accumulate [OF _ reset k cells_block(2), of m m s'] show ?thesis
    by (auto simp: synthesize_def plusAssign_simps)
next
  case NDInt16
  with run t computeArray_accumulate [OF _ reset k cells_block(3), of m m s'] show ?thesis
    by (auto simp: synthesize_def plusAssign_simps)
next
  case NDUInt16
  with run t computeArray_accumulate [OF _ reset k cells_block(4), of m m s'] show ?thesis
    by (auto simp: synthesize_def plusAssign_simps)
next
  case NDInt32
  with run t computeArray_accumulate [OF _ reset k cells_block(5), of m m s'] show ?thesis
    by (auto simp: synthesize_def plusAssign_simps)
next
  case NDUInt32
  with run t computeArray_accumulate [OF _ reset k cells_block(6), of m m s'] show ?thesis
    by (auto simp: synthesize_def plusAssign_simps)
next
  case NDFloat32
  with run t computeArray_accumulate [OF _ reset k cells_block(7), of m m s'] show ?thesis
    by (auto simp: synthesize_def plusAssign_simps)
next
  case NDFloat64
  with run t computeArray_accumulate [OF _ reset k cells_block(8), of m m s'] show ?thesis
    by (auto simp: synthesize_def plusAssign_simps)
qed


subsection \<open>Reset and accumulation\<close>

lemma rawSample_cong: "pRaw s' = pRaw s \<Longrightarrow> rawSample m t s' k = rawSample m t s k"
  by (cases t) (simp_all add: rawCells_def)

lemma summedSample_cong:
  assumes "doubles s' = doubles s"
  shows "summedSample m t s' i j = summedSample m t s i j"
  by (cases t) (simp_all add: summedPixel_cong [OF assms])

lemma accumulated_cong:
  assumes "doubles s' = doubles s"
  shows "accumulated m s' x = accumulated m s x"
  by (cases x) (simp_all add: increment_cong [OF assms])

lemma allocated_doubles:
  assumes "allocateBuffer env ((fixParameters s)\<lparr>pRaw := r\<rparr>) = (st, s3)"
  shows "doubles s3 = doubles s" "ints s3 = ints (fixParameters s)"
proof -
  from allocateBuffer_pRaw [OF assms] have "s3 = (fixParameters s)\<lparr>pRaw := pRaw s3\<rparr>" by simp
  then have "doubles s3 = doubles ((fixParameters s)\<lparr>pRaw := pRaw s3\<rparr>)"
    "ints s3 = ints ((fixParameters s)\<lparr>pRaw := pRaw s3\<rparr>)"
    by (rule arg_cong [where f = doubles], rule arg_cong [where f = ints])
  then have "doubles s3 = doubles (fixParameters s)" "ints s3 = ints (fixParameters s)"
    by simp_all
  moreover have "doubles (fixParameters s) = doubles s"
    by (subst fixParameters_ints) simp
  ultimately show "doubles s3 = doubles s" "ints s3 = ints (fixParameters s)" by simp_all
qed

text \<open>
  Claim C1, as amended. When the reset flag is set and the numeric representation is one
  of the eight kinds, the frame built next has, at row \<open>i\<close> and column \<open>j\<close> of the raw
  buffer (index \<open>i \<times> maxSizeX + j\<close>), the sample
  \<open>numeric_cast(Sx + Sy + inc)\<close>, where \<open>Sx\<close> is the double reached by adding
  \<open>gainX\<close> to zero \<open>j\<close> times, \<open>Sy\<close> the double reached by adding \<open>gainY\<close> to zero
  \<open>i\<close> times, and \<open>inc = numeric_cast(gain \<times> exposureTime \<times> 1000)\<close> is cast to the
  representation before the sum. This holds for every machine arithmetic.
\<close>

theorem reset_frame_running_sums:
  assumes build: "computeImage m env s = Inr (asynSuccess, s')"
    and reset: "getIntegerParam s SimResetImage \<noteq> 0"
    and t: "NDDataType_of (getIntegerParam s ADDataType) = Some t"
    and i: "i < loopCount (getIntegerParam s ADMaxSizeY)"
    and j: "j < loopCount (getIntegerParam s ADMaxSizeX)"
  shows "rawSample m t s' (i * loopCount (getIntegerParam s ADMaxSizeX) + j)
           = Some (summedSample m t s i j)"
proof -
  from build obtain s3 s4 pImage where
    al: "allocateBuffer env ((fixParameters s)\<lparr>pRaw := (pRaw (fixParameters s))
        \<lparr>dataType := getIntegerParam s ADDataType\<rparr>\<rparr>) = (asynSuccess, s3)"
    and sy: "synthesize m (getIntegerParam s ADDataType) (getIntegerParam s ADMaxSizeX)
        (getIntegerParam s ADMaxSizeY) s3 = Inr s4"
    and raw: "pRaw s' = pRaw s4"
    by (rule computeImage_success)
  from allocated_doubles [OF al] have d: "doubles s3 = doubles s"
    and r: "getIntegerParam s3 SimResetImage = getIntegerParam s SimResetImage"
    by (simp_all add: getIntegerParam_def fixParameters_other)
  from reset r have "getIntegerParam s3 SimResetImage \<noteq> 0" by simp
  from synthesize_reset [OF sy t this i j] show ?thesis
    by (simp add: rawSample_cong [OF raw] summedSample_cong [OF d])
qed


lemma build_succeeds:
  "(case computeImage m env s of Inr (st, s') \<Rightarrow> st = asynSuccess | Inl f \<Rightarrow> False)
     \<Longrightarrow> \<exists>s'. computeImage m env s = Inr (asynSuccess, s')"
  by (auto split: sum.splits)

text \<open>
  The scenario of the specification: 10 by 10 samples, all gains 1 and an exposure of
  0.001 s give the sample 19 at row 9, column 9.
\<close>

theorem reset_frame_running_sums_witness:
  "\<exists>s'. computeImage ieee calm unitGainDetector = Inr (asynSuccess, s') \<and>
        getIntegerParam unitGainDetector SimResetImage \<noteq> 0 \<and>
        NDDataType_of (getIntegerParam unitGainDetector ADDataType) = Some NDUInt8 \<and>
        9 < loopCount (getIntegerParam unitGainDetector ADMaxSizeY) \<and>
        9 < loopCount (getIntegerParam unitGainDetector ADMaxSizeX) \<and>
        rawSample ieee NDUInt8 s' (9 * loopCount (getIntegerParam unitGainDetector ADMaxSizeX) + 9)
          = Some (summedSample ieee NDUInt8 unitGainDetector 9 9) \<and>
        summedSample ieee NDUInt8 unitGainDetector 9 9 = UInt8 19"
proof -
  have "case computeImage ieee calm unitGainDetector of
          Inr (st, s') \<Rightarrow> st = asynSuccess | Inl f \<Rightarrow> False"
    by code_simp
  then obtain s' where b: "computeImage ieee calm unitGainDetector = Inr (asynSuccess, s')"
    using build_succeeds by blast
  have r: "getIntegerParam unitGainDetector SimResetImage \<noteq> 0" by code_simp
  have t: "NDDataType_of (getIntegerParam unitGainDetector ADDataType) = Some NDUInt8"
    by code_simp
  have i: "9 < loopCount (getIntegerParam unitGainDetector ADMaxSizeY)" by code_simp
  have j: "9 < loopCount (getIntegerParam unitGainDetector ADMaxSizeX)" by code_simp
  have v: "summedSample ieee NDUInt8 unitGainDetector 9 9 = UInt8 19" by code_simp
  from reset_frame_running_sums [OF b r t i j] b r t i j v show ?thesis by blast
qed

text \<open>
  Claim C1 as stated, with the product form \<open>numeric_cast(j \<times> gainX + i \<times> gainY + inc)\<close>,
  fails in double arithmetic: with \<open>gainX\<close> the double nearest to 0.1 and gain 0, the ten
  additions that lead to column 10 give 0.9999999999999999, which is cast to 0, while
  10 times \<open>gainX\<close> is 1, which is cast to 1.
\<close>

theorem reset_frame_product_form_counterexample:
  "(case computeImage ieee calm tenthDetector of
      Inr (st, s') \<Rightarrow> st = asynSuccess \<and> rawSample ieee NDInt32 s' (0 * 11 + 10) = Some (Int32 0)
    | Inl f \<Rightarrow> False) \<and>
   getIntegerParam tenthDetector SimResetImage = 1 \<and>
   NDDataType_of (getIntegerParam tenthDetector ADDataType) = Some NDInt32 \<and>
   loopCount (getIntegerParam tenthDetector ADMaxSizeY) = 1 \<and>
   loopCount (getIntegerParam tenthDetector ADMaxSizeX) = 11 \<and>
   productSample ieee NDInt32 tenthDetector 0 10 = Int32 1"
  by code_simp

text \<open>
  Claim C4, as amended. With the reset flag clear, a numeric representation of the eight
  kinds and a raw buffer whose capacity covers a frame of it (so that the buffer is not
  reallocated), every sample of the next frame is the sample of the previous frame, read
  at the current representation, plus \<open>inc = numeric_cast(gain \<times> exposureTime \<times> 1000)\<close>.
  The sum is taken in the representation itself: addition of 8, 16 or 32-bit words,
  which wraps around, for the integer kinds, and the machine's single or double
  precision addition for the floating kinds. The cast is the machine's conversion of
  the double to the representation.
\<close>

theorem accumulate_frame:
  assumes build: "computeImage m env s = Inr (asynSuccess, s')"
    and reset: "getIntegerParam s SimResetImage = 0"
    and t: "NDDataType_of (getIntegerParam s ADDataType) = Some t"
    and cap: "fst (dims (pRaw s)) * snd (dims (pRaw s)) * bytesPerElement t \<le> dataSize (pRaw s)"
    and k: "k < frameCells s"
  shows "\<exists>old. rawSample m t s k = Some old \<and> rawSample m t s' k = Some (accumulated m s old)"
proof -
  let ?s2 = "(fixParameters s)\<lparr>pRaw := (pRaw (fixParameters s))
        \<lparr>dataType := getIntegerParam s ADDataType\<rparr>\<rparr>"
  from build obtain s3 s4 pImage where
    al: "allocateBuffer env ?s2 = (asynSuccess, s3)"
    and sy: "synthesize m (getIntegerParam s ADDataType) (getIntegerParam s ADMaxSizeX)
        (getIntegerParam s ADMaxSizeY) s3 = Inr s4"
    and raw: "pRaw s' = pRaw s4"
    by (rule computeImage_success)
  have fix_raw: "pRaw (fixParameters s) = pRaw s"
    by (subst fixParameters_ints) simp
  from t cap have "getInfo_totalBytes env (pRaw ?s2) \<le> dataSize (pRaw ?s2)"
    by (simp add: getInfo_totalBytes_def fix_raw)
  from allocateBuffer_no_grow [OF this] al have s3: "s3 = ?s2" by simp
  from allocated_doubles [OF al] have d: "doubles s3 = doubles s"
    and r: "getIntegerParam s3 SimResetImage = getIntegerParam s SimResetImage"
    by (simp_all add: getIntegerParam_def fixParameters_other)
  from reset r have r3: "getIntegerParam s3 SimResetImage = 0" by simp
  from k have k3: "k < loopCount (getIntegerParam s ADMaxSizeY) * loopCount (getIntegerParam s ADMaxSizeX)"
    by (simp add: frameCells_def)
  have before: "rawSample m t s3 k = rawSample m t s k"
    by (cases t) (simp_all add: s3 rawCells_def fix_raw)
  from synthesize_accumulate [OF sy t r3 k3] show ?thesis
    by (simp add: rawSample_cong [OF raw] accumulated_cong [OF d] before)
qed

text \<open>
  Unsigned bytes with an increment of 200: the sample 200 of the first frame becomes
  144 in the second, that is 400 modulo 256 and not the saturated 255.
\<close>

theorem accumulate_frame_witness:
  "\<exists>s'. computeImage ieee calm secondExposure = Inr (asynSuccess, s') \<and>
        getIntegerParam secondExposure SimResetImage = 0 \<and>
        NDDataType_of (getIntegerParam secondExposure ADDataType) = Some NDUInt8 \<and>
        fst (dims (pRaw secondExposure)) * snd (dims (pRaw secondExposure)) * bytesPerElement NDUInt8
          \<le> dataSize (pRaw secondExposure) \<and>
        0 < frameCells secondExposure \<and>
        rawSample ieee NDUInt8 secondExposure 0 = Some (UInt8 200) \<and>
        accumulated ieee secondExposure (UInt8 200) = UInt8 144 \<and>
        rawSample ieee NDUInt8 s' 0 = Some (UInt8 144)"
proof -
  have "case computeImage ieee calm secondExposure of
          Inr (st, s') \<Rightarrow> st = asynSuccess | Inl f \<Rightarrow> False"
    by code_simp
  then obtain s' where b: "computeImage ieee calm secondExposure = Inr (asynSuccess, s')"
    using build_succeeds by blast
  have r: "getIntegerParam secondExposure SimResetImage = 0" by code_simp
  have t: "NDDataType_of (getIntegerParam secondExposure ADDataType) = Some NDUInt8"
    by code_simp
  have c: "fst (dims (pRaw secondExposure)) * snd (dims (pRaw secondExposure)) * bytesPerElement NDUInt8
          \<le> dataSize (pRaw secondExposure)" by code_simp
  have k: "0 < frameCells secondExposure" by code_simp
  have old: "rawSample ieee NDUInt8 secondExposure 0 = Some (UInt8 200)" by code_simp
  have new: "accumulated ieee secondExposure (UInt8 200) = UInt8 144" by code_simp
  from accumulate_frame [OF b r t c k] old new b r t c k show ?thesis by auto
qed

text \<open>
  Claim C4 as stated fails in two ways. First, the reset flag can be clear while the
  buffer must grow: after the representation was changed from unsigned bytes to 64-bit
  floats and the flag was written as 0, the raw buffer of 4 bytes, whose sample 3 is 3,
  is replaced by a block of 32 bytes fresh from \<^verbatim>\<open>malloc\<close>, and the increment 1
  is added to what that block holds (zero in this machine): sample 3 of the next frame
  is 1, not 3 plus 1, which is 4. Second, the cast of the increment does not wrap: for unsigned
  16-bit samples and \<open>gain \<times> exposureTime \<times> 1000 = 3000000000\<close>, whose wrap-around to 16
  bits is 24064, the increment is 0 and sample 3 of the next frame is still 2.
\<close>

theorem accumulate_frame_counterexample:
  "getIntegerParam regrowing SimResetImage = 0 \<and>
   NDDataType_of (getIntegerParam regrowing ADDataType) = Some NDFloat64 \<and>
   dataSize (pRaw regrowing) = 4 \<and>
   rawSample ieee NDUInt8 regrowing 3 = Some (UInt8 3) \<and>
   increment ieee (epicsFloat64 ieee) regrowing = one \<and>
   accumulated ieee regrowing (Float64 (of_uint8 ieee 3)) = Float64 (BinFloat 4503599627370496 (- 50)) \<and>
   pData (pRaw (snd (allocateBuffer calm (regrowing\<lparr>pRaw := (pRaw regrowing)\<lparr>dataType := 7\<rparr>\<rparr>))))
     = Some (Uninit 32) \<and>
   (case computeImage ieee calm regrowing of
      Inr (st, s') \<Rightarrow> st = asynSuccess \<and> rawSample ieee NDFloat64 s' 3 = Some (Float64 one)
    | Inl f \<Rightarrow> False) \<and>
   getIntegerParam overflowing SimResetImage = 0 \<and>
   NDDataType_of (getIntegerParam overflowing ADDataType) = Some NDUInt16 \<and>
   binTrunc (dmul ieee (dmul ieee (getDoubleParam overflowing ADGain)
                                  (getDoubleParam overflowing ADAcquireTime)) (d1000 ieee))
     = 3000000000 \<and>
   (word_of_int 3000000000 :: 16 word) = 24064 \<and>
   rawSample ieee NDUInt16 overflowing 3 = Some (UInt16 2) \<and>
   (case computeImage ieee calm overflowing of
      Inr (st, s') \<Rightarrow> st = asynSuccess \<and> rawSample ieee NDUInt16 s' 3 = Some (UInt16 2)
    | Inl f \<Rightarrow> False)"
  by code_simp

section \<open>Properties of the frame builder\<close>

subsection \<open>Geometry corrections\<close>

lemma sint32_sub:
  "- (2 ^ 31) \<le> sint a - sint b \<Longrightarrow> sint a - sint b < 2 ^ 31 \<Longrightarrow>
   sint (a - b :: 32 word) = sint a - sint b"
  by (simp add: sint_word_ariths signed_take_bit_int_eq_self)

lemma sint32_add:
  "- (2 ^ 31) \<le> sint a + sint b \<Longrightarrow> sint a + sint b < 2 ^ 31 \<Longrightarrow>
   sint (a + b :: 32 word) = sint a + sint b"
  by (simp add: sint_word_ariths signed_take_bit_int_eq_self)

lemma sint32_bounds: "- (2 ^ 31) \<le> sint (a :: 32 word)" "sint (a :: 32 word) < 2 ^ 31"
  using sint_ge [of a] sint_lt [of a] by simp_all

lemma fixLower_get:
  "ints (fixLower p lo s) q =
     (if q = p then (if ints s p <s lo then lo else ints s p) else ints s q)"
  by (simp add: fixLower_def setIntegerParam_def getIntegerParam_def)

lemma fixUpper_get:
  "ints (fixUpper p r s) q =
     (if q = p then (if ints s r - 1 <s ints s p then ints s r - 1 else ints s p) else ints s q)"
  by (simp add: fixUpper_def setIntegerParam_def getIntegerParam_def)

lemma fixSize_get:
  "ints (fixSize pm ps pM s) q =
     (if q = ps then (if ints s pM <s ints s pm + ints s ps then ints s pM - ints s pm else ints s ps)
      else ints s q)"
  by (simp add: fixSize_def setIntegerParam_def getIntegerParam_def)

lemma fixParameters_bin:
  "sint (ints (fixParameters s) ADBinX) = max 1 (sint (ints s ADBinX))"
  "sint (ints (fixParameters s) ADBinY) = max 1 (sint (ints s ADBinY))"
  by (simp_all add: fixParameters_steps fixLower_get fixUpper_get fixSize_get word_sless_alt)

lemma fixParameters_min:
  assumes "1 \<le> sint (ints s pM)"
  shows "sint (if ints s pM - 1 <s (if ints s p <s 0 then 0 else ints s p) then ints s pM - 1
               else (if ints s p <s 0 then 0 else ints s p))
         = min (sint (ints s pM) - 1) (max 0 (sint (ints s p)))"
proof -
  have "sint (ints s pM - 1) = sint (ints s pM) - 1"
    using assms sint32_bounds [of "ints s pM"] by (subst sint32_sub) simp_all
  then show ?thesis by (simp add: word_sless_alt)
qed

lemma fixParameters_size:
  assumes M: "1 \<le> sint (ints s pM)" and nov: "sint (ints s ps) + sint (ints s pM) \<le> 2 ^ 31"
    and lo: "lo = min (sint (ints s pM) - 1) (max 0 (sint (ints s p)))"
    and w: "sint w = lo"
  shows "sint (if ints s pM <s w + ints s ps then ints s pM - w else ints s ps)
         = (if sint (ints s pM) < lo + sint (ints s ps) then sint (ints s pM) - lo
            else sint (ints s ps))"
proof -
  from lo M have lo_range: "0 \<le> lo" "lo \<le> sint (ints s pM) - 1" by simp_all
  have add: "sint (w + ints s ps) = lo + sint (ints s ps)"
    using lo_range nov w sint32_bounds [of "ints s ps"] by (subst sint32_add) simp_all
  have sub: "sint (ints s pM - w) = sint (ints s pM) - lo"
    using lo_range w sint32_bounds [of "ints s pM"] by (subst sint32_sub) simp_all
  show ?thesis by (simp add: word_sless_alt add sub)
qed

lemma fixParameters_geometry:
  assumes MX: "1 \<le> sint (ints s ADMaxSizeX)" and MY: "1 \<le> sint (ints s ADMaxSizeY)"
    and nx: "sint (ints s ADSizeX) + sint (ints s ADMaxSizeX) \<le> 2 ^ 31"
    and ny: "sint (ints s ADSizeY) + sint (ints s ADMaxSizeY) \<le> 2 ^ 31"
  shows "sint (ints (fixParameters s) ADMinX)
           = min (sint (ints s ADMaxSizeX) - 1) (max 0 (sint (ints s ADMinX)))"
    and "sint (ints (fixParameters s) ADMinY)
           = min (sint (ints s ADMaxSizeY) - 1) (max 0 (sint (ints s ADMinY)))"
    and "sint (ints (fixParameters s) ADSizeX)
           = (if sint (ints s ADMaxSizeX)
                   < min (sint (ints s ADMaxSizeX) - 1) (max 0 (sint (ints s ADMinX)))
                     + sint (ints s ADSizeX)
              then sint (ints s ADMaxSizeX)
                   - min (sint (ints s ADMaxSizeX) - 1) (max 0 (sint (ints s ADMinX)))
              else sint (ints s ADSizeX))"
    and "sint (ints (fixParameters s) ADSizeY)
           = (if sint (ints s ADMaxSizeY)
                   < min (sint (ints s ADMaxSizeY) - 1) (max 0 (sint (ints s ADMinY)))
                     + sint (ints s ADSizeY)
              then sint (ints s ADMaxSizeY)
                   - min (sint (ints s ADMaxSizeY) - 1) (max 0 (sint (ints s ADMinY)))
              else sint (ints s ADSizeY))"
proof -
  have wx: "ints (fixParameters s) ADMinX
      = (if ints s ADMaxSizeX - 1 <s (if ints s ADMinX <s 0 then 0 else ints s ADMinX)
         then ints s ADMaxSizeX - 1 else (if ints s ADMinX <s 0 then 0 else ints s ADMinX))"
    by (simp add: fixParameters_steps fixLower_get fixUpper_get fixSize_get)
  have wy: "ints (fixParameters s) ADMinY
      = (if ints s ADMaxSizeY - 1 <s (if ints s ADMinY <s 0 then 0 else ints s ADMinY)
         then ints s ADMaxSizeY - 1 else (if ints s ADMinY <s 0 then 0 else ints s ADMinY))"
    by (simp add: fixParameters_steps fixLower_get fixUpper_get fixSize_get)
  show mx: "sint (ints (fixParameters s) ADMinX)
           = min (sint (ints s ADMaxSizeX) - 1) (max 0 (sint (ints s ADMinX)))"
    unfolding wx by (rule fixParameters_min [OF MX])
  show my: "sint (ints (fixParameters s) ADMinY)
           = min (sint (ints s ADMaxSizeY) - 1) (max 0 (sint (ints s ADMinY)))"
    unfolding wy by (rule fixParameters_min [OF MY])
  have sx: "ints (fixParameters s) ADSizeX
      = (if ints s ADMaxSizeX <s ints (fixParameters s) ADMinX + ints s ADSizeX
         then ints s ADMaxSizeX - ints (fixParameters s) ADMinX else ints s ADSizeX)"
    unfolding wx by (simp add: fixParameters_steps fixLower_get fixUpper_get fixSize_get)
  have sy: "ints (fixParameters s) ADSizeY
      = (if ints s ADMaxSizeY <s ints (fixParameters s) ADMinY + ints s ADSizeY
         then ints s ADMaxSizeY - ints (fixParameters s) ADMinY else ints s ADSizeY)"
    unfolding wy by (simp add: fixParameters_steps fixLower_get fixUpper_get fixSize_get)
  show "sint (ints (fixParameters s) ADSizeX)
           = (if sint (ints s ADMaxSizeX)
                   < min (sint (ints s ADMaxSizeX) - 1) (max 0 (sint (ints s ADMinX)))
                     + sint (ints s ADSizeX)
              then sint (ints s ADMaxSizeX)
                   - min (sint (ints s ADMaxSizeX) - 1) (max 0 (sint (ints s ADMinX)))
              else sint (ints s ADSizeX))"
    by (subst sx) (rule fixParameters_size [OF MX nx refl mx])
  show "sint (ints (fixParameters s) ADSizeY)
           = (if sint (ints s ADMaxSizeY)
                   < min (sint (ints s ADMaxSizeY) - 1) (max 0 (sint (ints s ADMinY)))
                     + sint (ints s ADSizeY)
              then sint (ints s ADMaxSizeY)
                   - min (sint (ints s ADMaxSizeY) - 1) (max 0 (sint (ints s ADMinY)))
              else sint (ints s ADSizeY))"
    by (subst sy) (rule fixParameters_size [OF MY ny refl my])
qed

lemma computeArray_pRaw: "computeArray m T mx my s = Inr s' \<Longrightarrow> s' = s\<lparr>pRaw := pRaw s'\<rparr>"
  by (auto simp: computeArray_def Let_def split: if_splits option.splits)

lemma synthesize_pRaw: "synthesize m dt mx my s = Inr s' \<Longrightarrow> s' = s\<lparr>pRaw := pRaw s'\<rparr>"
  by (auto simp: synthesize_def split: option.splits NDDataType.splits dest: computeArray_pRaw)

lemma computeImage_ints:
  assumes "computeImage m env s = Inr (st, s')"
    and "p \<notin> {ADImageSize, ADImageSizeX, ADImageSizeY, SimResetImage}"
  shows "ints s' p = ints (fixParameters s) p"
proof -
  let ?dt = "getIntegerParam (fixParameters s) ADDataType"
  let ?s2 = "(fixParameters s)\<lparr>pRaw := (pRaw (fixParameters s))\<lparr>dataType := ?dt\<rparr>\<rparr>"
  obtain st0 s3 where al: "allocateBuffer env ?s2 = (st0, s3)" by (cases "allocateBuffer env ?s2")
  from allocateBuffer_pRaw [OF al] have "s3 = ?s2\<lparr>pRaw := pRaw s3\<rparr>" .
  then have "ints s3 = ints (?s2\<lparr>pRaw := pRaw s3\<rparr>)" by (rule arg_cong)
  then have i3: "ints s3 = ints (fixParameters s)" by simp
  show ?thesis
  proof (cases "st0 = 0")
    case False
    with assms al i3 show ?thesis
      by (auto simp: computeImage_def Let_def asynPrint_def)
  next
    case True
    with assms al obtain s4 where
      sy: "synthesize m ?dt (getIntegerParam (fixParameters s) ADMaxSizeX)
             (getIntegerParam (fixParameters s) ADMaxSizeY) s3 = Inr s4"
      by (auto simp: computeImage_def Let_def split: sum.splits)
    from synthesize_pRaw [OF sy] have "ints s4 = ints (s3\<lparr>pRaw := pRaw s4\<rparr>)" by (rule arg_cong)
    then have i4: "ints s4 = ints (fixParameters s)" using i3 by simp
    from assms al True sy i4 show ?thesis
      by (auto simp: computeImage_def Let_def asynPrint_def setIntegerParam_def
            split: option.splits)
  qed
qed

text \<open>
  Claim C2, as amended. For maximum sizes of at least 1 and sizes for which \<open>min + size\<close>
  cannot overflow a 32-bit \<^verbatim>\<open>int\<close> (\<open>size + maxSize \<le> 2^31\<close>), one call of the frame
  builder that returns corrects the geometry in the order of the source: binning is
  raised to 1, the offset is raised to 0 and then lowered to \<open>maxSize - 1\<close>, and the size
  is shrunk to \<open>maxSize - offset\<close> where the corrected offset plus the size exceeds the
  maximum. The corrected values are what the parameter store then returns, whatever the
  outcome of the rest of the build, and they satisfy the geometry invariants.
\<close>

theorem clamp_geometry:
  assumes build: "computeImage m env s = Inr (st, s')"
    and MX: "1 \<le> sint (getIntegerParam s ADMaxSizeX)"
    and MY: "1 \<le> sint (getIntegerParam s ADMaxSizeY)"
    and nx: "sint (getIntegerParam s ADSizeX) + sint (getIntegerParam s ADMaxSizeX) \<le> 2 ^ 31"
    and ny: "sint (getIntegerParam s ADSizeY) + sint (getIntegerParam s ADMaxSizeY) \<le> 2 ^ 31"
  shows "sint (getIntegerParam s' ADBinX) = max 1 (sint (getIntegerParam s ADBinX)) \<and>
         sint (getIntegerParam s' ADBinY) = max 1 (sint (getIntegerParam s ADBinY)) \<and>
         sint (getIntegerParam s' ADMinX)
           = min (sint (getIntegerParam s ADMaxSizeX) - 1) (max 0 (sint (getIntegerParam s ADMinX))) \<and>
         sint (getIntegerParam s' ADMinY)
           = min (sint (getIntegerParam s ADMaxSizeY) - 1) (max 0 (sint (getIntegerParam s ADMinY))) \<and>
         sint (getIntegerParam s' ADSizeX)
           = (if sint (getIntegerParam s ADMaxSizeX)
                   < sint (getIntegerParam s' ADMinX) + sint (getIntegerParam s ADSizeX)
              then sint (getIntegerParam s ADMaxSizeX) - sint (getIntegerParam s' ADMinX)
              else sint (getIntegerParam s ADSizeX)) \<and>
         sint (getIntegerParam s' ADSizeY)
           = (if sint (getIntegerParam s ADMaxSizeY)
                   < sint (getIntegerParam s' ADMinY) + sint (getIntegerParam s ADSizeY)
              then sint (getIntegerParam s ADMaxSizeY) - sint (getIntegerParam s' ADMinY)
              else sint (getIntegerParam s ADSizeY)) \<and>
         getIntegerParam s' ADMaxSizeX = getIntegerParam s ADMaxSizeX \<and>
         getIntegerParam s' ADMaxSizeY = getIntegerParam s ADMaxSizeY \<and>
         geometryInvariants s'"
proof -
  have keep: "getIntegerParam s' p = ints (fixParameters s) p"
    if "p \<notin> {ADImageSize, ADImageSizeX, ADImageSizeY, SimResetImage}" for p
    using computeImage_ints [OF build that] by (simp add: getIntegerParam_def)
  note g = fixParameters_geometry [OF MX [unfolded getIntegerParam_def]
      MY [unfolded getIntegerParam_def] nx [unfolded getIntegerParam_def]
      ny [unfolded getIntegerParam_def]]
  have max: "ints (fixParameters s) ADMaxSizeX = ints s ADMaxSizeX"
    "ints (fixParameters s) ADMaxSizeY = ints s ADMaxSizeY"
    by (simp_all add: fixParameters_other)
  have vals: "sint (getIntegerParam s' ADBinX) = max 1 (sint (getIntegerParam s ADBinX))"
    "sint (getIntegerParam s' ADBinY) = max 1 (sint (getIntegerParam s ADBinY))"
    "sint (getIntegerParam s' ADMinX)
           = min (sint (getIntegerParam s ADMaxSizeX) - 1) (max 0 (sint (getIntegerParam s ADMinX)))"
    "sint (getIntegerParam s' ADMinY)
           = min (sint (getIntegerParam s ADMaxSizeY) - 1) (max 0 (sint (getIntegerParam s ADMinY)))"
    "sint (getIntegerParam s' ADSizeX)
           = (if sint (getIntegerParam s ADMaxSizeX)
                   < sint (getIntegerParam s' ADMinX) + sint (getIntegerParam s ADSizeX)
              then sint (getIntegerParam s ADMaxSizeX) - sint (getIntegerParam s' ADMinX)
              else sint (getIntegerParam s ADSizeX))"
    "sint (getIntegerParam s' ADSizeY)
           = (if sint (getIntegerParam s ADMaxSizeY)
                   < sint (getIntegerParam s' ADMinY) + sint (getIntegerParam s ADSizeY)
              then sint (getIntegerParam s ADMaxSizeY) - sint (getIntegerParam s' ADMinY)
              else sint (getIntegerParam s ADSizeY))"
    "getIntegerParam s' ADMaxSizeX = getIntegerParam s ADMaxSizeX"
    "getIntegerParam s' ADMaxSizeY = getIntegerParam s ADMaxSizeY"
    by (simp_all only: keep param.distinct insert_iff empty_iff simp_thms not_False_eq_True
          fixParameters_bin g max) (simp_all only: getIntegerParam_def)
  have "geometryInvariants s'"
    unfolding geometryInvariants_def using vals MX MY by (simp split: if_splits)
  with vals show ?thesis by blast
qed

lemma build_returns:
  "(case computeImage m env s of Inr r \<Rightarrow> True | Inl f \<Rightarrow> False)
     \<Longrightarrow> \<exists>st s'. computeImage m env s = Inr (st, s')"
  by (auto split: sum.splits)

text \<open>
  The out-of-range detector is corrected to binning 1, offsets 0 and 9, sizes 10 and 1.
\<close>

theorem clamp_geometry_witness:
  "\<exists>st s'. computeImage ieee calm outOfRangeDetector = Inr (st, s') \<and>
     1 \<le> sint (getIntegerParam outOfRangeDetector ADMaxSizeX) \<and>
     1 \<le> sint (getIntegerParam outOfRangeDetector ADMaxSizeY) \<and>
     sint (getIntegerParam outOfRangeDetector ADSizeX)
       + sint (getIntegerParam outOfRangeDetector ADMaxSizeX) \<le> 2 ^ 31 \<and>
     sint (getIntegerParam outOfRangeDetector ADSizeY)
       + sint (getIntegerParam outOfRangeDetector ADMaxSizeY) \<le> 2 ^ 31 \<and>
     \<not> geometryInvariants outOfRangeDetector \<and>
     sint (getIntegerParam s' ADBinX) = 1 \<and> sint (getIntegerParam s' ADBinY) = 1 \<and>
     sint (getIntegerParam s' ADMinX) = 0 \<and> sint (getIntegerParam s' ADMinY) = 9 \<and>
     sint (getIntegerParam s' ADSizeX) = 10 \<and> sint (getIntegerParam s' ADSizeY) = 1 \<and>
     geometryInvariants s'"
proof -
  have "case computeImage ieee calm outOfRangeDetector of Inr r \<Rightarrow> True | Inl f \<Rightarrow> False"
    by code_simp
  then obtain st s' where b: "computeImage ieee calm outOfRangeDetector = Inr (st, s')"
    using build_returns by blast
  have MX: "1 \<le> sint (getIntegerParam outOfRangeDetector ADMaxSizeX)" by code_simp
  have MY: "1 \<le> sint (getIntegerParam outOfRangeDetector ADMaxSizeY)" by code_simp
  have nx: "sint (getIntegerParam outOfRangeDetector ADSizeX)
       + sint (getIntegerParam outOfRangeDetector ADMaxSizeX) \<le> 2 ^ 31" by code_simp
  have ny: "sint (getIntegerParam outOfRangeDetector ADSizeY)
       + sint (getIntegerParam outOfRangeDetector ADMaxSizeY) \<le> 2 ^ 31" by code_simp
  have bad: "\<not> geometryInvariants outOfRangeDetector" by code_simp
  have v: "sint (getIntegerParam outOfRangeDetector ADBinX) = 0"
    "sint (getIntegerParam outOfRangeDetector ADBinY) = 0"
    "sint (getIntegerParam outOfRangeDetector ADMinX) = - 3"
    "sint (getIntegerParam outOfRangeDetector ADMinY) = 20"
    "sint (getIntegerParam outOfRangeDetector ADSizeX) = 50"
    "sint (getIntegerParam outOfRangeDetector ADSizeY) = 5"
    "sint (getIntegerParam outOfRangeDetector ADMaxSizeX) = 10"
    "sint (getIntegerParam outOfRangeDetector ADMaxSizeY) = 10"
    by code_simp+
  from clamp_geometry [OF b MX MY nx ny] have
    "sint (getIntegerParam s' ADBinX) = 1 \<and> sint (getIntegerParam s' ADBinY) = 1 \<and>
     sint (getIntegerParam s' ADMinX) = 0 \<and> sint (getIntegerParam s' ADMinY) = 9 \<and>
     sint (getIntegerParam s' ADSizeX) = 10 \<and> sint (getIntegerParam s' ADSizeY) = 1 \<and>
     geometryInvariants s'"
    by (simp add: v)
  with b MX MY nx ny bad show ?thesis by blast
qed

text \<open>
  Claim C2 as stated, for any parameters, fails in two ways. A detector constructed with
  maximum size 0 has its offset corrected to \<open>maxSize - 1 = -1\<close>, which is negative. And
  in a detector of 10 by 10 with offset 5, the size 2147483647 makes the 32-bit sum
  \<open>minX + sizeX\<close> wrap to a negative number, so the size is not shrunk.
\<close>

theorem clamp_geometry_counterexample:
  "(case computeImage ieee calm (detector 0 0 1) of
      Inr (st, s') \<Rightarrow> st = asynSuccess \<and> sint (getIntegerParam s' ADMinX) = - 1 \<and>
                      \<not> geometryInvariants s'
    | Inl f \<Rightarrow> False) \<and>
   (case computeImage ieee calm hugeSizeDetector of
      Inr (st, s') \<Rightarrow> st = asynSuccess \<and> sint (getIntegerParam s' ADMaxSizeX) = 10 \<and>
                      sint (getIntegerParam s' ADMinX) = 5 \<and>
                      sint (getIntegerParam s' ADSizeX) = 2147483647 \<and>
                      \<not> geometryInvariants s'
    | Inl f \<Rightarrow> False)"
  by code_simp

subsection \<open>Allocation failure\<close>

lemma fixParameters_fields:
  "doubles (fixParameters s) = doubles s" "pRaw (fixParameters s) = pRaw s"
  "pArrays (fixParameters s) = pArrays s" "delivered (fixParameters s) = delivered s"
  "errlog (fixParameters s) = errlog s" "notified (fixParameters s) = notified s"
  "imagesRemaining (fixParameters s) = imagesRemaining s"
  "startEventId (fixParameters s) = startEventId s" "stopEventId (fixParameters s) = stopEventId s"
  "mutexTaken (fixParameters s) = mutexTaken s" "pc (fixParameters s) = pc s"
  "acquiring (fixParameters s) = acquiring s" "acquireTime (fixParameters s) = acquireTime s"
  "acquirePeriod (fixParameters s) = acquirePeriod s" "startTime (fixParameters s) = startTime s"
  "elapsedTime (fixParameters s) = elapsedTime s"
  by (subst fixParameters_ints, simp)+

lemma computeImage_allocation_failure:
  assumes grow: "dataSize (pRaw s)
           < getInfo_totalBytes env ((pRaw s)\<lparr>dataType := getIntegerParam s ADDataType\<rparr>)"
    and fail: "\<not> mallocSucceeds env"
  shows "computeImage m env s =
     Inr (asynError, asynPrint ''error allocating raw buffer''
       ((fixParameters s)\<lparr>pRaw := (pRaw s)\<lparr>dataType := getIntegerParam s ADDataType,
           pData := None,
           dataSize := getInfo_totalBytes env ((pRaw s)\<lparr>dataType := getIntegerParam s ADDataType\<rparr>)\<rparr>\<rparr>))"
proof -
  have dt: "getIntegerParam (fixParameters s) ADDataType = getIntegerParam s ADDataType"
    by (simp add: getIntegerParam_def fixParameters_other)
  from grow fail show ?thesis
    by (simp add: computeImage_def Let_def allocateBuffer_def dt fixParameters_fields
          asynError_neq)
qed

text \<open>
  Claim C5, as amended. If the raw buffer has to grow and the allocation fails, the frame
  build of that iteration is aborted with an allocation error after one log entry, no
  frame is delivered and the thread returns to the top of its loop. The current output
  frame, the frame counter, the reset and acquire flags, the floating parameters, the
  notifications, the events and the number of images remaining are unchanged. The
  integer parameters are the ones the geometry corrections left, and the raw buffer has
  lost its block: its representation is the requested one and its data pointer is null.
\<close>

theorem allocation_failure_aborts_build:
  assumes at_build: "pc s = Build"
    and grow: "dataSize (pRaw s)
           < getInfo_totalBytes env ((pRaw s)\<lparr>dataType := getIntegerParam s ADDataType\<rparr>)"
    and fail: "\<not> mallocSucceeds env"
  shows "\<exists>s'. computeImage m env s = Inr (asynError, s') \<and>
           simTask_step m env s = s'\<lparr>mutexTaken := False, pc := LoopTop\<rparr> \<and>
           errlog s' = errlog s @ [''error allocating raw buffer''] \<and>
           delivered s' = delivered s \<and> pArrays s' = pArrays s \<and>
           ints s' = ints (fixParameters s) \<and>
           getIntegerParam s' ADImageCounter = getIntegerParam s ADImageCounter \<and>
           getIntegerParam s' SimResetImage = getIntegerParam s SimResetImage \<and>
           getIntegerParam s' ADAcquire = getIntegerParam s ADAcquire \<and>
           doubles s' = doubles s \<and> notified s' = notified s \<and>
           imagesRemaining s' = imagesRemaining s \<and>
           startEventId s' = startEventId s \<and> stopEventId s' = stopEventId s \<and>
           pData (pRaw s') = None \<and> dataType (pRaw s') = getIntegerParam s ADDataType \<and>
           dims (pRaw s') = dims (pRaw s)"
proof -
  note b = computeImage_allocation_failure [OF grow fail, of m]
  show ?thesis
    by (rule exI, rule conjI, rule b)
      (simp add: simTask_step_def at_build b asynError_neq asynPrint_def
         fixParameters_fields getIntegerParam_def fixParameters_other)
qed

text \<open>The widened detector with no memory left.\<close>

theorem allocation_failure_aborts_build_witness:
  "pc widened = Build \<and>
   dataSize (pRaw widened)
     < getInfo_totalBytes exhausted ((pRaw widened)\<lparr>dataType := getIntegerParam widened ADDataType\<rparr>) \<and>
   \<not> mallocSucceeds exhausted \<and>
   (\<exists>s'. computeImage ieee exhausted widened = Inr (asynError, s') \<and>
         simTask_step ieee exhausted widened = s'\<lparr>mutexTaken := False, pc := LoopTop\<rparr> \<and>
         delivered s' = delivered widened \<and> pArrays s' = pArrays widened \<and>
         pData (pRaw s') = None)"
proof -
  have a: "pc widened = Build" by code_simp
  have g: "dataSize (pRaw widened)
     < getInfo_totalBytes exhausted ((pRaw widened)\<lparr>dataType := getIntegerParam widened ADDataType\<rparr>)"
    by code_simp
  have f: "\<not> mallocSucceeds exhausted" by code_simp
  from allocation_failure_aborts_build [OF a g f, of ieee] a g f show ?thesis by blast
qed

text \<open>
  Claim C5 as stated, with no state modified and the raw buffer unchanged, fails: the
  widened detector held the four samples of its first frame in a block of 4 bytes, and
  after the failed build its data pointer is null, its capacity reads 32 bytes and its
  representation is 64-bit float.
\<close>

theorem allocation_failure_changes_raw_buffer_counterexample:
  "pData (pRaw widened) = Some (Cells8 [0, 1, 1, 2]) \<and> dataSize (pRaw widened) = 4 \<and>
   dataType (pRaw widened) = 1 \<and>
   (case computeImage ieee exhausted widened of
      Inr (st, s') \<Rightarrow> st = asynError \<and> pData (pRaw s') = None \<and> dataSize (pRaw s') = 32 \<and>
                      dataType (pRaw s') = 7
    | Inl f \<Rightarrow> False)"
  by code_simp

text \<open>
  Claim C10. If growing the raw buffer fails, \<open>allocateBuffer\<close> returns the error with
  \<open>dataSize\<close> already set to the requested byte count and the data pointer null. A
  following call that requires the same or a smaller byte count takes the branch that
  does not grow: it returns success and leaves the state, null pointer included, as it
  is. Synthesis at any of the eight representations with at least one sample to write
  then writes through the null pointer.
\<close>

theorem failed_grow_leaves_null_pointer:
  assumes grow: "dataSize (pRaw s) < getInfo_totalBytes env (pRaw s)"
    and fail: "\<not> mallocSucceeds env"
  shows "fst (allocateBuffer env s) = asynError \<and>
         dataSize (pRaw (snd (allocateBuffer env s))) = getInfo_totalBytes env (pRaw s) \<and>
         pData (pRaw (snd (allocateBuffer env s))) = None \<and>
         (\<forall>env'. getInfo_totalBytes env' (pRaw (snd (allocateBuffer env s)))
                    \<le> getInfo_totalBytes env (pRaw s) \<longrightarrow>
                 allocateBuffer env' (snd (allocateBuffer env s))
                   = (asynSuccess, snd (allocateBuffer env s))) \<and>
         (\<forall>dt t mx my. NDDataType_of dt = Some t \<longrightarrow> loopCount my * loopCount mx \<noteq> 0 \<longrightarrow>
                 synthesize m dt mx my (snd (allocateBuffer env s)) = Inl NullPointerWrite)"
proof -
  let ?s1 = "s\<lparr>pRaw := (pRaw s)\<lparr>pData := None, dataSize := getInfo_totalBytes env (pRaw s)\<rparr>\<rparr>"
  from grow fail have a: "allocateBuffer env s = (asynError, ?s1)"
    by (simp add: allocateBuffer_def Let_def)
  have again: "allocateBuffer env' ?s1 = (asynSuccess, ?s1)"
    if "getInfo_totalBytes env' (pRaw ?s1) \<le> getInfo_totalBytes env (pRaw s)" for env'
    using that by (intro allocateBuffer_no_grow) simp
  have null: "synthesize m dt mx my ?s1 = Inl NullPointerWrite"
    if "NDDataType_of dt = Some t" "loopCount my * loopCount mx \<noteq> 0" for dt t mx my
    using that by (cases t) (simp_all add: synthesize_def computeArray_def Let_def)
  from again null show ?thesis unfolding a by simp
qed

text \<open>
  The widened detector: after the failed build the thread reaches the next build with
  memory available again, and crashes there.
\<close>

theorem failed_grow_leaves_null_pointer_witness:
  "dataSize (pRaw widenedRaw) < getInfo_totalBytes exhausted (pRaw widenedRaw) \<and>
   \<not> mallocSucceeds exhausted \<and>
   fst (allocateBuffer exhausted widenedRaw) = asynError \<and>
   dataSize (pRaw (snd (allocateBuffer exhausted widenedRaw))) = 32 \<and>
   pData (pRaw (snd (allocateBuffer exhausted widenedRaw))) = None \<and>
   getInfo_totalBytes calm (pRaw (snd (allocateBuffer exhausted widenedRaw)))
     \<le> getInfo_totalBytes exhausted (pRaw widenedRaw) \<and>
   allocateBuffer calm (snd (allocateBuffer exhausted widenedRaw))
     = (asynSuccess, snd (allocateBuffer exhausted widenedRaw)) \<and>
   NDDataType_of 7 = Some NDFloat64 \<and> loopCount 2 * loopCount 2 \<noteq> 0 \<and>
   synthesize ieee 7 2 2 (snd (allocateBuffer exhausted widenedRaw)) = Inl NullPointerWrite \<and>
   pc (simTask ieee [exhausted, calm, calm, calm] widened) = Crashed"
proof -
  have g: "dataSize (pRaw widenedRaw) < getInfo_totalBytes exhausted (pRaw widenedRaw)"
    by code_simp
  have f: "\<not> mallocSucceeds exhausted" by code_simp
  have n: "getInfo_totalBytes exhausted (pRaw widenedRaw) = 32" by code_simp
  have le: "getInfo_totalBytes calm (pRaw (snd (allocateBuffer exhausted widenedRaw)))
     \<le> getInfo_totalBytes exhausted (pRaw widenedRaw)" by code_simp
  have t: "NDDataType_of 7 = Some NDFloat64" by code_simp
  have c: "loopCount 2 * loopCount 2 \<noteq> 0" by code_simp
  have crash: "pc (simTask ieee [exhausted, calm, calm, calm] widened) = Crashed" by code_simp
  from failed_grow_leaves_null_pointer [OF g f, of ieee] g f n le t c crash
  show ?thesis by simp
qed

subsection \<open>Unsupported numeric representation\<close>

lemma dimsOut_cong: "ints s' = ints s \<Longrightarrow> dimsOut s' = dimsOut s"
  by (simp add: dimsOut_def getIntegerParam_def)

text \<open>
  Claim C6, as amended. For a numeric representation outside the eight kinds the synthesis
  step does nothing. For such a representation \<^verbatim>\<open>getInfo\<close> leaves the byte count
  unwritten; where the value found there does not exceed the raw buffer's capacity, the
  frame build succeeds with the raw buffer's content as it was. The pool's conversion
  is applied to that buffer with the corrected size, offset and binning and the
  reversal flag of each axis; where it yields a frame, the frame is published as the
  current output frame and, stamped with the incremented frame counter and the start
  time, is delivered by the thread's next two steps.
\<close>

theorem unsupported_representation_delivers_stale_buffer:
  assumes at_build: "pc s = Build"
    and unsup: "NDDataType_of (getIntegerParam s ADDataType) = None"
    and fits: "unwrittenTotalBytes env \<le> dataSize (pRaw s)"
    and conv: "convert env ((pRaw s)\<lparr>dataType := getIntegerParam s ADDataType\<rparr>)
                 (getIntegerParam s ADDataType)
                 (\<lparr>dimSize = getIntegerParam (fixParameters s) ADSizeX,
                   dimOffset = getIntegerParam (fixParameters s) ADMinX,
                   dimBinning = getIntegerParam (fixParameters s) ADBinX,
                   dimReverse = getIntegerParam s ADReverseX\<rparr>,
                  \<lparr>dimSize = getIntegerParam (fixParameters s) ADSizeY,
                   dimOffset = getIntegerParam (fixParameters s) ADMinY,
                   dimBinning = getIntegerParam (fixParameters s) ADBinY,
                   dimReverse = getIntegerParam s ADReverseY\<rparr>) = Some pImage"
  shows "(\<forall>mx my x. synthesize m (getIntegerParam s ADDataType) mx my x = Inr x) \<and>
         (\<exists>s'. computeImage m env s = Inr (asynSuccess, s') \<and>
               pData (pRaw s') = pData (pRaw s) \<and> dataSize (pRaw s') = dataSize (pRaw s) \<and>
               pArrays s' = Some pImage) \<and>
         delivered (simTask m [env, env'] s)
           = delivered s @ [pImage\<lparr>uniqueId := getIntegerParam s ADImageCounter + 1,
                                   timeStamp := startTime s\<rparr>]"
proof -
  let ?dt = "getIntegerParam s ADDataType"
  let ?s2 = "(fixParameters s)\<lparr>pRaw := (pRaw s)\<lparr>dataType := ?dt\<rparr>\<rparr>"
  let ?s' = "setIntegerParam SimResetImage 0
               (setIntegerParam ADImageSizeY (of_nat (snd (dims pImage)))
                  (setIntegerParam ADImageSizeX (of_nat (fst (dims pImage)))
                     (setIntegerParam ADImageSize (of_nat (getInfo_totalBytes env pImage))
                        (?s2\<lparr>pArrays := Some pImage\<rparr>))))"
  have noop: "synthesize m ?dt mx my x = Inr x" for mx my x
    by (simp add: synthesize_def unsup)
  have dt: "getIntegerParam (fixParameters s) ADDataType = ?dt"
    by (simp add: getIntegerParam_def fixParameters_other)
  have rev: "getIntegerParam (fixParameters s) ADReverseX = getIntegerParam s ADReverseX"
    "getIntegerParam (fixParameters s) ADReverseY = getIntegerParam s ADReverseY"
    by (simp_all add: getIntegerParam_def fixParameters_other)
  from unsup fits have al: "allocateBuffer env ?s2 = (asynSuccess, ?s2)"
    by (intro allocateBuffer_no_grow) (simp add: getInfo_totalBytes_def)
  have "dimsOut ?s2 = dimsOut (fixParameters s)" by (rule dimsOut_cong) simp
  with conv have cv: "convert env ((pRaw s)\<lparr>dataType := ?dt\<rparr>) ?dt (dimsOut ?s2) = Some pImage"
    by (simp add: dimsOut_def rev)
  have build: "computeImage m env s = Inr (asynSuccess, ?s')"
    by (simp add: computeImage_def Let_def dt fixParameters_fields al noop cv
          asynError_neq)
  have cnt: "getIntegerParam ?s' ADImageCounter = getIntegerParam s ADImageCounter"
    by (simp add: getIntegerParam_def setIntegerParam_def fixParameters_other)
  have step1: "simTask_step m env s = stampImage env ?s'"
    by (simp add: simTask_step_def at_build build asynError_neq)
  have "delivered (simTask_step m env' (stampImage env ?s'))
          = delivered s @ [pImage\<lparr>uniqueId := getIntegerParam s ADImageCounter + 1,
                                   timeStamp := startTime s\<rparr>]"
    by (simp add: stampImage_def Let_def simTask_step_def setIntegerParam_def
          getIntegerParam_def fixParameters_fields fixParameters_other)
  with step1 have del: "delivered (simTask m [env, env'] s)
          = delivered s @ [pImage\<lparr>uniqueId := getIntegerParam s ADImageCounter + 1,
                                   timeStamp := startTime s\<rparr>]"
    by (simp add: simTask_def)
  have "pData (pRaw ?s') = pData (pRaw s) \<and> dataSize (pRaw ?s') = dataSize (pRaw s) \<and>
        pArrays ?s' = Some pImage"
    by (simp add: setIntegerParam_def)
  with build have "\<exists>s'. computeImage m env s = Inr (asynSuccess, s') \<and>
               pData (pRaw s') = pData (pRaw s) \<and> dataSize (pRaw s') = dataSize (pRaw s) \<and>
               pArrays s' = Some pImage" by blast
  with noop del show ?thesis by blast
qed

text \<open>
  The detector with representation 8 delivers the samples of its first frame again; the
  conversion is asked for the full frame of 2 by 2 samples with binning 1.
\<close>

theorem unsupported_representation_delivers_stale_buffer_witness:
  "pc unsupported = Build \<and>
   NDDataType_of (getIntegerParam unsupported ADDataType) = None \<and>
   unwrittenTotalBytes fullFrame \<le> dataSize (pRaw unsupported) \<and>
   convert fullFrame ((pRaw unsupported)\<lparr>dataType := getIntegerParam unsupported ADDataType\<rparr>)
     (getIntegerParam unsupported ADDataType)
     (\<lparr>dimSize = getIntegerParam (fixParameters unsupported) ADSizeX,
       dimOffset = getIntegerParam (fixParameters unsupported) ADMinX,
       dimBinning = getIntegerParam (fixParameters unsupported) ADBinX,
       dimReverse = getIntegerParam unsupported ADReverseX\<rparr>,
      \<lparr>dimSize = getIntegerParam (fixParameters unsupported) ADSizeY,
       dimOffset = getIntegerParam (fixParameters unsupported) ADMinY,
       dimBinning = getIntegerParam (fixParameters unsupported) ADBinY,
       dimReverse = getIntegerParam unsupported ADReverseY\<rparr>)
     = Some ((pRaw unsupported)\<lparr>dataType := 8\<rparr>) \<and>
   getIntegerParam (fixParameters unsupported) ADSizeX = 2 \<and>
   getIntegerParam (fixParameters unsupported) ADMinX = 0 \<and>
   getIntegerParam (fixParameters unsupported) ADBinX = 1 \<and>
   getIntegerParam (fixParameters unsupported) ADSizeY = 2 \<and>
   getIntegerParam (fixParameters unsupported) ADMinY = 0 \<and>
   getIntegerParam (fixParameters unsupported) ADBinY = 1 \<and>
   pData (pRaw unsupported) = Some (Cells8 [0, 1, 1, 2]) \<and>
   (\<exists>s'. computeImage ieee fullFrame unsupported = Inr (asynSuccess, s') \<and>
         pData (pRaw s') = pData (pRaw unsupported)) \<and>
   delivered (simTask ieee [fullFrame, calm] unsupported)
     = delivered unsupported
       @ [(pRaw unsupported)\<lparr>dataType := 8, uniqueId := getIntegerParam unsupported ADImageCounter + 1,
                               timeStamp := startTime unsupported\<rparr>]"
proof -
  have a: "pc unsupported = Build" by code_simp
  have u: "NDDataType_of (getIntegerParam unsupported ADDataType) = None" by code_simp
  have f: "unwrittenTotalBytes fullFrame \<le> dataSize (pRaw unsupported)" by code_simp
  have c: "convert fullFrame ((pRaw unsupported)\<lparr>dataType := getIntegerParam unsupported ADDataType\<rparr>)
     (getIntegerParam unsupported ADDataType)
     (\<lparr>dimSize = getIntegerParam (fixParameters unsupported) ADSizeX,
       dimOffset = getIntegerParam (fixParameters unsupported) ADMinX,
       dimBinning = getIntegerParam (fixParameters unsupported) ADBinX,
       dimReverse = getIntegerParam unsupported ADReverseX\<rparr>,
      \<lparr>dimSize = getIntegerParam (fixParameters unsupported) ADSizeY,
       dimOffset = getIntegerParam (fixParameters unsupported) ADMinY,
       dimBinning = getIntegerParam (fixParameters unsupported) ADBinY,
       dimReverse = getIntegerParam unsupported ADReverseY\<rparr>)
     = Some ((pRaw unsupported)\<lparr>dataType := 8\<rparr>)"
    by code_simp
  have d: "pData (pRaw unsupported) = Some (Cells8 [0, 1, 1, 2])" by code_simp
  have g: "getIntegerParam (fixParameters unsupported) ADSizeX = 2"
    "getIntegerParam (fixParameters unsupported) ADMinX = 0"
    "getIntegerParam (fixParameters unsupported) ADBinX = 1"
    "getIntegerParam (fixParameters unsupported) ADSizeY = 2"
    "getIntegerParam (fixParameters unsupported) ADMinY = 0"
    "getIntegerParam (fixParameters unsupported) ADBinY = 1"
    by code_simp+
  from unsupported_representation_delivers_stale_buffer [OF a u f c, of ieee calm] a u f c d g
  show ?thesis by auto
qed

text \<open>
  Claim C6 as stated fails where the unwritten byte count exceeds the capacity of the
  raw buffer: with 1000 found there, the buffer of 4 bytes holding the first frame is
  replaced by a fresh block of 1000 bytes, and that block, not the stale content, is
  converted and delivered; where \<^verbatim>\<open>malloc\<close> then fails, the content is lost as
  well and nothing is delivered.
\<close>

theorem unsupported_representation_replaces_buffer_counterexample:
  "pc unsupported = Build \<and>
   NDDataType_of (getIntegerParam unsupported ADDataType) = None \<and>
   pData (pRaw unsupported) = Some (Cells8 [0, 1, 1, 2]) \<and>
   dataSize (pRaw unsupported) = 4 \<and>
   map pData (delivered unsupported) = [Some (Cells8 [0, 1, 1, 2])] \<and>
   pData (pRaw (simTask ieee [garbage] unsupported)) = Some (Uninit 1000) \<and>
   map pData (delivered (simTask ieee [garbage, calm] unsupported))
     = [Some (Cells8 [0, 1, 1, 2]), Some (Uninit 1000)] \<and>
   pData (pRaw (simTask ieee [garbage\<lparr>mallocSucceeds := False\<rparr>] unsupported)) = None \<and>
   map pData (delivered (simTask ieee [garbage\<lparr>mallocSucceeds := False\<rparr>, calm] unsupported))
     = [Some (Cells8 [0, 1, 1, 2])]"
  by code_simp

section \<open>Properties of the control interface\<close>

text \<open>
  Claim C8. A write of \<open>binX\<close>, \<open>binY\<close>, \<open>minX\<close>, \<open>minY\<close>, \<open>sizeX\<close>, \<open>sizeY\<close> or
  the numeric representation through \<open>writeInt32\<close>, and a write of the exposure time,
  gain, \<open>gainX\<close> or \<open>gainY\<close> through \<open>writeFloat64\<close>, succeeds, stores the written
  value and sets the reset flag, and only then notifies the observers: the one
  notification it adds shows the store with the written value and the reset flag set.
\<close>

theorem write_sets_reset_before_notifying:
  "(function \<in> {ADBinX, ADBinY, ADMinX, ADMinY, ADSizeX, ADSizeY, ADDataType} \<longrightarrow>
      fst (writeInt32 function value s) = asynSuccess \<and>
      getIntegerParam (snd (writeInt32 function value s)) function = value \<and>
      getIntegerParam (snd (writeInt32 function value s)) SimResetImage = 1 \<and>
      notified (snd (writeInt32 function value s))
        = notified s @ [(ints (snd (writeInt32 function value s)),
                         doubles (snd (writeInt32 function value s)))]) \<and>
   (function \<in> {ADAcquireTime, ADGain, SimGainX, SimGainY} \<longrightarrow>
      fst (writeFloat64 function v s) = asynSuccess \<and>
      getDoubleParam (snd (writeFloat64 function v s)) function = v \<and>
      getIntegerParam (snd (writeFloat64 function v s)) SimResetImage = 1 \<and>
      notified (snd (writeFloat64 function v s))
        = notified s @ [(ints (snd (writeFloat64 function v s)),
                         doubles (snd (writeFloat64 function v s)))])"
  by (auto simp: writeInt32_def writeFloat64_def Let_def setIntegerParam_def setDoubleParam_def
        getIntegerParam_def getDoubleParam_def callParamCallbacks_def)

text \<open>Writes of \<open>sizeX\<close> and \<open>gainX\<close> after a first frame, which had cleared the flag.\<close>

theorem write_sets_reset_before_notifying_witness:
  "ADSizeX \<in> {ADBinX, ADBinY, ADMinX, ADMinY, ADSizeX, ADSizeY, ADDataType} \<and>
   getIntegerParam firstFrame SimResetImage = 0 \<and>
   getIntegerParam (snd (writeInt32 ADSizeX 1 firstFrame)) ADSizeX = 1 \<and>
   getIntegerParam (snd (writeInt32 ADSizeX 1 firstFrame)) SimResetImage = 1 \<and>
   notified (snd (writeInt32 ADSizeX 1 firstFrame))
     = notified firstFrame @ [(ints (snd (writeInt32 ADSizeX 1 firstFrame)),
                               doubles (snd (writeInt32 ADSizeX 1 firstFrame)))] \<and>
   SimGainX \<in> {ADAcquireTime, ADGain, SimGainX, SimGainY} \<and>
   getDoubleParam (snd (writeFloat64 SimGainX tenth firstFrame)) SimGainX = tenth \<and>
   getIntegerParam (snd (writeFloat64 SimGainX tenth firstFrame)) SimResetImage = 1 \<and>
   notified (snd (writeFloat64 SimGainX tenth firstFrame))
     = notified firstFrame @ [(ints (snd (writeFloat64 SimGainX tenth firstFrame)),
                               doubles (snd (writeFloat64 SimGainX tenth firstFrame)))]"
proof -
  have r: "getIntegerParam firstFrame SimResetImage = 0" by code_simp
  from write_sets_reset_before_notifying [of ADSizeX 1 firstFrame]
    write_sets_reset_before_notifying [of SimGainX _ firstFrame tenth] r
  show ?thesis by simp
qed

section \<open>Properties of the acquisition controller\<close>

subsection \<open>A frame build on a ready buffer succeeds\<close>

lemma computeArray_ready:
  assumes d: "pData (pRaw s) = Some d" and len: "loopCount my * loopCount mx \<le> length (cells T d)"
    and ct: "\<And>xs. cells T (block T xs) = xs"
  shows "\<exists>d'. computeArray m T mx my s = Inr (s\<lparr>pRaw := (pRaw s)\<lparr>pData := Some d'\<rparr>\<rparr>) \<and>
              length (cells T d') = length (cells T d)"
proof (cases "loopCount my * loopCount mx = 0")
  case True
  with d have "computeArray m T mx my s = Inr (s\<lparr>pRaw := (pRaw s)\<lparr>pData := Some d\<rparr>\<rparr>)"
    by (simp add: computeArray_def Let_def)
  then show ?thesis by blast
next
  case False
  let ?n = "loopCount my * loopCount mx"
  let ?reset = "resetRows m T (getDoubleParam s SimGainX) (getDoubleParam s SimGainY)
      (increment m T s) (loopCount mx) (loopCount my) (dzero m) @ drop ?n (cells T d)"
  let ?acc = "map (\<lambda>x. plusAssign T x (increment m T s)) (take ?n (cells T d))
      @ drop ?n (cells T d)"
  let ?ys = "if getIntegerParam s SimResetImage \<noteq> 0 then ?reset else ?acc"
  from False d len have
    "computeArray m T mx my s = Inr (s\<lparr>pRaw := (pRaw s)\<lparr>pData := Some (block T ?ys)\<rparr>\<rparr>)"
    by (simp add: computeArray_def Let_def)
  moreover from len have "length (cells T (block T ?ys)) = length (cells T d)"
    by (simp add: ct length_resetRows)
  ultimately show ?thesis by blast
qed

lemma synthesize_ready:
  assumes t: "NDDataType_of dt = Some t" and d: "pData (pRaw s) = Some d"
    and len: "loopCount my * loopCount mx \<le> cellCount m t d"
  shows "\<exists>d'. synthesize m dt mx my s = Inr (s\<lparr>pRaw := (pRaw s)\<lparr>pData := Some d'\<rparr>\<rparr>) \<and>
              cellCount m t d' = cellCount m t d"
proof (cases t)
  case NDInt8
  with len computeArray_ready [OF d _ cells_block(1), of my mx m m] t show ?thesis
    by (simp add: synthesize_def epicsInt8_def)
next
  case NDUInt8
  with len computeArray_ready [OF d _ cells_block(2), of my mx m m] t show ?thesis
    by (simp add: synthesize_def epicsUInt8_def)
next
  case NDInt16
  with len computeArray_ready [OF d _ cells_block(3), of my mx m m] t show ?thesis
    by (simp add: synthesize_def epicsInt16_def)
next
  case NDUInt16
  with len computeArray_ready [OF d _ cells_block(4), of my mx m m] t show ?thesis
    by (simp add: synthesize_def epicsUInt16_def)
next
  case NDInt32
  with len computeArray_ready [OF d _ cells_block(5), of my mx m m] t show ?thesis
    by (simp add: synthesize_def epicsInt32_def)
next
  case NDUInt32
  with len computeArray_ready [OF d _ cells_block(6), of my mx m m] t show ?thesis
    by (simp add: synthesize_def epicsUInt32_def)
next
  case NDFloat32
  with len computeArray_ready [OF d _ cells_block(7), of my mx m m] t show ?thesis
    by (simp add: synthesize_def epicsFloat32_def)
next
  case NDFloat64
  with len computeArray_ready [OF d _ cells_block(8), of my mx m m] t show ?thesis
    by (simp add: synthesize_def epicsFloat64_def)
qed

lemma rawReady_cong:
  assumes "pRaw s' = pRaw s" "ints s' ADDataType = ints s ADDataType"
    "ints s' ADMaxSizeX = ints s ADMaxSizeX" "ints s' ADMaxSizeY = ints s ADMaxSizeY"
  shows "rawReady m s' = rawReady m s"
  using assms
  by (simp add: rawReady_def frameCells_def getIntegerParam_def cong: option.case_cong)

lemma build_ok:
  assumes ready: "rawReady m s" and good: "convertSucceeds env"
  shows "\<exists>s' pImage. computeImage m env s = Inr (asynSuccess, s') \<and> rawReady m s' \<and>
           pArrays s' = Some pImage \<and>
           (\<forall>p. p \<notin> {ADBinX, ADBinY, ADMinX, ADMinY, ADSizeX, ADSizeY,
                       ADImageSize, ADImageSizeX, ADImageSizeY, SimResetImage}
                 \<longrightarrow> ints s' p = ints s p) \<and>
           doubles s' = doubles s \<and> notified s' = notified s \<and>
           imagesRemaining s' = imagesRemaining s \<and> startEventId s' = startEventId s \<and>
           stopEventId s' = stopEventId s \<and> delivered s' = delivered s \<and>
           errlog s' = errlog s \<and> mutexTaken s' = mutexTaken s \<and> pc s' = pc s \<and>
           acquiring s' = acquiring s \<and> acquireTime s' = acquireTime s \<and>
           acquirePeriod s' = acquirePeriod s \<and> startTime s' = startTime s \<and>
           elapsedTime s' = elapsedTime s"
proof -
  let ?dt = "getIntegerParam s ADDataType"
  let ?mx = "getIntegerParam s ADMaxSizeX" and ?my = "getIntegerParam s ADMaxSizeY"
  from ready obtain t d where t: "NDDataType_of ?dt = Some t"
    and cap: "fst (dims (pRaw s)) * snd (dims (pRaw s)) * bytesPerElement t \<le> dataSize (pRaw s)"
    and d: "pData (pRaw s) = Some d" and len: "frameCells s \<le> cellCount m t d"
    by (auto simp: rawReady_def split: option.splits)
  let ?s2 = "(fixParameters s)\<lparr>pRaw := (pRaw s)\<lparr>dataType := ?dt\<rparr>\<rparr>"
  have par: "getIntegerParam (fixParameters s) ADDataType = ?dt"
    "getIntegerParam (fixParameters s) ADMaxSizeX = ?mx"
    "getIntegerParam (fixParameters s) ADMaxSizeY = ?my"
    by (simp_all add: getIntegerParam_def fixParameters_other)
  from t cap have al: "allocateBuffer env ?s2 = (asynSuccess, ?s2)"
    by (intro allocateBuffer_no_grow) (simp add: getInfo_totalBytes_def)
  from d have d2: "pData (pRaw ?s2) = Some d" by simp
  from len have len2: "loopCount ?my * loopCount ?mx \<le> cellCount m t d"
    by (simp add: frameCells_def)
  from synthesize_ready [OF t d2 len2] obtain d' where
    sy: "synthesize m ?dt ?mx ?my ?s2 = Inr (?s2\<lparr>pRaw := (pRaw ?s2)\<lparr>pData := Some d'\<rparr>\<rparr>)"
    and d': "cellCount m t d' = cellCount m t d" by blast
  let ?s4 = "?s2\<lparr>pRaw := (pRaw ?s2)\<lparr>pData := Some d'\<rparr>\<rparr>"
  from good obtain pImage where cv: "convert env (pRaw ?s4) ?dt (dimsOut ?s4) = Some pImage"
    unfolding convertSucceeds_def by (metis not_None_eq)
  let ?s' = "setIntegerParam SimResetImage 0
               (setIntegerParam ADImageSizeY (of_nat (snd (dims pImage)))
                  (setIntegerParam ADImageSizeX (of_nat (fst (dims pImage)))
                     (setIntegerParam ADImageSize (of_nat (getInfo_totalBytes env pImage))
                        (?s4\<lparr>pArrays := Some pImage\<rparr>))))"
  have build: "computeImage m env s = Inr (asynSuccess, ?s')"
    using cv by (simp add: computeImage_def Let_def par fixParameters_fields al sy asynError_neq)
  have ints': "ints ?s' p = ints s p"
    if "p \<notin> {ADBinX, ADBinY, ADMinX, ADMinY, ADSizeX, ADSizeY,
                ADImageSize, ADImageSizeX, ADImageSizeY, SimResetImage}" for p
    using that by (simp add: setIntegerParam_def fixParameters_other)
  have "rawReady m ?s'"
    using t cap len d'
    by (simp add: rawReady_def frameCells_def getIntegerParam_def setIntegerParam_def
          fixParameters_other)
  moreover have "pArrays ?s' = Some pImage" by (simp add: setIntegerParam_def)
  moreover have "doubles ?s' = doubles s \<and> notified ?s' = notified s \<and>
           imagesRemaining ?s' = imagesRemaining s \<and> startEventId ?s' = startEventId s \<and>
           stopEventId ?s' = stopEventId s \<and> delivered ?s' = delivered s \<and>
           errlog ?s' = errlog s \<and> mutexTaken ?s' = mutexTaken s \<and> pc ?s' = pc s \<and>
           acquiring ?s' = acquiring s \<and> acquireTime ?s' = acquireTime s \<and>
           acquirePeriod ?s' = acquirePeriod s \<and> startTime ?s' = startTime s \<and>
           elapsedTime ?s' = elapsedTime s"
    by (simp add: setIntegerParam_def fixParameters_fields)
  ultimately show ?thesis using build ints' by blast
qed

subsection \<open>The steps of one iteration\<close>

lemma status_values:
  "ADStatusAcquire \<noteq> (0::epicsInt32)" "ADStatusIdle = (0::epicsInt32)"
  "ADStatusReadout \<noteq> (0::epicsInt32)"
  by (simp_all add: ADStatusAcquire_def ADStatusIdle_def ADStatusReadout_def)

lemma step_start:
  assumes "producing s"
  shows "pc (simTask_step m env s) = Exposure \<and>
         ints (simTask_step m env s) = (ints s)(ADStatus := ADStatusAcquire) \<and>
         pRaw (simTask_step m env s) = pRaw s \<and>
         imagesRemaining (simTask_step m env s) = imagesRemaining s \<and>
         delivered (simTask_step m env s) = delivered s \<and>
         acquiring (simTask_step m env s) = ADStatusAcquire \<and>
         \<not> startEventId (simTask_step m env s)"
  using assms
  by (auto simp: producing_def simTask_step_def beginExposure_def Let_def
        callParamCallbacks_def setIntegerParam_def getIntegerParam_def)

lemma step_exposure:
  assumes "pc s = Exposure"
  shows "pc (simTask_step m env s) = Build \<and> ints (simTask_step m env s) = ints s \<and>
         pRaw (simTask_step m env s) = pRaw s \<and>
         imagesRemaining (simTask_step m env s) = imagesRemaining s \<and>
         delivered (simTask_step m env s) = delivered s \<and>
         acquiring (simTask_step m env s) = acquiring s \<and>
         startEventId (simTask_step m env s) = startEventId s \<and>
         \<not> stopEventId (simTask_step m env s) = (\<not> mutexTaken s \<or> \<not> stopEventId s)"
  using assms by (auto simp: simTask_step_def)

lemma step_build:
  assumes "pc s = Build" and ready: "rawReady m s" and good: "convertSucceeds env"
  shows "\<exists>frame. pc (simTask_step m env s) = Deliver \<and>
         pArrays (simTask_step m env s) = Some frame \<and>
         rawReady m (simTask_step m env s) \<and>
         ints (simTask_step m env s) ADAcquire = ints s ADAcquire \<and>
         imagesRemaining (simTask_step m env s) = imagesRemaining s \<and>
         delivered (simTask_step m env s) = delivered s \<and>
         acquiring (simTask_step m env s) = acquiring s \<and>
         startEventId (simTask_step m env s) = startEventId s \<and>
         stopEventId (simTask_step m env s) = stopEventId s"
proof -
  from build_ok [OF ready good] obtain s' pImage where
    b: "computeImage m env s = Inr (asynSuccess, s')" and r: "rawReady m s'"
    and p: "pArrays s' = Some pImage"
    and i: "\<And>p. p \<notin> {ADBinX, ADBinY, ADMinX, ADMinY, ADSizeX, ADSizeY,
                       ADImageSize, ADImageSizeX, ADImageSizeY, SimResetImage}
                 \<Longrightarrow> ints s' p = ints s p"
    and f: "imagesRemaining s' = imagesRemaining s" "startEventId s' = startEventId s"
      "stopEventId s' = stopEventId s" "delivered s' = delivered s" "acquiring s' = acquiring s"
    by blast
  have step: "simTask_step m env s = stampImage env s'"
    using assms(1) b by (simp add: simTask_step_def asynError_neq)
  have "rawReady m (stampImage env s') = rawReady m s'"
    by (rule rawReady_cong) (simp_all add: stampImage_def p Let_def setIntegerParam_def)
  with r p i [of ADAcquire] f show ?thesis unfolding step
    by (simp add: stampImage_def Let_def setIntegerParam_def)
qed

lemma step_deliver:
  assumes "pc s = Deliver" "pArrays s = Some frame"
  shows "pc (simTask_step m env s) = Account \<and> ints (simTask_step m env s) = ints s \<and>
         pRaw (simTask_step m env s) = pRaw s \<and>
         imagesRemaining (simTask_step m env s) = imagesRemaining s \<and>
         delivered (simTask_step m env s) = delivered s @ [frame] \<and>
         acquiring (simTask_step m env s) = acquiring s \<and>
         startEventId (simTask_step m env s) = startEventId s"
  using assms by (simp add: simTask_step_def)

lemma step_account:
  assumes "pc s = Account" "acquiring s = ADStatusAcquire"
  shows "imagesRemaining (simTask_step m env s) = countedDown (imagesRemaining s) \<and>
         pRaw (simTask_step m env s) = pRaw s \<and>
         delivered (simTask_step m env s) = delivered s \<and>
         startEventId (simTask_step m env s) = startEventId s \<and>
         ints (simTask_step m env s) ADDataType = ints s ADDataType \<and>
         ints (simTask_step m env s) ADMaxSizeX = ints s ADMaxSizeX \<and>
         ints (simTask_step m env s) ADMaxSizeY = ints s ADMaxSizeY \<and>
         (countedDown (imagesRemaining s) \<noteq> 0 \<longrightarrow>
            pc (simTask_step m env s) = Readout \<and>
            ints (simTask_step m env s) ADAcquire = ints s ADAcquire) \<and>
         (countedDown (imagesRemaining s) = 0 \<longrightarrow>
            pc (simTask_step m env s) = LoopTop \<and> ints (simTask_step m env s) ADAcquire = 0)"
  using assms
  by (simp add: simTask_step_def accountImage_def Let_def countedDown_def status_values
        callParamCallbacks_def setIntegerParam_def)

lemma step_readout:
  assumes "pc s = Readout"
  shows "pc (simTask_step m env s) = LoopTop \<and> ints (simTask_step m env s) = ints s \<and>
         pRaw (simTask_step m env s) = pRaw s \<and>
         imagesRemaining (simTask_step m env s) = imagesRemaining s \<and>
         delivered (simTask_step m env s) = delivered s \<and>
         startEventId (simTask_step m env s) = startEventId s"
  using assms by (simp add: simTask_step_def)

lemma step_idle:
  assumes "pc s = LoopTop" "ints s ADAcquire = 0"
  shows "pc (simTask_step m env s) = WaitStart \<and>
         ints (simTask_step m env s) = (ints s)(ADStatus := ADStatusIdle) \<and>
         pRaw (simTask_step m env s) = pRaw s \<and>
         imagesRemaining (simTask_step m env s) = imagesRemaining s \<and>
         delivered (simTask_step m env s) = delivered s \<and>
         startEventId (simTask_step m env s) = startEventId s \<and>
         \<not> mutexTaken (simTask_step m env s)"
  using assms
  by (simp add: simTask_step_def getIntegerParam_def setIntegerParam_def callParamCallbacks_def)

lemma step_blocked:
  assumes "pc s = WaitStart" "\<not> startEventId s"
  shows "simTask_step m env s = s"
  using assms by (simp add: simTask_step_def)

lemma simTask_blocked:
  assumes "pc s = WaitStart" "\<not> startEventId s"
  shows "simTask m envs s = s"
  using assms by (induction envs) (simp_all add: simTask_def step_blocked)

lemma simTask_append: "simTask m (xs @ ys) s = simTask m ys (simTask m xs s)"
  by (simp add: simTask_def)

lemma simTask_Cons: "simTask m (e # es) s = simTask m es (simTask_step m e s)"
  by (simp add: simTask_def)

lemma simTask_Nil: "simTask m [] s = s"
  by (simp add: simTask_def)

lemma iteration:
  assumes p: "producing s" and ready: "rawReady m s" and good: "convertSucceeds e3"
  shows "\<exists>frame. delivered (simTask m [e1, e2, e3, e4, e5, e6] s) = delivered s @ [frame] \<and>
           imagesRemaining (simTask m [e1, e2, e3, e4, e5, e6] s) = countedDown (imagesRemaining s) \<and>
           rawReady m (simTask m [e1, e2, e3, e4, e5, e6] s) \<and>
           \<not> startEventId (simTask m [e1, e2, e3, e4, e5, e6] s) \<and>
           (countedDown (imagesRemaining s) \<noteq> 0 \<longrightarrow>
              pc (simTask m [e1, e2, e3, e4, e5, e6] s) = LoopTop \<and>
              ints (simTask m [e1, e2, e3, e4, e5, e6] s) ADAcquire = ints s ADAcquire) \<and>
           (countedDown (imagesRemaining s) = 0 \<longrightarrow>
              pc (simTask m [e1, e2, e3, e4, e5, e6] s) = WaitStart \<and>
              ints (simTask m [e1, e2, e3, e4, e5, e6] s) ADAcquire = 0 \<and>
              ints (simTask m [e1, e2, e3, e4, e5, e6] s) ADStatus = ADStatusIdle \<and>
              \<not> mutexTaken (simTask m [e1, e2, e3, e4, e5, e6] s))"
proof -
  define s1 where "s1 = simTask_step m e1 s"
  define s2 where "s2 = simTask_step m e2 s1"
  define s3 where "s3 = simTask_step m e3 s2"
  define s4 where "s4 = simTask_step m e4 s3"
  define s5 where "s5 = simTask_step m e5 s4"
  define s6 where "s6 = simTask_step m e6 s5"
  have run: "simTask m [e1, e2, e3, e4, e5, e6] s = s6"
    by (simp add: simTask_def s1_def s2_def s3_def s4_def s5_def s6_def)
  from step_start [OF p, of m e1] have 1: "pc s1 = Exposure"
    "ints s1 = (ints s)(ADStatus := ADStatusAcquire)" "pRaw s1 = pRaw s"
    "imagesRemaining s1 = imagesRemaining s" "delivered s1 = delivered s"
    "acquiring s1 = ADStatusAcquire" "\<not> startEventId s1"
    by (simp_all add: s1_def)
  from step_exposure [OF 1(1), of m e2] 1 have 2: "pc s2 = Build"
    "ints s2 = (ints s)(ADStatus := ADStatusAcquire)" "pRaw s2 = pRaw s"
    "imagesRemaining s2 = imagesRemaining s" "delivered s2 = delivered s"
    "acquiring s2 = ADStatusAcquire" "\<not> startEventId s2"
    by (simp_all add: s2_def)
  have "rawReady m s2 = rawReady m s"
    by (rule rawReady_cong) (simp_all add: 2)
  with ready have r2: "rawReady m s2" by simp
  from step_build [OF 2(1) r2 good] 2 obtain frame where 3: "pc s3 = Deliver"
    "pArrays s3 = Some frame" "rawReady m s3" "ints s3 ADAcquire = ints s ADAcquire"
    "imagesRemaining s3 = imagesRemaining s" "delivered s3 = delivered s"
    "acquiring s3 = ADStatusAcquire" "\<not> startEventId s3"
    by (auto simp: s3_def)
  from step_deliver [OF 3(1,2), of m e4] 3 have 4: "pc s4 = Account" "ints s4 = ints s3"
    "pRaw s4 = pRaw s3" "imagesRemaining s4 = imagesRemaining s"
    "delivered s4 = delivered s @ [frame]" "acquiring s4 = ADStatusAcquire"
    "\<not> startEventId s4"
    by (simp_all add: s4_def)
  from step_account [OF 4(1) 4(6), of m e5] 4 3 have 5:
    "imagesRemaining s5 = countedDown (imagesRemaining s)" "pRaw s5 = pRaw s3"
    "delivered s5 = delivered s @ [frame]" "\<not> startEventId s5"
    "ints s5 ADDataType = ints s3 ADDataType" "ints s5 ADMaxSizeX = ints s3 ADMaxSizeX"
    "ints s5 ADMaxSizeY = ints s3 ADMaxSizeY"
    "countedDown (imagesRemaining s) \<noteq> 0 \<Longrightarrow> pc s5 = Readout \<and> ints s5 ADAcquire = ints s ADAcquire"
    "countedDown (imagesRemaining s) = 0 \<Longrightarrow> pc s5 = LoopTop \<and> ints s5 ADAcquire = 0"
    by (simp_all add: s5_def)
  have "rawReady m s5 = rawReady m s3"
    by (rule rawReady_cong) (simp_all add: 5)
  with 3 have r5: "rawReady m s5" by simp
  show ?thesis
  proof (cases "countedDown (imagesRemaining s) = 0")
    case False
    with 5 have pc5: "pc s5 = Readout" and a5: "ints s5 ADAcquire = ints s ADAcquire" by simp_all
    from step_readout [OF pc5, of m e6] have 6: "pc s6 = LoopTop" "ints s6 = ints s5"
      "pRaw s6 = pRaw s5" "imagesRemaining s6 = imagesRemaining s5"
      "delivered s6 = delivered s5" "startEventId s6 = startEventId s5"
      by (simp_all add: s6_def)
    have "rawReady m s6 = rawReady m s5"
      by (rule rawReady_cong) (simp_all add: 6)
    with r5 6 5 a5 False show ?thesis unfolding run by simp
  next
    case True
    with 5 have pc5: "pc s5 = LoopTop" and a5: "ints s5 ADAcquire = 0" by simp_all
    from step_idle [OF pc5 a5, of m e6] have 6: "pc s6 = WaitStart"
      "ints s6 = (ints s5)(ADStatus := ADStatusIdle)"
      "pRaw s6 = pRaw s5" "imagesRemaining s6 = imagesRemaining s5"
      "delivered s6 = delivered s5" "startEventId s6 = startEventId s5" "\<not> mutexTaken s6"
      by (simp_all add: s6_def)
    have "rawReady m s6 = rawReady m s5"
      by (rule rawReady_cong) (simp_all add: 6)
    with r5 6 5 a5 True show ?thesis unfolding run by simp
  qed
qed

subsection \<open>Counting down\<close>

lemma six_steps:
  assumes "length envs = 6 * Suc k"
  obtains e1 e2 e3 e4 e5 e6 rest where "envs = [e1, e2, e3, e4, e5, e6] @ rest"
    "length rest = 6 * k"
proof -
  from assms have "length envs = Suc (Suc (Suc (Suc (Suc (Suc (6 * k))))))" by simp
  then obtain e1 e2 e3 e4 e5 e6 rest where "envs = e1 # e2 # e3 # e4 # e5 # e6 # rest"
    "length rest = 6 * k"
    by (auto simp: length_Suc_conv)
  then show thesis using that by simp
qed

lemma countedDown_positive:
  assumes "sint r = int (Suc k)"
  shows "sint (countedDown r) = int k" "countedDown r = 0 \<longleftrightarrow> k = 0"
proof -
  from assms have pos: "0 <s r" by (simp add: word_sless_alt)
  have "sint (r - 1) = sint r - sint (1 :: 32 word)"
    using assms sint32_bounds [of r] by (intro sint32_sub) simp_all
  with assms pos show k: "sint (countedDown r) = int k" by (simp add: countedDown_def)
  show "countedDown r = 0 \<longleftrightarrow> k = 0"
  proof
    assume "countedDown r = 0"
    then have "sint (countedDown r) = 0" by simp
    with k show "k = 0" by simp
  next
    assume "k = 0"
    with k have "sint (countedDown r) = sint (0 :: 32 word)" by simp
    then show "countedDown r = 0" by (rule signed_word_eqI)
  qed
qed

lemma countdown:
  assumes "producing s" "rawReady m s" "\<forall>e \<in> set envs. convertSucceeds e"
    "sint (imagesRemaining s) = int n" "1 \<le> n" "length envs = 6 * n"
  shows "\<exists>frames. length frames = n \<and>
           delivered (simTask m envs s) = delivered s @ frames \<and>
           pc (simTask m envs s) = WaitStart \<and> \<not> startEventId (simTask m envs s) \<and>
           \<not> mutexTaken (simTask m envs s) \<and>
           ints (simTask m envs s) ADAcquire = 0 \<and>
           ints (simTask m envs s) ADStatus = ADStatusIdle \<and>
           imagesRemaining (simTask m envs s) = 0"
  using assms
proof (induction n arbitrary: s envs)
  case 0
  then show ?case by simp
next
  case (Suc k)
  from six_steps [OF Suc.prems(6)] obtain e1 e2 e3 e4 e5 e6 rest where
    envs: "envs = [e1, e2, e3, e4, e5, e6] @ rest" and rest: "length rest = 6 * k" by blast
  let ?s' = "simTask m [e1, e2, e3, e4, e5, e6] s"
  from Suc.prems(3) envs have good3: "convertSucceeds e3"
    and good_rest: "\<forall>e \<in> set rest. convertSucceeds e" by simp_all
  note cd = countedDown_positive [OF Suc.prems(4)]
  from iteration [OF Suc.prems(1,2) good3, of e1 e2 e4 e5 e6] obtain frame where
    it: "delivered ?s' = delivered s @ [frame]"
      "imagesRemaining ?s' = countedDown (imagesRemaining s)" "rawReady m ?s'"
      "\<not> startEventId ?s'"
      "countedDown (imagesRemaining s) \<noteq> 0 \<Longrightarrow>
         pc ?s' = LoopTop \<and> ints ?s' ADAcquire = ints s ADAcquire"
      "countedDown (imagesRemaining s) = 0 \<Longrightarrow>
         pc ?s' = WaitStart \<and> ints ?s' ADAcquire = 0 \<and> ints ?s' ADStatus = ADStatusIdle \<and>
         \<not> mutexTaken ?s'"
    by blast
  show ?case
  proof (cases k)
    case 0
    with rest have "rest = []" by simp
    with envs have run: "simTask m envs s = ?s'" by simp
    from 0 cd have z: "countedDown (imagesRemaining s) = 0" by simp
    from it(6) [OF z] it(1,2,4) z 0 show ?thesis unfolding run
      by (intro exI [of _ "[frame]"]) simp
  next
    case (Suc j)
    with cd have nz: "countedDown (imagesRemaining s) \<noteq> 0" by simp
    from Suc.prems(1) have "ints s ADAcquire \<noteq> 0" by (simp add: producing_def getIntegerParam_def)
    with it(5) [OF nz] it(4) have prod: "producing ?s'"
      by (simp add: producing_def getIntegerParam_def)
    from cd it(2) have rem: "sint (imagesRemaining ?s') = int k" by simp
    from Suc have k1: "1 \<le> k" by simp
    from Suc.IH [OF prod it(3) good_rest rem k1 rest] obtain frames where
      fr: "length frames = k" "delivered (simTask m rest ?s') = delivered ?s' @ frames"
        "pc (simTask m rest ?s') = WaitStart" "\<not> startEventId (simTask m rest ?s')"
        "\<not> mutexTaken (simTask m rest ?s')"
        "ints (simTask m rest ?s') ADAcquire = 0"
        "ints (simTask m rest ?s') ADStatus = ADStatusIdle"
        "imagesRemaining (simTask m rest ?s') = 0"
      by blast
    have run: "simTask m envs s = simTask m rest ?s'"
      unfolding envs by (rule simTask_append)
    from fr it(1) show ?thesis unfolding run
      by (intro exI [of _ "frame # frames"]) simp
  qed
qed

lemma countdown_longer:
  assumes "producing s" "rawReady m s" "\<forall>e \<in> set envs. convertSucceeds e"
    "sint (imagesRemaining s) = int n" "1 \<le> n" "6 * n \<le> length envs"
  shows "\<exists>frames. length frames = n \<and>
           delivered (simTask m envs s) = delivered s @ frames \<and>
           pc (simTask m envs s) = WaitStart \<and> \<not> startEventId (simTask m envs s) \<and>
           \<not> mutexTaken (simTask m envs s) \<and>
           ints (simTask m envs s) ADAcquire = 0 \<and>
           ints (simTask m envs s) ADStatus = ADStatusIdle \<and>
           imagesRemaining (simTask m envs s) = 0"
proof -
  let ?a = "take (6 * n) envs" and ?b = "drop (6 * n) envs"
  from assms(3) have good: "\<forall>e \<in> set ?a. convertSucceeds e" by (meson in_set_takeD)
  from assms(6) have len: "length ?a = 6 * n" by simp
  from countdown [OF assms(1,2) good assms(4,5) len] obtain frames where
    fr: "length frames = n" "delivered (simTask m ?a s) = delivered s @ frames"
      "pc (simTask m ?a s) = WaitStart" "\<not> startEventId (simTask m ?a s)"
      "\<not> mutexTaken (simTask m ?a s)"
      "ints (simTask m ?a s) ADAcquire = 0"
      "ints (simTask m ?a s) ADStatus = ADStatusIdle"
      "imagesRemaining (simTask m ?a s) = 0"
    by blast
  have "simTask m envs s = simTask m ?b (simTask m ?a s)"
    using simTask_append [of m ?a ?b s] by simp
  also have "\<dots> = simTask m ?a s" by (rule simTask_blocked [OF fr(3,4)])
  finally show ?thesis using fr by auto
qed

lemma computeImage_frame:
  assumes "computeImage m env s = Inr (st, s')"
  shows "imagesRemaining s' = imagesRemaining s \<and> delivered s' = delivered s \<and>
         startEventId s' = startEventId s \<and> acquiring s' = acquiring s"
proof -
  let ?dt = "getIntegerParam (fixParameters s) ADDataType"
  let ?s2 = "(fixParameters s)\<lparr>pRaw := (pRaw (fixParameters s))\<lparr>dataType := ?dt\<rparr>\<rparr>"
  obtain st0 s3 where al: "allocateBuffer env ?s2 = (st0, s3)" by (cases "allocateBuffer env ?s2")
  from allocateBuffer_pRaw [OF al] have e3: "s3 = ?s2\<lparr>pRaw := pRaw s3\<rparr>" .
  have f3: "imagesRemaining s3 = imagesRemaining s \<and> delivered s3 = delivered s \<and>
         startEventId s3 = startEventId s \<and> acquiring s3 = acquiring s"
    by (subst e3, simp add: fixParameters_fields)+
  show ?thesis
  proof (cases "st0 = 0")
    case False
    with assms al f3 show ?thesis
      by (auto simp: computeImage_def Let_def asynPrint_def)
  next
    case True
    with assms al obtain s4 where
      sy: "synthesize m ?dt (getIntegerParam (fixParameters s) ADMaxSizeX)
             (getIntegerParam (fixParameters s) ADMaxSizeY) s3 = Inr s4"
      by (auto simp: computeImage_def Let_def split: sum.splits)
    from synthesize_pRaw [OF sy] have e4: "s4 = s3\<lparr>pRaw := pRaw s4\<rparr>" .
    have f4: "imagesRemaining s4 = imagesRemaining s \<and> delivered s4 = delivered s \<and>
         startEventId s4 = startEventId s \<and> acquiring s4 = acquiring s"
      by (subst e4, simp add: f3)+
    from assms al True sy f4 show ?thesis
      by (auto simp: computeImage_def Let_def asynPrint_def setIntegerParam_def
            split: option.splits)
  qed
qed

lemma step_keeps_negative:
  assumes "imagesRemaining s <s 0"
  shows "imagesRemaining (simTask_step m env s) = imagesRemaining s \<and>
         ints (simTask_step m env s) ADAcquire = ints s ADAcquire"
proof (cases "pc s")
  case Build
  show ?thesis
  proof (cases "computeImage m env s")
    case (Inl f)
    with Build show ?thesis by (simp add: simTask_step_def)
  next
    case (Inr r)
    obtain st s' where r: "r = (st, s')" by (cases r)
    from computeImage_frame [OF Inr [unfolded r]]
      computeImage_ints [OF Inr [unfolded r], of ADAcquire]
    have "imagesRemaining s' = imagesRemaining s" "ints s' ADAcquire = ints s ADAcquire"
      by (simp_all add: fixParameters_other)
    with Build Inr r show ?thesis
      by (simp add: simTask_step_def stampImage_def Let_def setIntegerParam_def
            split: option.splits)
  qed
next
  case Account
  from assms have "\<not> 0 <s imagesRemaining s" "imagesRemaining s \<noteq> 0"
    by (auto simp: word_sless_alt)
  with Account show ?thesis
    by (simp add: simTask_step_def accountImage_def Let_def callParamCallbacks_def
          setIntegerParam_def)
qed (simp_all add: simTask_step_def beginExposure_def Let_def callParamCallbacks_def
       setIntegerParam_def getIntegerParam_def split: option.splits)

lemma simTask_keeps_negative:
  assumes "imagesRemaining s <s 0"
  shows "imagesRemaining (simTask m envs s) = imagesRemaining s \<and>
         ints (simTask m envs s) ADAcquire = ints s ADAcquire"
  using assms
proof (induction envs arbitrary: s)
  case Nil
  then show ?case by (simp add: simTask_Nil)
next
  case (Cons e es)
  from step_keeps_negative [OF Cons.prems, of m e]
  have "imagesRemaining (simTask_step m e s) = imagesRemaining s"
    "ints (simTask_step m e s) ADAcquire = ints s ADAcquire" by simp_all
  with Cons.IH [of "simTask_step m e s"] Cons.prems show ?case
    by (simp add: simTask_Cons)
qed

lemma step_delivers_more: "\<exists>fs. delivered (simTask_step m env s) = delivered s @ fs"
proof (cases "pc s")
  case Build
  show ?thesis
  proof (cases "computeImage m env s")
    case (Inl f)
    with Build show ?thesis by (simp add: simTask_step_def)
  next
    case (Inr r)
    obtain st s' where r: "r = (st, s')" by (cases r)
    from computeImage_frame [OF Inr [unfolded r]] have "delivered s' = delivered s" by simp
    with Build Inr r show ?thesis
      by (simp add: simTask_step_def stampImage_def Let_def setIntegerParam_def
            split: option.splits)
  qed
qed (simp_all add: simTask_step_def beginExposure_def accountImage_def Let_def
       callParamCallbacks_def setIntegerParam_def getIntegerParam_def split: option.splits)

lemma simTask_delivers_more: "length (delivered s) \<le> length (delivered (simTask m envs s))"
proof (induction envs arbitrary: s)
  case Nil
  then show ?case by (simp add: simTask_Nil)
next
  case (Cons e es)
  from step_delivers_more [of m e s] have "length (delivered s) \<le> length (delivered (simTask_step m e s))"
    by auto
  with Cons [of "simTask_step m e s"] show ?case by (simp add: simTask_Cons)
qed

lemma last_iteration:
  assumes "producing s" "rawReady m s" "\<forall>e \<in> set envs. convertSucceeds e"
    "countedDown (imagesRemaining s) = 0" "6 \<le> length envs"
  shows "\<exists>frame. delivered (simTask m envs s) = delivered s @ [frame] \<and>
           pc (simTask m envs s) = WaitStart \<and> \<not> startEventId (simTask m envs s) \<and>
           \<not> mutexTaken (simTask m envs s) \<and>
           ints (simTask m envs s) ADAcquire = 0 \<and>
           ints (simTask m envs s) ADStatus = ADStatusIdle"
proof -
  let ?a = "take 6 envs" and ?b = "drop 6 envs"
  from assms(5) have "length ?a = 6 * Suc 0" by simp
  from six_steps [OF this] obtain e1 e2 e3 e4 e5 e6 rest where
    "?a = [e1, e2, e3, e4, e5, e6] @ rest" "length rest = 6 * 0" by blast
  then have a: "?a = [e1, e2, e3, e4, e5, e6]" by simp
  have "e3 \<in> set ?a" by (simp add: a)
  then have "e3 \<in> set envs" by (rule in_set_takeD)
  with assms(3) have good3: "convertSucceeds e3" by simp
  from iteration [OF assms(1,2) good3, of e1 e2 e4 e5 e6] assms(4) obtain frame where
    it: "delivered (simTask m ?a s) = delivered s @ [frame]"
      "pc (simTask m ?a s) = WaitStart" "\<not> startEventId (simTask m ?a s)"
      "\<not> mutexTaken (simTask m ?a s)"
      "ints (simTask m ?a s) ADAcquire = 0" "ints (simTask m ?a s) ADStatus = ADStatusIdle"
    unfolding a by auto
  have "simTask m envs s = simTask m ?b (simTask m ?a s)"
    using simTask_append [of m ?a ?b s] by simp
  also have "\<dots> = simTask m ?a s" by (rule simTask_blocked [OF it(2,3)])
  finally show ?thesis using it by auto
qed

lemma padded:
  assumes fin: "\<And>envs'. \<forall>e \<in> set envs'. convertSucceeds e \<Longrightarrow> k \<le> length envs'
                   \<Longrightarrow> length (delivered (simTask m envs' s)) = b"
    and good: "\<forall>e \<in> set envs. convertSucceeds e" and start: "length (delivered s) \<le> b"
  shows "length (delivered (simTask m envs s)) \<le> b"
proof (cases envs)
  case Nil
  with start show ?thesis by (simp add: simTask_Nil)
next
  case (Cons e es)
  let ?pad = "replicate k e"
  from Cons good have "\<forall>e' \<in> set (envs @ ?pad). convertSucceeds e'" by auto
  from fin [OF this] have "length (delivered (simTask m (envs @ ?pad) s)) = b" by simp
  moreover have "length (delivered (simTask m envs s))
      \<le> length (delivered (simTask m ?pad (simTask m envs s)))"
    by (rule simTask_delivers_more)
  ultimately show ?thesis by (simp add: simTask_append)
qed

lemma unbounded:
  assumes "producing s" "rawReady m s" "\<forall>e \<in> set envs. convertSucceeds e"
    "imagesRemaining s <s 0" "length envs = 6 * k"
  shows "length (delivered (simTask m envs s)) = length (delivered s) + k"
  using assms
proof (induction k arbitrary: s envs)
  case 0
  then show ?case by (simp add: simTask_Nil)
next
  case (Suc k)
  from six_steps [OF Suc.prems(5)] obtain e1 e2 e3 e4 e5 e6 rest where
    envs: "envs = [e1, e2, e3, e4, e5, e6] @ rest" and rest: "length rest = 6 * k" by blast
  let ?s' = "simTask m [e1, e2, e3, e4, e5, e6] s"
  from Suc.prems(3) envs have good3: "convertSucceeds e3"
    and good_rest: "\<forall>e \<in> set rest. convertSucceeds e" by simp_all
  from Suc.prems(4) have cd: "countedDown (imagesRemaining s) = imagesRemaining s"
    and nz: "imagesRemaining s \<noteq> 0"
    by (auto simp: countedDown_def word_sless_alt)
  from iteration [OF Suc.prems(1,2) good3, of e1 e2 e4 e5 e6] cd nz obtain frame where
    it: "delivered ?s' = delivered s @ [frame]" "imagesRemaining ?s' = imagesRemaining s"
      "rawReady m ?s'" "\<not> startEventId ?s'" "pc ?s' = LoopTop"
      "ints ?s' ADAcquire = ints s ADAcquire"
    by auto
  from Suc.prems(1) it have prod: "producing ?s'"
    by (simp add: producing_def getIntegerParam_def)
  from Suc.prems(4) it have neg: "imagesRemaining ?s' <s 0" by simp
  from Suc.IH [OF prod it(3) good_rest neg rest] it(1) show ?case
    unfolding envs simTask_append by simp
qed

lemma image_modes:
  "ADImageSingle \<noteq> ADImageMultiple" "ADImageSingle \<noteq> ADImageContinuous"
  "ADImageMultiple \<noteq> ADImageContinuous" "ADImageMultiple \<noteq> ADImageSingle"
  "ADImageContinuous \<noteq> ADImageSingle" "ADImageContinuous \<noteq> ADImageMultiple"
  by (simp_all add: ADImageSingle_def ADImageMultiple_def ADImageContinuous_def)

lemma start_acquisition:
  assumes "idle s" "v \<noteq> 0"
  shows "producing (snd (writeInt32 ADAcquire v s))"
    "rawReady m (snd (writeInt32 ADAcquire v s)) = rawReady m s"
    "delivered (snd (writeInt32 ADAcquire v s)) = delivered s"
    "ints (snd (writeInt32 ADAcquire v s)) = (ints s)(ADAcquire := v)"
    "imagesRemaining (snd (writeInt32 ADAcquire v s))
       = (if getIntegerParam s ADImageMode = ADImageSingle then 1
          else if getIntegerParam s ADImageMode = ADImageMultiple then getIntegerParam s ADNumImages
          else if getIntegerParam s ADImageMode = ADImageContinuous then - 1
          else imagesRemaining s)"
proof -
  let ?s1 = "snd (writeInt32 ADAcquire v s)"
  from assms have w: "?s1 = callParamCallbacks
      ((setImagesRemaining (getIntegerParam s ADImageMode) (setIntegerParam ADAcquire v s))
         \<lparr>startEventId := True\<rparr>)"
    by (simp add: writeInt32_def Let_def idle_def getIntegerParam_def setIntegerParam_def)
  show i: "ints ?s1 = (ints s)(ADAcquire := v)"
    unfolding w
    by (simp add: callParamCallbacks_def setImagesRemaining_def setIntegerParam_def)
  have f: "pc ?s1 = pc s" "startEventId ?s1" "pRaw ?s1 = pRaw s" "delivered ?s1 = delivered s"
    unfolding w
    by (simp_all add: callParamCallbacks_def setImagesRemaining_def setIntegerParam_def)
  from f show "delivered ?s1 = delivered s" by simp
  from assms f i show "producing ?s1"
    by (simp add: producing_def idle_def getIntegerParam_def)
  show "rawReady m ?s1 = rawReady m s"
    by (rule rawReady_cong) (simp_all add: f i)
  show "imagesRemaining ?s1
       = (if getIntegerParam s ADImageMode = ADImageSingle then 1
          else if getIntegerParam s ADImageMode = ADImageMultiple then getIntegerParam s ADNumImages
          else if getIntegerParam s ADImageMode = ADImageContinuous then - 1
          else imagesRemaining s)"
    unfolding w
    by (simp add: callParamCallbacks_def setImagesRemaining_def setIntegerParam_def
          getIntegerParam_def)
qed

lemma calm_converts: "\<forall>e \<in> set (replicate k calm). convertSucceeds e"
  by (simp add: convertSucceeds_def calm_def)

text \<open>
  Claim C3, as amended. A write of a nonzero acquire flag to an idle detector sets the
  number of images remaining from the mode: 1 for Single, the number of images for
  Multiple, -1 for Continuous. Let the thread then run on its own, with a raw buffer
  ready for frames and a pool whose conversion succeeds. In mode Single it delivers
  exactly one frame: never more than one, and after six steps one, with the acquire flag
  cleared and the thread idle. In mode Multiple with a number of images \<open>N \<ge> 1\<close> it
  delivers exactly \<open>N\<close> frames: never more than \<open>N\<close>, and after \<open>6 N\<close> steps all
  \<open>N\<close>, with the acquire flag cleared and the thread idle. In mode Continuous the
  number remaining stays -1, the acquire flag stays as written after any number of
  steps, and every six steps deliver one more frame.
\<close>

theorem acquisition_countdown:
  assumes idl: "idle s" and ready: "rawReady m s" and v: "v \<noteq> 0"
    and good: "\<forall>e \<in> set envs. convertSucceeds e"
  shows "imagesRemaining (snd (writeInt32 ADAcquire v s))
           = (if getIntegerParam s ADImageMode = ADImageSingle then 1
              else if getIntegerParam s ADImageMode = ADImageMultiple then getIntegerParam s ADNumImages
              else if getIntegerParam s ADImageMode = ADImageContinuous then - 1
              else imagesRemaining s) \<and>
         (getIntegerParam s ADImageMode = ADImageSingle \<longrightarrow>
            length (delivered (simTask m envs (snd (writeInt32 ADAcquire v s))))
              \<le> length (delivered s) + 1 \<and>
            (6 \<le> length envs \<longrightarrow>
               (\<exists>frame. delivered (simTask m envs (snd (writeInt32 ADAcquire v s)))
                          = delivered s @ [frame]) \<and>
               getIntegerParam (simTask m envs (snd (writeInt32 ADAcquire v s))) ADAcquire = 0 \<and>
               idle (simTask m envs (snd (writeInt32 ADAcquire v s))))) \<and>
         (getIntegerParam s ADImageMode = ADImageMultiple \<and> 1 \<le> sint (getIntegerParam s ADNumImages) \<longrightarrow>
            length (delivered (simTask m envs (snd (writeInt32 ADAcquire v s))))
              \<le> length (delivered s) + nat (sint (getIntegerParam s ADNumImages)) \<and>
            (6 * nat (sint (getIntegerParam s ADNumImages)) \<le> length envs \<longrightarrow>
               (\<exists>frames. length frames = nat (sint (getIntegerParam s ADNumImages)) \<and>
                          delivered (simTask m envs (snd (writeInt32 ADAcquire v s)))
                            = delivered s @ frames) \<and>
               getIntegerParam (simTask m envs (snd (writeInt32 ADAcquire v s))) ADAcquire = 0 \<and>
               idle (simTask m envs (snd (writeInt32 ADAcquire v s))))) \<and>
         (getIntegerParam s ADImageMode = ADImageContinuous \<longrightarrow>
            imagesRemaining (simTask m envs (snd (writeInt32 ADAcquire v s))) = - 1 \<and>
            getIntegerParam (simTask m envs (snd (writeInt32 ADAcquire v s))) ADAcquire = v \<and>
            (\<forall>k. length envs = 6 * k \<longrightarrow>
               length (delivered (simTask m envs (snd (writeInt32 ADAcquire v s))))
                 = length (delivered s) + k))"
proof -
  let ?s1 = "snd (writeInt32 ADAcquire v s)"
  note st = start_acquisition [OF idl v]
  from st ready have r1: "rawReady m ?s1" by simp
  have counted: "length (delivered (simTask m envs ?s1)) \<le> length (delivered s) + n \<and>
      (6 * n \<le> length envs \<longrightarrow>
         (\<exists>frames. length frames = n \<and> delivered (simTask m envs ?s1) = delivered s @ frames) \<and>
         getIntegerParam (simTask m envs ?s1) ADAcquire = 0 \<and> idle (simTask m envs ?s1))"
    if n: "sint (imagesRemaining ?s1) = int n" "1 \<le> n" for n
  proof -
    have fin: "\<exists>frames. length frames = n \<and> delivered (simTask m envs' ?s1) = delivered s @ frames \<and>
        getIntegerParam (simTask m envs' ?s1) ADAcquire = 0 \<and> idle (simTask m envs' ?s1)"
      if "\<forall>e \<in> set envs'. convertSucceeds e" "6 * n \<le> length envs'" for envs'
      using countdown_longer [OF st(1) r1 that(1) n that(2)] st(3)
      by (auto simp: idle_def getIntegerParam_def)
    have fin_len: "length (delivered (simTask m envs' ?s1)) = length (delivered s) + n"
      if "\<forall>e \<in> set envs'. convertSucceeds e" "6 * n \<le> length envs'" for envs'
      using fin [OF that] by auto
    have "length (delivered (simTask m envs ?s1)) \<le> length (delivered s) + n"
      by (rule padded [where k = "6 * n", OF fin_len good]) (simp_all add: st(3))
    with fin [OF good] show ?thesis by blast
  qed
  have single: "getIntegerParam s ADImageMode = ADImageSingle \<longrightarrow>
            length (delivered (simTask m envs ?s1)) \<le> length (delivered s) + 1 \<and>
            (6 \<le> length envs \<longrightarrow>
               (\<exists>frame. delivered (simTask m envs ?s1) = delivered s @ [frame]) \<and>
               getIntegerParam (simTask m envs ?s1) ADAcquire = 0 \<and> idle (simTask m envs ?s1))"
  proof
    assume "getIntegerParam s ADImageMode = ADImageSingle"
    with st(5) have "sint (imagesRemaining ?s1) = int 1" by simp
    from counted [OF this] show "length (delivered (simTask m envs ?s1)) \<le> length (delivered s) + 1 \<and>
            (6 \<le> length envs \<longrightarrow>
               (\<exists>frame. delivered (simTask m envs ?s1) = delivered s @ [frame]) \<and>
               getIntegerParam (simTask m envs ?s1) ADAcquire = 0 \<and> idle (simTask m envs ?s1))"
      by (auto simp: length_Suc_conv)
  qed
  have multiple: "getIntegerParam s ADImageMode = ADImageMultiple \<and> 1 \<le> sint (getIntegerParam s ADNumImages) \<longrightarrow>
            length (delivered (simTask m envs ?s1))
              \<le> length (delivered s) + nat (sint (getIntegerParam s ADNumImages)) \<and>
            (6 * nat (sint (getIntegerParam s ADNumImages)) \<le> length envs \<longrightarrow>
               (\<exists>frames. length frames = nat (sint (getIntegerParam s ADNumImages)) \<and>
                          delivered (simTask m envs ?s1) = delivered s @ frames) \<and>
               getIntegerParam (simTask m envs ?s1) ADAcquire = 0 \<and> idle (simTask m envs ?s1))"
  proof
    assume a: "getIntegerParam s ADImageMode = ADImageMultiple \<and> 1 \<le> sint (getIntegerParam s ADNumImages)"
    with st(5) have "sint (imagesRemaining ?s1) = int (nat (sint (getIntegerParam s ADNumImages)))"
      "1 \<le> nat (sint (getIntegerParam s ADNumImages))"
      by (simp add: image_modes, linarith)
    from counted [OF this] show "length (delivered (simTask m envs ?s1))
              \<le> length (delivered s) + nat (sint (getIntegerParam s ADNumImages)) \<and>
            (6 * nat (sint (getIntegerParam s ADNumImages)) \<le> length envs \<longrightarrow>
               (\<exists>frames. length frames = nat (sint (getIntegerParam s ADNumImages)) \<and>
                          delivered (simTask m envs ?s1) = delivered s @ frames) \<and>
               getIntegerParam (simTask m envs ?s1) ADAcquire = 0 \<and> idle (simTask m envs ?s1))" .
  qed
  have continuous: "getIntegerParam s ADImageMode = ADImageContinuous \<longrightarrow>
            imagesRemaining (simTask m envs ?s1) = - 1 \<and>
            getIntegerParam (simTask m envs ?s1) ADAcquire = v \<and>
            (\<forall>k. length envs = 6 * k \<longrightarrow>
               length (delivered (simTask m envs ?s1)) = length (delivered s) + k)"
  proof
    assume "getIntegerParam s ADImageMode = ADImageContinuous"
    with st(5) have rem: "imagesRemaining ?s1 = - 1" by (simp add: image_modes)
    then have neg: "imagesRemaining ?s1 <s 0" by (simp add: word_sless_alt)
    from simTask_keeps_negative [OF neg, of m envs] rem st(4)
    have "imagesRemaining (simTask m envs ?s1) = - 1"
      "getIntegerParam (simTask m envs ?s1) ADAcquire = v"
      by (simp_all add: getIntegerParam_def)
    moreover have "length (delivered (simTask m envs ?s1)) = length (delivered s) + k"
      if "length envs = 6 * k" for k
      using unbounded [OF st(1) r1 good neg that] st(3) by simp
    ultimately show "imagesRemaining (simTask m envs ?s1) = - 1 \<and>
            getIntegerParam (simTask m envs ?s1) ADAcquire = v \<and>
            (\<forall>k. length envs = 6 * k \<longrightarrow>
               length (delivered (simTask m envs ?s1)) = length (delivered s) + k)" by blast
  qed
  from st(5) single multiple continuous show ?thesis by blast
qed

text \<open>
  The scenario of the specification: mode Multiple with three images gives three
  deliveries with the frame counters 1, 2 and 3, then the acquire flag is cleared.
  Likewise one frame in mode Single, and three frames in 18 steps of mode Continuous.
\<close>

theorem acquisition_countdown_witness:
  "idle (multipleMode 3) \<and> rawReady ieee (multipleMode 3) \<and> (1 :: epicsInt32) \<noteq> 0 \<and>
   getIntegerParam (multipleMode 3) ADImageMode = ADImageMultiple \<and>
   1 \<le> sint (getIntegerParam (multipleMode 3) ADNumImages) \<and>
   6 * nat (sint (getIntegerParam (multipleMode 3) ADNumImages)) \<le> length (replicate 20 calm) \<and>
   imagesRemaining (snd (writeInt32 ADAcquire 1 (multipleMode 3))) = 3 \<and>
   delivered (multipleMode 3) = [] \<and>
   length (delivered (simTask ieee (replicate 20 calm) (snd (writeInt32 ADAcquire 1 (multipleMode 3))))) = 3 \<and>
   map uniqueId (delivered (simTask ieee (replicate 20 calm) (snd (writeInt32 ADAcquire 1 (multipleMode 3)))))
     = [1, 2, 3] \<and>
   getIntegerParam (simTask ieee (replicate 20 calm) (snd (writeInt32 ADAcquire 1 (multipleMode 3)))) ADAcquire = 0 \<and>
   idle (simTask ieee (replicate 20 calm) (snd (writeInt32 ADAcquire 1 (multipleMode 3)))) \<and>
   idle singleMode \<and> rawReady ieee singleMode \<and>
   getIntegerParam singleMode ADImageMode = ADImageSingle \<and> 6 \<le> length (replicate 20 calm) \<and>
   imagesRemaining (snd (writeInt32 ADAcquire 1 singleMode)) = 1 \<and>
   length (delivered (simTask ieee (replicate 20 calm) (snd (writeInt32 ADAcquire 1 singleMode))))
     = length (delivered singleMode) + 1 \<and>
   getIntegerParam (simTask ieee (replicate 20 calm) (snd (writeInt32 ADAcquire 1 singleMode))) ADAcquire = 0 \<and>
   idle continuousMode \<and> rawReady ieee continuousMode \<and>
   getIntegerParam continuousMode ADImageMode = ADImageContinuous \<and>
   length (replicate 18 calm) = 6 * 3 \<and>
   imagesRemaining (snd (writeInt32 ADAcquire 1 continuousMode)) = - 1 \<and>
   imagesRemaining (simTask ieee (replicate 18 calm) (snd (writeInt32 ADAcquire 1 continuousMode))) = - 1 \<and>
   length (delivered (simTask ieee (replicate 18 calm) (snd (writeInt32 ADAcquire 1 continuousMode))))
     = length (delivered continuousMode) + 3 \<and>
   getIntegerParam (simTask ieee (replicate 18 calm) (snd (writeInt32 ADAcquire 1 continuousMode))) ADAcquire = 1"
proof -
  have i: "idle (multipleMode 3)" by code_simp
  have r: "rawReady ieee (multipleMode 3)" by code_simp
  have v: "(1 :: epicsInt32) \<noteq> 0" by simp
  note g = calm_converts [of 20]
  have md: "getIntegerParam (multipleMode 3) ADImageMode = ADImageMultiple" by code_simp
  have n: "getIntegerParam (multipleMode 3) ADNumImages = 3" by code_simp
  have e: "delivered (multipleMode 3) = []" by code_simp
  have u: "map uniqueId (delivered (simTask ieee (replicate 20 calm) (snd (writeInt32 ADAcquire 1 (multipleMode 3)))))
     = [1, 2, 3]" by code_simp
  from acquisition_countdown [OF i r v g] md n e
  have multiple: "imagesRemaining (snd (writeInt32 ADAcquire 1 (multipleMode 3))) = 3 \<and>
    length (delivered (simTask ieee (replicate 20 calm) (snd (writeInt32 ADAcquire 1 (multipleMode 3))))) = 3 \<and>
    getIntegerParam (simTask ieee (replicate 20 calm) (snd (writeInt32 ADAcquire 1 (multipleMode 3)))) ADAcquire = 0 \<and>
    idle (simTask ieee (replicate 20 calm) (snd (writeInt32 ADAcquire 1 (multipleMode 3))))"
    by (auto simp: image_modes)
  have i1: "idle singleMode" by code_simp
  have r1: "rawReady ieee singleMode" by code_simp
  have m1: "getIntegerParam singleMode ADImageMode = ADImageSingle" by code_simp
  from acquisition_countdown [OF i1 r1 v g] m1
  have single: "imagesRemaining (snd (writeInt32 ADAcquire 1 singleMode)) = 1 \<and>
   length (delivered (simTask ieee (replicate 20 calm) (snd (writeInt32 ADAcquire 1 singleMode))))
     = length (delivered singleMode) + 1 \<and>
   getIntegerParam (simTask ieee (replicate 20 calm) (snd (writeInt32 ADAcquire 1 singleMode))) ADAcquire = 0"
    by auto
  have ic: "idle continuousMode" by code_simp
  have rc: "rawReady ieee continuousMode" by code_simp
  have mc: "getIntegerParam continuousMode ADImageMode = ADImageContinuous" by code_simp
  note gc = calm_converts [of 18]
  have l: "length (replicate 18 calm) = 6 * 3" by simp
  from acquisition_countdown [OF ic rc v gc] mc l
  have continuous: "imagesRemaining (snd (writeInt32 ADAcquire 1 continuousMode)) = - 1 \<and>
   imagesRemaining (simTask ieee (replicate 18 calm) (snd (writeInt32 ADAcquire 1 continuousMode))) = - 1 \<and>
   length (delivered (simTask ieee (replicate 18 calm) (snd (writeInt32 ADAcquire 1 continuousMode))))
     = length (delivered continuousMode) + 3 \<and>
   getIntegerParam (simTask ieee (replicate 18 calm) (snd (writeInt32 ADAcquire 1 continuousMode))) ADAcquire = 1"
    by (simp add: image_modes)
  from i r v g md n e u multiple i1 r1 m1 single ic rc mc gc continuous show ?thesis by simp
qed

text \<open>
  Claim C3 as stated, for every \<open>N\<close>, fails at \<open>N = 0\<close>: in mode Multiple with zero
  images the acquisition delivers one frame, not none, before the flag is cleared.
\<close>

theorem acquisition_countdown_zero_counterexample:
  "idle (multipleMode 0) \<and> rawReady ieee (multipleMode 0) \<and>
   getIntegerParam (multipleMode 0) ADImageMode = ADImageMultiple \<and>
   getIntegerParam (multipleMode 0) ADNumImages = 0 \<and>
   imagesRemaining (snd (writeInt32 ADAcquire 1 (multipleMode 0))) = 0 \<and>
   delivered (multipleMode 0) = [] \<and>
   length (delivered (simTask ieee (replicate 12 calm) (snd (writeInt32 ADAcquire 1 (multipleMode 0))))) = 1 \<and>
   getIntegerParam (simTask ieee (replicate 12 calm) (snd (writeInt32 ADAcquire 1 (multipleMode 0)))) ADAcquire = 0"
  by code_simp

text \<open>
  Claim C9. In mode Multiple, an acquisition started with the number of images 0 delivers
  exactly one frame (never more than one, and one after six steps) before the acquire
  flag is cleared and the thread is idle; started with a negative number of images, the
  number remaining and the acquire flag never change, and every six steps deliver one
  more frame, as in mode Continuous.
\<close>

theorem zero_or_negative_number_of_images:
  assumes idl: "idle s" and ready: "rawReady m s" and v: "v \<noteq> 0"
    and mode: "getIntegerParam s ADImageMode = ADImageMultiple"
    and good: "\<forall>e \<in> set envs. convertSucceeds e"
  shows "(getIntegerParam s ADNumImages = 0 \<longrightarrow>
            length (delivered (simTask m envs (snd (writeInt32 ADAcquire v s))))
              \<le> length (delivered s) + 1 \<and>
            (6 \<le> length envs \<longrightarrow>
               (\<exists>frame. delivered (simTask m envs (snd (writeInt32 ADAcquire v s)))
                          = delivered s @ [frame]) \<and>
               getIntegerParam (simTask m envs (snd (writeInt32 ADAcquire v s))) ADAcquire = 0 \<and>
               idle (simTask m envs (snd (writeInt32 ADAcquire v s))))) \<and>
         (getIntegerParam s ADNumImages <s 0 \<longrightarrow>
            imagesRemaining (simTask m envs (snd (writeInt32 ADAcquire v s)))
              = getIntegerParam s ADNumImages \<and>
            getIntegerParam (simTask m envs (snd (writeInt32 ADAcquire v s))) ADAcquire = v \<and>
            (\<forall>k. length envs = 6 * k \<longrightarrow>
               length (delivered (simTask m envs (snd (writeInt32 ADAcquire v s))))
                 = length (delivered s) + k))"
proof -
  let ?s1 = "snd (writeInt32 ADAcquire v s)"
  note st = start_acquisition [OF idl v]
  from st ready have r1: "rawReady m ?s1" by simp
  from st(5) mode have rem: "imagesRemaining ?s1 = getIntegerParam s ADNumImages"
    by (simp add: image_modes)
  have zero: "getIntegerParam s ADNumImages = 0 \<longrightarrow>
            length (delivered (simTask m envs ?s1)) \<le> length (delivered s) + 1 \<and>
            (6 \<le> length envs \<longrightarrow>
               (\<exists>frame. delivered (simTask m envs ?s1) = delivered s @ [frame]) \<and>
               getIntegerParam (simTask m envs ?s1) ADAcquire = 0 \<and> idle (simTask m envs ?s1))"
  proof
    assume "getIntegerParam s ADNumImages = 0"
    with rem have cd: "countedDown (imagesRemaining ?s1) = 0" by (simp add: countedDown_def)
    have fin: "\<exists>frame. delivered (simTask m envs' ?s1) = delivered s @ [frame] \<and>
        getIntegerParam (simTask m envs' ?s1) ADAcquire = 0 \<and> idle (simTask m envs' ?s1)"
      if "\<forall>e \<in> set envs'. convertSucceeds e" "6 \<le> length envs'" for envs'
      using last_iteration [OF st(1) r1 that(1) cd that(2)] st(3)
      by (auto simp: idle_def getIntegerParam_def)
    have fin_len: "length (delivered (simTask m envs' ?s1)) = length (delivered s) + 1"
      if "\<forall>e \<in> set envs'. convertSucceeds e" "6 \<le> length envs'" for envs'
      using fin [OF that] by auto
    have "length (delivered (simTask m envs ?s1)) \<le> length (delivered s) + 1"
      by (rule padded [where k = 6, OF fin_len good]) (simp_all add: st(3))
    with fin [OF good] show "length (delivered (simTask m envs ?s1)) \<le> length (delivered s) + 1 \<and>
            (6 \<le> length envs \<longrightarrow>
               (\<exists>frame. delivered (simTask m envs ?s1) = delivered s @ [frame]) \<and>
               getIntegerParam (simTask m envs ?s1) ADAcquire = 0 \<and> idle (simTask m envs ?s1))"
      by blast
  qed
  have negative: "getIntegerParam s ADNumImages <s 0 \<longrightarrow>
            imagesRemaining (simTask m envs ?s1) = getIntegerParam s ADNumImages \<and>
            getIntegerParam (simTask m envs ?s1) ADAcquire = v \<and>
            (\<forall>k. length envs = 6 * k \<longrightarrow>
               length (delivered (simTask m envs ?s1)) = length (delivered s) + k)"
  proof
    assume "getIntegerParam s ADNumImages <s 0"
    with rem have neg: "imagesRemaining ?s1 <s 0" by simp
    from simTask_keeps_negative [OF neg, of m envs] rem st(4)
    have "imagesRemaining (simTask m envs ?s1) = getIntegerParam s ADNumImages"
      "getIntegerParam (simTask m envs ?s1) ADAcquire = v"
      by (simp_all add: getIntegerParam_def)
    moreover have "length (delivered (simTask m envs ?s1)) = length (delivered s) + k"
      if "length envs = 6 * k" for k
      using unbounded [OF st(1) r1 good neg that] st(3) by simp
    ultimately show "imagesRemaining (simTask m envs ?s1) = getIntegerParam s ADNumImages \<and>
            getIntegerParam (simTask m envs ?s1) ADAcquire = v \<and>
            (\<forall>k. length envs = 6 * k \<longrightarrow>
               length (delivered (simTask m envs ?s1)) = length (delivered s) + k)" by blast
  qed
  from zero negative show ?thesis by blast
qed

text \<open>Numbers of images 0 and -2 on the detector of 2 by 2 bytes.\<close>

theorem zero_or_negative_number_of_images_witness:
  "idle (multipleMode 0) \<and> rawReady ieee (multipleMode 0) \<and> (1 :: epicsInt32) \<noteq> 0 \<and>
   getIntegerParam (multipleMode 0) ADImageMode = ADImageMultiple \<and>
   getIntegerParam (multipleMode 0) ADNumImages = 0 \<and> 6 \<le> length (replicate 18 calm) \<and>
   length (delivered (simTask ieee (replicate 18 calm) (snd (writeInt32 ADAcquire 1 (multipleMode 0)))))
     = length (delivered (multipleMode 0)) + 1 \<and>
   getIntegerParam (simTask ieee (replicate 18 calm) (snd (writeInt32 ADAcquire 1 (multipleMode 0)))) ADAcquire = 0 \<and>
   idle (multipleMode (- 2)) \<and> rawReady ieee (multipleMode (- 2)) \<and>
   getIntegerParam (multipleMode (- 2)) ADImageMode = ADImageMultiple \<and>
   getIntegerParam (multipleMode (- 2)) ADNumImages <s 0 \<and>
   length (replicate 18 calm) = 6 * 3 \<and>
   length (delivered (simTask ieee (replicate 18 calm) (snd (writeInt32 ADAcquire 1 (multipleMode (- 2))))))
     = length (delivered (multipleMode (- 2))) + 3 \<and>
   getIntegerParam (simTask ieee (replicate 18 calm) (snd (writeInt32 ADAcquire 1 (multipleMode (- 2))))) ADAcquire = 1"
proof -
  have i0: "idle (multipleMode 0)" by code_simp
  have r0: "rawReady ieee (multipleMode 0)" by code_simp
  have m0: "getIntegerParam (multipleMode 0) ADImageMode = ADImageMultiple" by code_simp
  have n0: "getIntegerParam (multipleMode 0) ADNumImages = 0" by code_simp
  have i2: "idle (multipleMode (- 2))" by code_simp
  have r2: "rawReady ieee (multipleMode (- 2))" by code_simp
  have m2: "getIntegerParam (multipleMode (- 2)) ADImageMode = ADImageMultiple" by code_simp
  have n2: "getIntegerParam (multipleMode (- 2)) ADNumImages <s 0" by code_simp
  have v: "(1 :: epicsInt32) \<noteq> 0" by simp
  note g = calm_converts [of 18]
  have l: "length (replicate 18 calm) = 6 * 3" by simp
  from zero_or_negative_number_of_images [OF i0 r0 v m0 g] n0
  have z: "length (delivered (simTask ieee (replicate 18 calm) (snd (writeInt32 ADAcquire 1 (multipleMode 0)))))
     = length (delivered (multipleMode 0)) + 1 \<and>
   getIntegerParam (simTask ieee (replicate 18 calm) (snd (writeInt32 ADAcquire 1 (multipleMode 0)))) ADAcquire = 0"
    by auto
  from zero_or_negative_number_of_images [OF i2 r2 v m2 g] n2 l
  have ng: "length (delivered (simTask ieee (replicate 18 calm) (snd (writeInt32 ADAcquire 1 (multipleMode (- 2))))))
     = length (delivered (multipleMode (- 2))) + 3 \<and>
   getIntegerParam (simTask ieee (replicate 18 calm) (snd (writeInt32 ADAcquire 1 (multipleMode (- 2))))) ADAcquire = 1"
    by blast
  from i0 r0 m0 n0 i2 r2 m2 n2 v g z ng show ?thesis by simp
qed

subsection \<open>A stop signal during a wait\<close>










end
